(* ===== verification/JsPrelude.thy ===== *)
theory JsPrelude
  imports Complex_Main "HOL-Library.Multiset" "HOL-Library.AList"
begin

text \<open>
  The shared prelude: the part of the JavaScript language and standard library that the
  frontend (\<open>frontend-chart/src\<close>) uses, and the lemmas about it that the component theories share.

  Numbers. A JavaScript number is modelled by the real number it denotes (\<open>number\<close>): arithmetic is
  exact, so rounding of the 53-bit significand is idealised away, while every rounding the code
  asks for (\<open>Math.floor\<close>, \<open>Math.round\<close>, \<open>toFixed\<close>) is modelled. \<open>NaN\<close> and the infinities are
  no numbers of the model: where the code can produce or test for them the result is an
  \<open>option\<close> (\<open>parseFloat\<close>, \<open>parseInt\<close>) or the guard of the code is a branch of the model.

  Strings are character lists. Arrays are lists; \<open>slice\<close>, \<open>find\<close>, \<open>sort\<close> follow the
  library (\<open>sort\<close> is stable, so \<open>sort_key\<close> is the sort by a numeric comparator). A \<open>Map\<close> is an
  association list in insertion order with \<open>AList.update\<close> and \<open>AList.delete\<close>.
\<close>

named_theorems js_math \<open>definitions of the Math functions\<close>
named_theorems list_facts \<open>facts on slices, scans and sums of lists\<close>

section \<open>Numbers\<close>

type_synonym number = real

definition js_floor :: "number \<Rightarrow> number" where
  "js_floor x = of_int \<lfloor>x\<rfloor>"

definition js_ceil :: "number \<Rightarrow> number" where
  "js_ceil x = of_int \<lceil>x\<rceil>"

definition js_round :: "number \<Rightarrow> number" where
  "js_round x = of_int \<lfloor>x + 1 / 2\<rfloor>"

definition js_trunc :: "number \<Rightarrow> int" where
  "js_trunc x = (if 0 \<le> x then \<lfloor>x\<rfloor> else \<lceil>x\<rceil>)"

text \<open>\<open>Math.min(hi, Math.max(lo, x))\<close>, the clamp the code writes everywhere.\<close>

definition clamp :: "number \<Rightarrow> number \<Rightarrow> number \<Rightarrow> number" where
  "clamp lo hi x = min hi (max lo x)"

text \<open>\<open>x || d\<close> for a number: 0 is falsy.\<close>

definition or_else :: "number \<Rightarrow> number \<Rightarrow> number" where
  "or_else x d = (if x = 0 then d else x)"

text \<open>
  \<open>parseFloat(x.toFixed(d))\<close>: the closest multiple of \<open>10^-d\<close>, the larger magnitude when two are
  equally close; from \<open>10^21\<close> on \<open>toFixed\<close> prints the number itself.
\<close>

definition fixed_nonneg :: "nat \<Rightarrow> number \<Rightarrow> number" where
  "fixed_nonneg d x = of_int \<lfloor>x * 10 ^ d + 1 / 2\<rfloor> / 10 ^ d"

definition toFixed :: "nat \<Rightarrow> number \<Rightarrow> number" where
  "toFixed d x =
     (if \<bar>x\<bar> \<ge> 10 ^ 21 then x
      else if x < 0 then - fixed_nonneg d (- x) else fixed_nonneg d x)"

lemmas [js_math] = js_floor_def js_ceil_def js_round_def js_trunc_def clamp_def or_else_def

lemma clamp_bounds [simp, intro]:
  "lo \<le> hi \<Longrightarrow> lo \<le> clamp lo hi x" "clamp lo hi x \<le> hi"
  by (auto simp: clamp_def)

lemma clamp_id: "lo \<le> x \<Longrightarrow> x \<le> hi \<Longrightarrow> clamp lo hi x = x"
  by (simp add: clamp_def)

lemma clamp_mono: "x \<le> y \<Longrightarrow> clamp lo hi x \<le> clamp lo hi y"
  by (auto simp: clamp_def)

lemma js_floor_le: "js_floor x \<le> x" and js_floor_gt: "x < js_floor x + 1"
  by (auto simp: js_floor_def)

lemma js_ceil_ge: "x \<le> js_ceil x" and js_ceil_lt: "js_ceil x < x + 1"
  by (simp_all add: js_ceil_def) linarith

lemma js_floor_mono: "x \<le> y \<Longrightarrow> js_floor x \<le> js_floor y"
  by (simp add: js_floor_def floor_mono)

lemma fixed_nonneg_close: "\<bar>fixed_nonneg d x - x\<bar> \<le> 1 / (2 * 10 ^ d)"
proof -
  let ?p = "(10::real) ^ d"
  have p: "0 < ?p" by simp
  have "x * ?p - 1 / 2 \<le> of_int \<lfloor>x * ?p + 1 / 2\<rfloor>" "of_int \<lfloor>x * ?p + 1 / 2\<rfloor> \<le> x * ?p + 1 / 2"
    by linarith+
  then have "(x * ?p - 1 / 2) / ?p \<le> fixed_nonneg d x" "fixed_nonneg d x \<le> (x * ?p + 1 / 2) / ?p"
    unfolding fixed_nonneg_def by (intro divide_right_mono; simp)+
  moreover have "(x * ?p - 1 / 2) / ?p = x - 1 / (2 * ?p)" "(x * ?p + 1 / 2) / ?p = x + 1 / (2 * ?p)"
    using p by (simp_all add: diff_divide_distrib add_divide_distrib)
  ultimately show ?thesis by linarith
qed

lemma toFixed_close: "\<bar>toFixed d x - x\<bar> \<le> 1 / (2 * 10 ^ d)"
  using fixed_nonneg_close [of d x] fixed_nonneg_close [of d "- x"]
  by (auto simp: toFixed_def)

lemma fixed_nonneg_nonneg: "0 \<le> x \<Longrightarrow> 0 \<le> fixed_nonneg d x"
proof -
  assume "0 \<le> x"
  then have "0 \<le> x * 10 ^ d + 1 / 2" by simp
  then have "0 \<le> \<lfloor>x * 10 ^ d + 1 / 2\<rfloor>" by simp
  then show ?thesis by (simp add: fixed_nonneg_def)
qed

lemma toFixed_nonneg: "0 \<le> x \<Longrightarrow> 0 \<le> toFixed d x"
  by (simp add: toFixed_def fixed_nonneg_nonneg)

lemma toFixed_0 [simp]: "toFixed d 0 = 0"
  by (simp add: toFixed_def fixed_nonneg_def)

lemma toFixed_minus [simp]: "toFixed d (- x) = - toFixed d x"
  by (cases "x = 0") (auto simp: toFixed_def fixed_nonneg_def)

text \<open>Rounding once more after adding an amount at most doubles the error.\<close>

lemma toFixed_twice: "\<bar>toFixed d (toFixed d x + y) - (x + y)\<bar> \<le> 1 / 10 ^ d"
proof -
  have "1 / (2 * 10 ^ d) + 1 / (2 * 10 ^ d) = (1 :: number) / 10 ^ d" by (simp add: field_simps)
  then show ?thesis using toFixed_close [of d x] toFixed_close [of d "toFixed d x + y"] by linarith
qed

lemma fixed_nonneg_mono: "x \<le> y \<Longrightarrow> fixed_nonneg d x \<le> fixed_nonneg d y"
  unfolding fixed_nonneg_def
  by (intro divide_right_mono) (simp_all add: floor_mono mult_right_mono)

section \<open>Arrays\<close>

text \<open>\<open>xs.slice(s)\<close> for an integer \<open>s\<close>; \<open>xs.slice(-n)\<close> for a number \<open>n\<close>.\<close>

definition slice_from :: "int \<Rightarrow> 'a list \<Rightarrow> 'a list" where
  "slice_from s xs =
     (if s < 0 then drop (nat (int (length xs) + s)) xs else drop (nat s) xs)"

definition slice_last :: "number \<Rightarrow> 'a list \<Rightarrow> 'a list" where
  "slice_last n xs = slice_from (js_trunc (- n)) xs"

text \<open>\<open>xs[i]\<close> with an integer index: \<open>undefined\<close> is \<open>None\<close>.\<close>

definition js_nth :: "'a list \<Rightarrow> int \<Rightarrow> 'a option" where
  "js_nth xs i = (if 0 \<le> i \<and> i < int (length xs) then Some (xs ! nat i) else None)"

lemma slice_last_suffix: "\<exists>ys. xs = ys @ slice_last n xs"
proof -
  have "\<exists>k. slice_last n xs = drop k xs"
    by (auto simp: slice_last_def slice_from_def)
  then show ?thesis by (metis append_take_drop_id)
qed

lemma set_slice_last [list_facts]: "set (slice_last n xs) \<subseteq> set xs"
  by (metis slice_last_suffix set_append sup.cobounded2)

lemma slice_last_of_nat:
  "0 < n \<Longrightarrow> slice_last (real n) xs = drop (length xs - n) xs"
proof -
  assume n: "0 < n"
  then have t: "js_trunc (- real n) = - int n" by (simp add: js_trunc_def ceiling_minus)
  have "nat (int (length xs) + - int n) = length xs - n" by linarith
  with n t show ?thesis by (simp add: slice_last_def slice_from_def)
qed

lemma slice_last_length [list_facts]: "1 \<le> n \<Longrightarrow> real (length (slice_last n xs)) \<le> n"
proof -
  assume n: "1 \<le> n"
  let ?k = "\<lceil>- n\<rceil>"
  have neg: "?k < 0" and ge: "- n \<le> of_int ?k" using n by (linarith, simp)
  have "length (slice_last n xs) = length xs - nat (int (length xs) + ?k)"
    using n neg by (simp add: slice_last_def slice_from_def js_trunc_def)
  then have "int (length (slice_last n xs)) \<le> - ?k" using neg by linarith
  then have "real (length (slice_last n xs)) \<le> of_int (- ?k)" by linarith
  with ge show ?thesis by linarith
qed

lemma slice_last_all: "real (length xs) \<le> n \<Longrightarrow> 1 \<le> n \<Longrightarrow> slice_last n xs = xs"
proof -
  assume le: "real (length xs) \<le> n" and n: "1 \<le> n"
  have "\<lceil>- n\<rceil> \<le> - int (length xs)" using le by linarith
  with n show ?thesis by (simp add: slice_last_def slice_from_def js_trunc_def)
qed

lemma slice_last_append_last:
  assumes "1 \<le> n"
  shows "\<exists>ys. slice_last n (xs @ [x]) = ys @ [x]"
proof -
  have "\<lceil>- n\<rceil> \<le> - 1" "\<lceil>- n\<rceil> < 0" using assms by linarith+
  then have "nat (int (length (xs @ [x])) + \<lceil>- n\<rceil>) \<le> length xs" by (simp; linarith)
  moreover have "slice_last n (xs @ [x]) = drop (nat (int (length (xs @ [x])) + \<lceil>- n\<rceil>)) (xs @ [x])"
    using assms \<open>\<lceil>- n\<rceil> < 0\<close> by (simp add: slice_last_def slice_from_def js_trunc_def)
  ultimately show ?thesis by simp
qed

lemma sorted_wrt_slice_last [list_facts]: "sorted_wrt P xs \<Longrightarrow> sorted_wrt P (slice_last n xs)"
  by (metis slice_last_suffix sorted_wrt_append)

lemma js_nth_Some: "js_nth xs i = Some x \<Longrightarrow> x \<in> set xs"
  by (auto simp: js_nth_def split: if_splits)

lemma sorted_le_last: "sorted xs \<Longrightarrow> x \<in> set xs \<Longrightarrow> x \<le> last xs"
  by (cases xs rule: rev_cases) (auto simp: sorted_append)

text \<open>The sum of an attribute (\<open>reduce((s, x) => s + f(x), 0)\<close>).\<close>

definition sum_by :: "('a \<Rightarrow> number) \<Rightarrow> 'a list \<Rightarrow> number" where
  "sum_by f xs = foldl (\<lambda>s x. s + f x) 0 xs"

lemma foldl_add: "foldl (\<lambda>s x. s + f x) a xs = a + sum_list (map f xs)" for a :: number
  by (induction xs arbitrary: a) (auto simp: algebra_simps)

lemma sum_by_sum_list [simp]: "sum_by f xs = sum_list (map f xs)"
  by (simp add: sum_by_def foldl_add)

text \<open>The scan \<open>if (f(x) > m) m = f(x)\<close> for a running maximum, and its mirror image.\<close>

definition scan_max :: "('a \<Rightarrow> number) \<Rightarrow> number \<Rightarrow> 'a list \<Rightarrow> number" where
  "scan_max f m xs = foldl (\<lambda>m x. if f x > m then f x else m) m xs"

definition scan_min :: "('a \<Rightarrow> number) \<Rightarrow> number \<Rightarrow> 'a list \<Rightarrow> number" where
  "scan_min f m xs = foldl (\<lambda>m x. if f x < m then f x else m) m xs"

lemma scan_max_simps [simp]:
  "scan_max f m [] = m"
  "scan_max f m (x # xs) = scan_max f (if f x > m then f x else m) xs"
  by (simp_all add: scan_max_def)

lemma scan_min_simps [simp]:
  "scan_min f m [] = m"
  "scan_min f m (x # xs) = scan_min f (if f x < m then f x else m) xs"
  by (simp_all add: scan_min_def)

lemma scan_max_ge_init [list_facts]: "m \<le> scan_max f m xs"
proof (induction xs arbitrary: m)
  case (Cons x xs)
  show ?case using Cons [of "if f x > m then f x else m"] by (auto split: if_splits)
qed simp

lemma scan_max_ge [list_facts]: "x \<in> set xs \<Longrightarrow> f x \<le> scan_max f m xs"
proof (induction xs arbitrary: m)
  case (Cons y xs)
  show ?case
  proof (cases "x = y")
    case True
    then show ?thesis
      using scan_max_ge_init [of "if f y > m then f y else m" f xs] by (auto split: if_splits)
  qed (use Cons in auto)
qed simp

lemma scan_max_mem: "scan_max f m xs = m \<or> (\<exists>x \<in> set xs. scan_max f m xs = f x)"
proof (induction xs arbitrary: m)
  case (Cons y xs)
  show ?case using Cons [of "if f y > m then f y else m"] by (auto split: if_splits)
qed simp

lemma scan_min_le_init [list_facts]: "scan_min f m xs \<le> m"
proof (induction xs arbitrary: m)
  case (Cons x xs)
  show ?case using Cons [of "if f x < m then f x else m"] by (auto split: if_splits)
qed simp

lemma scan_min_le [list_facts]: "x \<in> set xs \<Longrightarrow> scan_min f m xs \<le> f x"
proof (induction xs arbitrary: m)
  case (Cons y xs)
  show ?case
  proof (cases "x = y")
    case True
    then show ?thesis
      using scan_min_le_init [of f "if f y < m then f y else m" xs] by (auto split: if_splits)
  qed (use Cons in auto)
qed simp

text \<open>A descending sort: \<open>sort((a, b) => f(b) - f(a))\<close>.\<close>

definition sort_desc :: "('a \<Rightarrow> number) \<Rightarrow> 'a list \<Rightarrow> 'a list" where
  "sort_desc f xs = sort_key (\<lambda>x. - f x) xs"

lemma mset_sort_desc [simp]: "mset (sort_desc f xs) = mset xs"
  by (simp add: sort_desc_def)

lemma set_sort_desc [simp]: "set (sort_desc f xs) = set xs"
  by (simp add: sort_desc_def)

lemma length_sort_desc [simp]: "length (sort_desc f xs) = length xs"
  by (simp add: sort_desc_def)

lemma sort_desc_empty_iff [simp]: "sort_desc f xs = [] \<longleftrightarrow> xs = []"
  by (metis length_0_conv length_sort_desc)

lemma sorted_sort_desc: "sorted_wrt (\<lambda>x y. f y \<le> f x) (sort_desc f xs)"
proof -
  have "sorted (map (\<lambda>x. - f x) (sort_desc f xs))" by (simp add: sort_desc_def)
  then show ?thesis by (simp add: sorted_map)
qed

lemma sum_sort_desc [simp]: "sum_list (map g (sort_desc f xs)) = sum_list (map g xs)"
  for g :: "'a \<Rightarrow> number"
  by (metis mset_map mset_sort_desc sum_mset_sum_list)

lemma sum_list_mset_cong: "mset xs = mset ys \<Longrightarrow> sum_list (map f xs) = sum_list (map f ys)"
  for f :: "'a \<Rightarrow> number"
  by (simp flip: sum_mset_sum_list add: mset_map)

lemma sum_list_map_nonneg: "(\<And>x. x \<in> set xs \<Longrightarrow> 0 \<le> f x) \<Longrightarrow> 0 \<le> sum_list (map f xs)"
  for f :: "'a \<Rightarrow> number"
  by (induction xs) auto

lemma sum_list_member_le:
  fixes f :: "'a \<Rightarrow> number"
  assumes "\<And>y. y \<in> set xs \<Longrightarrow> 0 \<le> f y" "x \<in> set xs"
  shows "f x \<le> sum_list (map f xs)"
  by (rule member_le_sum_list) (use assms in auto)

section \<open>Strings\<close>

definition to_upper :: "char \<Rightarrow> char" where
  "to_upper c = (let n = of_char c in if 97 \<le> n \<and> n \<le> (122::nat) then char_of (n - 32) else c)"

definition to_lower :: "char \<Rightarrow> char" where
  "to_lower c = (let n = of_char c in if 65 \<le> n \<and> n \<le> (90::nat) then char_of (n + 32) else c)"

definition toUpperCase :: "string \<Rightarrow> string" where
  "toUpperCase = map to_upper"

definition toLowerCase :: "string \<Rightarrow> string" where
  "toLowerCase = map to_lower"

definition startsWith :: "string \<Rightarrow> string \<Rightarrow> bool" where
  "startsWith s p \<longleftrightarrow> take (length p) s = p"

fun str_includes :: "string \<Rightarrow> string \<Rightarrow> bool" where
  "str_includes [] p = (p = [])"
| "str_includes (c # s) p = (startsWith (c # s) p \<or> str_includes s p)"

text \<open>\<open>s.replace("/", "")\<close> removes the first occurrence only.\<close>

fun remove_slash :: "string \<Rightarrow> string" where
  "remove_slash [] = []"
| "remove_slash (c # s) = (if c = CHR ''/'' then s else c # remove_slash s)"

text \<open>\<open>s.split("/")[0]\<close>\<close>

definition before_slash :: "string \<Rightarrow> string" where
  "before_slash s = takeWhile (\<lambda>c. c \<noteq> CHR ''/'') s"

text \<open>\<open>s || d\<close> for a string or null: null and the empty string are falsy.\<close>

definition str_or :: "string option \<Rightarrow> string \<Rightarrow> string" where
  "str_or s d = (case s of Some (c # t) \<Rightarrow> c # t | _ \<Rightarrow> d)"

definition truthy_str :: "string option \<Rightarrow> bool" where
  "truthy_str s \<longleftrightarrow> s \<noteq> None \<and> s \<noteq> Some []"

text \<open>Decimal notation of integers: \<open>n.toString()\<close>, and \<open>parseInt(s, 10)\<close> (\<open>None\<close> for \<open>NaN\<close>).\<close>

definition digit_char :: "nat \<Rightarrow> char" where
  "digit_char d = char_of (48 + d)"

definition is_digit :: "char \<Rightarrow> bool" where
  "is_digit c \<longleftrightarrow> (48::nat) \<le> of_char c \<and> of_char c \<le> (57::nat)"

fun show_nat :: "nat \<Rightarrow> string" where
  "show_nat n = (if n < 10 then [digit_char n] else show_nat (n div 10) @ [digit_char (n mod 10)])"

declare show_nat.simps [simp del]

definition show_int :: "int \<Rightarrow> string" where
  "show_int i = (if i < 0 then CHR ''-'' # show_nat (nat (- i)) else show_nat (nat i))"

definition digits_val :: "string \<Rightarrow> nat" where
  "digits_val ds = foldl (\<lambda>a c. 10 * a + (of_char c - 48)) 0 ds"

definition parse_nat :: "string \<Rightarrow> nat option" where
  "parse_nat s = (let ds = takeWhile is_digit s in if ds = [] then None else Some (digits_val ds))"

definition is_space :: "char \<Rightarrow> bool" where
  "is_space c \<longleftrightarrow> of_char c \<in> {9, 10, 11, 12, 13, 32 :: nat}"

definition parseInt :: "string \<Rightarrow> int option" where
  "parseInt s =
     (case dropWhile is_space s of
        [] \<Rightarrow> None
      | c # t \<Rightarrow>
          if c = CHR ''-'' then map_option (\<lambda>n. - int n) (parse_nat t)
          else if c = CHR ''+'' then map_option int (parse_nat t)
          else map_option int (parse_nat (c # t)))"

lemma of_char_digit [simp]: "d < 10 \<Longrightarrow> (of_char (digit_char d) :: nat) = 48 + d"
  by (simp add: digit_char_def of_char_of take_bit_nat_eq_self)

lemma is_digit_digit [simp]: "d < 10 \<Longrightarrow> is_digit (digit_char d)"
  by (simp add: is_digit_def)

lemma show_nat_nonempty [simp]: "show_nat n \<noteq> []"
  by (subst show_nat.simps) simp

lemma show_nat_digits: "c \<in> set (show_nat n) \<Longrightarrow> is_digit c"
  by (induction n rule: show_nat.induct) (subst (asm) (2) show_nat.simps, auto split: if_splits)

lemma digits_val_show_nat [simp]: "digits_val (show_nat n) = n"
proof (induction n rule: show_nat.induct)
  case (1 n)
  show ?case
  proof (cases "n < 10")
    case True
    then show ?thesis by (subst show_nat.simps) (simp add: digits_val_def)
  next
    case False
    with 1 show ?thesis by (subst show_nat.simps) (simp add: digits_val_def)
  qed
qed

lemma takeWhile_show_nat: "takeWhile is_digit (show_nat n) = show_nat n"
  by (simp add: show_nat_digits takeWhile_eq_all_conv)

lemma parse_nat_show [simp]: "parse_nat (show_nat n) = Some n"
  by (simp add: parse_nat_def takeWhile_show_nat)

lemma parseInt_show_int [simp]: "parseInt (show_int i) = Some i"
proof (cases "i < 0")
  case True
  then show ?thesis by (simp add: show_int_def parseInt_def is_space_def)
next
  case False
  obtain c t where ct: "show_nat (nat i) = c # t" by (cases "show_nat (nat i)") auto
  then have d: "is_digit c" using show_nat_digits [of c "nat i"] by simp
  then have "\<not> is_space c" "c \<noteq> CHR ''-''" "c \<noteq> CHR ''+''" by (auto simp: is_digit_def is_space_def)
  moreover have "parse_nat (c # t) = Some (nat i)" using parse_nat_show [of "nat i"] ct by simp
  ultimately show ?thesis using False by (simp add: show_int_def parseInt_def ct)
qed

lemma show_int_inj: "show_int i = show_int j \<Longrightarrow> i = j"
  by (metis option.inject parseInt_show_int)

lemma show_int_no_colon: "CHR '':'' \<notin> set (show_int i)"
  using show_nat_digits [of "CHR '':''"] by (auto simp: show_int_def is_digit_def)

end
