(* ===== verification/JsJson.thy ===== *)
theory JsJson
  imports JsPrelude
begin

text \<open>
  Values that come out of \<open>JSON.parse\<close> and the dynamically typed accesses the code makes on
  them: property lookup, truthiness, \<open>typeof x === "number"\<close>, \<open>??\<close>, object spread. An object is
  the list of its properties; \<open>undefined\<close> (an absent property) is \<open>None\<close>, \<open>null\<close> is \<open>JNull\<close>.
\<close>

datatype json =
    JNull
  | JBool bool
  | JNum number
  | JStr string
  | JArr "json list"
  | JObj "(string \<times> json) list"

type_synonym jobj = "(string \<times> json) list"

text \<open>Reading a property of a value that is neither null nor undefined.\<close>

fun jprop :: "json \<Rightarrow> string \<Rightarrow> json option" where
  "jprop (JObj kvs) k = map_of kvs k"
| "jprop _ k = None"

fun truthy :: "json \<Rightarrow> bool" where
  "truthy JNull = False"
| "truthy (JBool b) = b"
| "truthy (JNum n) = (n \<noteq> 0)"
| "truthy (JStr s) = (s \<noteq> [])"
| "truthy (JArr _) = True"
| "truthy (JObj _) = True"

definition truthy_opt :: "json option \<Rightarrow> bool" where
  "truthy_opt v = (case v of None \<Rightarrow> False | Some j \<Rightarrow> truthy j)"

text \<open>\<open>v !== false\<close> for a possibly absent property.\<close>

definition not_false :: "json option \<Rightarrow> bool" where
  "not_false v \<longleftrightarrow> v \<noteq> Some (JBool False)"

text \<open>\<open>typeof v === "number" ? v : d\<close>\<close>

definition num_or :: "number \<Rightarrow> json option \<Rightarrow> number" where
  "num_or d v = (case v of Some (JNum n) \<Rightarrow> n | _ \<Rightarrow> d)"

text \<open>\<open>v || d\<close> where \<open>v\<close> is expected to be a string.\<close>

definition str_prop_or :: "string \<Rightarrow> json option \<Rightarrow> json" where
  "str_prop_or d v = (case v of None \<Rightarrow> JStr d | Some j \<Rightarrow> if truthy j then j else JStr d)"

text \<open>
  \<open>{...a, ...b}\<close>: the properties of \<open>b\<close> override those of \<open>a\<close>. Spreading a value that is not an
  object contributes no named property.
\<close>

definition spread :: "jobj \<Rightarrow> jobj \<Rightarrow> jobj" where
  "spread a b = AList.merge a b"

fun obj_of :: "json \<Rightarrow> jobj" where
  "obj_of (JObj kvs) = kvs"
| "obj_of _ = []"

definition obj_set :: "string \<Rightarrow> json \<Rightarrow> jobj \<Rightarrow> jobj" where
  "obj_set k v kvs = AList.update k v kvs"

lemma map_of_spread [simp]: "map_of (spread a b) = map_of a ++ map_of b"
  by (simp add: spread_def merge_conv')

lemma map_of_obj_set [simp]: "map_of (obj_set k v kvs) = (map_of kvs)(k \<mapsto> v)"
  by (simp add: obj_set_def update_conv')

lemma jprop_obj_of: "jprop j k = map_of (obj_of j) k"
  by (cases j) auto

lemma num_or_simps [simp]:
  "num_or d None = d" "num_or d (Some (JNum n)) = n" "num_or d (Some JNull) = d"
  "num_or d (Some (JStr s)) = d" "num_or d (Some (JBool b)) = d"
  by (simp_all add: num_or_def)

end
