(* ===== verification/ChartTypes.thy ===== *)
theory ChartTypes
  imports JsJson
begin

text \<open>
  The data of the terminal (\<open>frontend-chart/src/types.ts\<close> and \<open>data/stubs.ts\<close>): footprint cells
  and candles, the order book, pairs, indicators and users. An optional property is an \<open>option\<close>.
  Field names carry a prefix of their record, since record selectors are global.
\<close>

record cell =
  cell_price :: number
  cell_bid :: number
  cell_ask :: number
  cell_volume :: number
  isPoc :: bool
  isBuyImbalance :: bool
  isSellImbalance :: bool

record candle =
  c_timestamp :: number
  c_open :: number
  c_high :: number
  c_low :: number
  c_close :: number
  c_volume :: number
  c_delta :: number
  c_pocPrice :: number
  c_cells :: "cell list"
  c_vah :: number
  c_val :: number
  c_tickCount :: "nat option"

record order_book_row =
  row_price :: number
  row_amount :: number
  row_total :: number
  row_percentage :: number

record order_book =
  ob_bids :: "order_book_row list"
  ob_asks :: "order_book_row list"

datatype side = Buy_side | Sell_side

record live_trade =
  tr_id :: string
  tr_timestamp :: number
  tr_price :: number
  tr_amount :: number
  tr_side :: side
  tr_isWhale :: bool

record crypto_pair =
  pair_symbol :: string
  pair_name :: string
  pair_price :: number
  pair_change24h :: number
  pair_volume24h :: number
  pair_delta24h :: number
  pair_priceStep :: number

datatype category = AllIndicators | Favorites | Community
datatype indicator_type = Overlay | Basement | GlobalType

text \<open>
  The settings of an indicator are the object the code reads dynamically (it tests
  \<open>typeof s.x === "number"\<close> on values that come from storage), so they stay a JSON object.
\<close>

type_synonym indicator_settings = jobj

record indicator =
  ind_id :: string
  ind_label :: string
  ind_category :: category
  ind_type :: indicator_type
  ind_isFavorite :: bool
  ind_isActive :: bool
  ind_isVisible :: "bool option"
  ind_settings :: indicator_settings

text \<open>A user as read back from storage: its fields are whatever the stored JSON holds.\<close>

record auth_user =
  au_name :: json
  au_email :: json
  au_avatar :: json

definition EMPTY_PAIRS :: "crypto_pair list" where
  "EMPTY_PAIRS =
     [\<lparr>pair_symbol = ''BTCUSDT'', pair_name = ''Bitcoin'', pair_price = 0, pair_change24h = 0,
       pair_volume24h = 0, pair_delta24h = 0, pair_priceStep = 5 / 2\<rparr>]"

definition EMPTY_CANDLES :: "candle list" where "EMPTY_CANDLES = []"

definition EMPTY_ORDER_BOOK :: order_book where
  "EMPTY_ORDER_BOOK = \<lparr>ob_bids = [], ob_asks = []\<rparr>"

definition EMPTY_TRADES :: "live_trade list" where "EMPTY_TRADES = []"

text \<open>Well-formed cells and candles: what the aggregation code establishes for its output.\<close>

definition cell_wf :: "cell \<Rightarrow> bool" where
  "cell_wf c \<longleftrightarrow> 0 \<le> cell_bid c \<and> 0 \<le> cell_ask c \<and> 0 \<le> cell_volume c"

lemma cell_wfD:
  "cell_wf c \<Longrightarrow> 0 \<le> cell_bid c" "cell_wf c \<Longrightarrow> 0 \<le> cell_ask c" "cell_wf c \<Longrightarrow> 0 \<le> cell_volume c"
  by (simp_all add: cell_wf_def)

end
