(* ===== verification/StorageLib.thy ===== *)
theory StorageLib
  imports JsJson
begin

text \<open>
  The storage wrapper (\<open>frontend-chart/src/lib/storage.ts\<close>) over \<open>localStorage\<close>.

  \<open>localStorage\<close> is a map of strings whose operations may throw: \<open>getItem\<close> and \<open>removeItem\<close>
  when access is denied (\<open>ls_denied\<close>), \<open>setItem\<close> also when the quota is exceeded (\<open>ls_quota k v\<close>).
  The wrapper catches every exception. The JSON text codec of the runtime (\<open>JSON.stringify\<close>,
  \<open>JSON.parse\<close>, both of which may throw) is the record \<open>codec\<close>; where a property relies on it, the
  documented law that parsing the text of a value gives the value back is a hypothesis.
\<close>

section \<open>The browser's localStorage\<close>

record local_storage =
  ls_items :: "string \<rightharpoonup> string"
  ls_denied :: bool
  ls_quota :: "string \<Rightarrow> string \<Rightarrow> bool"

record codec =
  json_stringify :: "json \<Rightarrow> string option"
  json_parse :: "string \<Rightarrow> json option"

datatype storage_exn = SecurityError | QuotaExceededError | StringifyError

definition getItem :: "local_storage \<Rightarrow> string \<Rightarrow> storage_exn + string option" where
  "getItem ls k = (if ls_denied ls then Inl SecurityError else Inr (ls_items ls k))"

definition setItem :: "local_storage \<Rightarrow> string \<Rightarrow> string \<Rightarrow> storage_exn + local_storage" where
  "setItem ls k v =
     (if ls_denied ls then Inl SecurityError
      else if ls_quota ls k v then Inl QuotaExceededError
      else Inr (ls\<lparr>ls_items := (ls_items ls)(k \<mapsto> v)\<rparr>))"

definition removeItem :: "local_storage \<Rightarrow> string \<Rightarrow> storage_exn + local_storage" where
  "removeItem ls k =
     (if ls_denied ls then Inl SecurityError else Inr (ls\<lparr>ls_items := (ls_items ls)(k := None)\<rparr>))"

section \<open>The wrapper\<close>

definition storage_get :: "local_storage \<Rightarrow> string \<Rightarrow> string option" where
  "storage_get ls k = (case getItem ls k of Inl _ \<Rightarrow> None | Inr v \<Rightarrow> v)"

definition storage_set :: "string \<Rightarrow> string \<Rightarrow> local_storage \<Rightarrow> local_storage" where
  "storage_set k v ls = (case setItem ls k v of Inl _ \<Rightarrow> ls | Inr ls' \<Rightarrow> ls')"

definition storage_remove :: "string \<Rightarrow> local_storage \<Rightarrow> local_storage" where
  "storage_remove k ls = (case removeItem ls k of Inl _ \<Rightarrow> ls | Inr ls' \<Rightarrow> ls')"

definition storage_getJson :: "codec \<Rightarrow> local_storage \<Rightarrow> string \<Rightarrow> json \<Rightarrow> json" where
  "storage_getJson cd ls k fallback =
     (case storage_get ls k of
        None \<Rightarrow> fallback
      | Some raw \<Rightarrow> (case json_parse cd raw of Some j \<Rightarrow> j | None \<Rightarrow> fallback))"

definition storage_setJson :: "codec \<Rightarrow> string \<Rightarrow> json \<Rightarrow> local_storage \<Rightarrow> local_storage" where
  "storage_setJson cd k j ls =
     (case json_stringify cd j of None \<Rightarrow> ls | Some raw \<Rightarrow> storage_set k raw ls)"

text \<open>A write of \<open>v\<close> under \<open>k\<close> is accepted.\<close>

definition writable :: "local_storage \<Rightarrow> string \<Rightarrow> string \<Rightarrow> bool" where
  "writable ls k v \<longleftrightarrow> \<not> ls_denied ls \<and> \<not> ls_quota ls k v"

section \<open>The interface its clients rely on\<close>

locale kv_store =
  fixes get :: "'s \<Rightarrow> 'k \<Rightarrow> 'v option"
    and put :: "'k \<Rightarrow> 'v \<Rightarrow> 's \<Rightarrow> 's"
    and del :: "'k \<Rightarrow> 's \<Rightarrow> 's"
    and accepts :: "'s \<Rightarrow> 'k \<Rightarrow> 'v \<Rightarrow> bool"
  assumes get_put: "accepts s k v \<Longrightarrow> get (put k v s) k = Some v"
    and put_rejected: "\<not> accepts s k v \<Longrightarrow> put k v s = s"
    and get_put_other: "k' \<noteq> k \<Longrightarrow> get (put k v s) k' = get s k'"
    and get_del_other: "k' \<noteq> k \<Longrightarrow> get (del k s) k' = get s k'"
    and get_del: "get (del k s) k = None"
begin

lemma get_put_cases: "get (put k v s) k' = (if k' = k \<and> accepts s k v then Some v else get s k')"
  by (cases "accepts s k v") (auto simp: get_put get_put_other put_rejected)

lemma put_put_other:
  "k1 \<noteq> k2 \<Longrightarrow> accepts s k1 v1 \<Longrightarrow> get (put k2 v2 (put k1 v1 s)) k1 = Some v1"
  by (simp add: get_put get_put_other)

text \<open>A sequence of writes under distinct keys loses none that is accepted.\<close>

lemma get_fold_put_other:
  "k \<notin> fst ` set kvs \<Longrightarrow> get (fold (\<lambda>(k, v). put k v) kvs s) k = get s k"
  by (induction kvs arbitrary: s) (auto simp: get_put_other)

end

interpretation ls: kv_store storage_get storage_set storage_remove writable
proof unfold_locales
  show "writable s k v \<Longrightarrow> storage_get (storage_set k v s) k = Some v" for s k v
    by (auto simp: storage_get_def storage_set_def getItem_def setItem_def writable_def)
  show "\<not> writable s k v \<Longrightarrow> storage_set k v s = s" for s k v
    by (auto simp: storage_set_def setItem_def writable_def)
  show "k' \<noteq> k \<Longrightarrow> storage_get (storage_set k v s) k' = storage_get s k'" for s k k' v
    by (auto simp: storage_get_def storage_set_def getItem_def setItem_def)
  show "k' \<noteq> k \<Longrightarrow> storage_get (storage_remove k s) k' = storage_get s k'" for s k k'
    by (auto simp: storage_get_def storage_remove_def getItem_def removeItem_def)
  show "storage_get (storage_remove k s) k = None" for s k
    by (auto simp: storage_get_def storage_remove_def getItem_def removeItem_def)
qed

lemma storage_getJson_setJson:
  assumes "json_stringify cd j = Some raw" "json_parse cd raw = Some j" "writable ls k raw"
  shows "storage_getJson cd (storage_setJson cd k j ls) k d = j"
  using assms by (simp add: storage_getJson_def storage_setJson_def ls.get_put)

lemma storage_getJson_other:
  "k' \<noteq> k \<Longrightarrow> storage_getJson cd (storage_setJson cd k j ls) k' d = storage_getJson cd ls k' d"
  by (simp add: storage_getJson_def storage_setJson_def ls.get_put_other split: option.split)

lemma storage_get_setJson_other:
  "k' \<noteq> k \<Longrightarrow> storage_get (storage_setJson cd k j ls) k' = storage_get ls k'"
  by (simp add: storage_setJson_def ls.get_put_other split: option.split)

lemma storage_getJson_set_other:
  "k' \<noteq> k \<Longrightarrow> storage_getJson cd (storage_set k v ls) k' d = storage_getJson cd ls k' d"
  by (simp add: storage_getJson_def ls.get_put_other)

end
