(* ===== verification/TierLimits.thy ===== *)
theory TierLimits
  imports StorageLib
begin

text \<open>
  Subscription tiers and their limits (\<open>frontend-chart/src/lib/tierLimits.ts\<close>, and
  \<open>getMaxCandlesForInterval\<close> of \<open>App.tsx\<close>).

  The user's group is found from, in this order, the role the caller passes, the role saved in
  storage, and the profile (passed or saved). The limits are the defaults of the group overridden
  by the settings saved in storage, which may be any JSON value: a saved setting of the wrong type
  stays as it is, only a numeric \<open>compressionLevels\<close> is clamped to 1..6.
\<close>

datatype tier_group = G_guest | G_free | G_pro | G_vip | G_admin

fun group_key :: "tier_group \<Rightarrow> string" where
  "group_key G_guest = ''guest''"
| "group_key G_free = ''free''"
| "group_key G_pro = ''pro''"
| "group_key G_vip = ''vip''"
| "group_key G_admin = ''admin''"

definition mk_limits ::
  "number \<Rightarrow> number \<Rightarrow> number \<Rightarrow> bool \<Rightarrow> bool \<Rightarrow> number list \<Rightarrow> number \<Rightarrow> jobj" where
  "mk_limits maxHistory levels maxInd custom tg days ws =
     [(''maxHistory'', JNum maxHistory), (''compressionLevels'', JNum levels),
      (''maxIndicators'', JNum maxInd), (''customIndicatorSettings'', JBool custom),
      (''telegramNotifications'', JBool tg)]
     @ zip [''historyDays_1m'', ''historyDays_5m'', ''historyDays_15m'', ''historyDays_30m'',
            ''historyDays_1h'', ''historyDays_4h''] (map JNum days)
     @ [(''workspacesCount'', JNum ws)]"

fun defaultTierSettings :: "tier_group \<Rightarrow> jobj" where
  "defaultTierSettings G_guest = mk_limits 700 1 3 False False [1, 3, 7, 14, 30, 90] 1"
| "defaultTierSettings G_free = mk_limits 700 1 3 False False [1, 3, 7, 14, 30, 90] 1"
| "defaultTierSettings G_pro = mk_limits 1400 2 5 True False [3, 7, 14, 30, 60, 180] 2"
| "defaultTierSettings G_vip = mk_limits 10000 6 15 True True [7, 14, 30, 60, 120, 360] 2"
| "defaultTierSettings G_admin = mk_limits 10000 6 99 True True [14, 30, 60, 120, 240, 720] 2"

section \<open>The group of the current user\<close>

text \<open>A role string, compared in lower case; an unknown role leaves the initial group.\<close>

definition role_group :: "string \<Rightarrow> tier_group" where
  "role_group role =
     (let r = toLowerCase role in
      if r = ''admin'' then G_admin
      else if r = ''vip'' then G_vip
      else if r = ''pro'' then G_pro
      else if r = ''free'' then G_free
      else G_guest)"

text \<open>
  \<open>(userObj.tier || "Free").toLowerCase()\<close>: a truthy tier that is not a string has no such method,
  and the call throws (\<open>None\<close>).
\<close>

definition tier_lower :: "json \<Rightarrow> string option" where
  "tier_lower u =
     (case str_prop_or ''Free'' (jprop u ''tier'') of JStr s \<Rightarrow> Some (toLowerCase s) | _ \<Rightarrow> None)"

definition prop_is :: "json \<Rightarrow> string \<Rightarrow> string \<Rightarrow> bool" where
  "prop_is u k s \<longleftrightarrow> (case jprop u k of Some (JStr t) \<Rightarrow> t = s | _ \<Rightarrow> False)"

definition user_group :: "json \<Rightarrow> tier_group option" where
  "user_group u =
     (case tier_lower u of
        None \<Rightarrow> None
      | Some tier \<Rightarrow> Some
         (if tier = ''admin'' \<or> prop_is u ''role'' ''Admin'' \<or> prop_is u ''subscriptionLevel'' ''Admin''
          then G_admin
          else if tier = ''vip'' \<or> prop_is u ''subscriptionLevel'' ''VIP'' then G_vip
          else if tier = ''pro'' \<or> tier = ''rpo'' \<or> prop_is u ''subscriptionLevel'' ''RPO'' then G_pro
          else if tier = ''free'' then G_free
          else G_guest))"

text \<open>\<open>profileUser || storage.getJson("procluster_user", null)\<close>\<close>

definition user_object :: "codec \<Rightarrow> local_storage \<Rightarrow> json option \<Rightarrow> json" where
  "user_object cd ls profileUser =
     (if truthy_opt profileUser then the profileUser
      else let saved = storage_getJson cd ls ''procluster_user'' JNull in
           if truthy saved then saved else JNull)"

definition active_group :: "codec \<Rightarrow> local_storage \<Rightarrow> string option \<Rightarrow> json option \<Rightarrow> tier_group option" where
  "active_group cd ls userRole profileUser =
     (if truthy_str userRole then Some (role_group (the userRole))
      else let savedRole = storage_get ls ''procluster_role'' in
        if truthy_str savedRole then Some (role_group (the savedRole))
        else let u = user_object cd ls profileUser in
          if truthy u then user_group u else Some G_guest)"

section \<open>The settings in force\<close>

text \<open>\<open>s.compressionLevels = Math.min(6, Math.max(1, s.compressionLevels))\<close> when it is a number.\<close>

definition clamp_levels :: "jobj \<Rightarrow> jobj" where
  "clamp_levels s =
     (case map_of s ''compressionLevels'' of
        Some (JNum n) \<Rightarrow> obj_set ''compressionLevels'' (JNum (clamp 1 6 n)) s
      | _ \<Rightarrow> s)"

text \<open>
  The loop over the five groups: a missing or falsy entry becomes a copy of the default, any other
  is spread over it. Assigning a property of a primitive throws, and the surrounding \<open>catch\<close> keeps
  the defaults.
\<close>

definition merged_entry :: "json option \<Rightarrow> jobj \<Rightarrow> jobj" where
  "merged_entry entry dflt =
     clamp_levels (if truthy_opt entry then spread dflt (obj_of (the entry)) else dflt)"

definition effective_settings :: "json \<Rightarrow> tier_group \<Rightarrow> jobj" where
  "effective_settings saved g =
     (if \<not> truthy saved then defaultTierSettings g
      else case saved of
             JObj kvs \<Rightarrow> merged_entry (map_of kvs (group_key g)) (defaultTierSettings g)
           | JArr _ \<Rightarrow> merged_entry None (defaultTierSettings g)
           | _ \<Rightarrow> defaultTierSettings g)"

definition getActiveGroupLimits ::
  "codec \<Rightarrow> local_storage \<Rightarrow> string option \<Rightarrow> json option \<Rightarrow> (tier_group \<times> jobj) option" where
  "getActiveGroupLimits cd ls userRole profileUser =
     (case active_group cd ls userRole profileUser of
        None \<Rightarrow> None
      | Some g \<Rightarrow>
          Some (g, effective_settings (storage_getJson cd ls ''procluster_tier_settings'' JNull) g))"

section \<open>The number of candles kept per interval\<close>

text \<open>
  \<open>v ?? d\<close> where a number is expected: absent and null give the default, a value of another type
  (which JavaScript would coerce in the product that follows) is outside the model.
\<close>

definition nullish_num :: "json option \<Rightarrow> number \<Rightarrow> number option" where
  "nullish_num v d =
     (case v of None \<Rightarrow> Some d | Some JNull \<Rightarrow> Some d | Some (JNum n) \<Rightarrow> Some n | _ \<Rightarrow> None)"

definition getMaxCandlesForInterval :: "jobj \<Rightarrow> string \<Rightarrow> number option" where
  "getMaxCandlesForInterval limits interval =
     (if interval = ''1m'' then map_option (\<lambda>d. d * 24 * 60) (nullish_num (map_of limits ''historyDays_1m'') 1)
      else if interval = ''5m'' then map_option (\<lambda>d. d * 24 * 12) (nullish_num (map_of limits ''historyDays_5m'') 3)
      else if interval = ''15m'' then map_option (\<lambda>d. d * 24 * 4) (nullish_num (map_of limits ''historyDays_15m'') 7)
      else if interval = ''30m'' then map_option (\<lambda>d. d * 24 * 2) (nullish_num (map_of limits ''historyDays_30m'') 14)
      else if interval = ''1h'' then map_option (\<lambda>d. d * 24) (nullish_num (map_of limits ''historyDays_1h'') 30)
      else if interval = ''4h'' then map_option (\<lambda>d. d * 6) (nullish_num (map_of limits ''historyDays_4h'') 90)
      else map_option (\<lambda>h. or_else h 700) (nullish_num (map_of limits ''maxHistory'') 700))"

section \<open>Lemmas\<close>

lemma default_levels: "map_of (defaultTierSettings g) ''compressionLevels'' = Some (JNum (case g of
    G_guest \<Rightarrow> 1 | G_free \<Rightarrow> 1 | G_pro \<Rightarrow> 2 | G_vip \<Rightarrow> 6 | G_admin \<Rightarrow> 6))"
  by (cases g) (simp_all add: mk_limits_def)

lemma default_levels_range:
  "map_of (defaultTierSettings g) ''compressionLevels'' = Some (JNum n) \<Longrightarrow> 1 \<le> n \<and> n \<le> 6"
  by (auto simp: default_levels split: tier_group.splits)

lemma clamp_levels_other [simp]:
  "k \<noteq> ''compressionLevels'' \<Longrightarrow> map_of (clamp_levels s) k = map_of s k"
  by (auto simp: clamp_levels_def split: option.splits json.splits)

lemma clamp_levels_range:
  "map_of (clamp_levels s) ''compressionLevels'' = Some (JNum n) \<Longrightarrow> 1 \<le> n \<and> n \<le> 6"
  by (auto simp: clamp_levels_def clamp_def split: option.splits json.splits)

lemma effective_levels_range:
  "map_of (effective_settings saved g) ''compressionLevels'' = Some (JNum n) \<Longrightarrow> 1 \<le> n \<and> n \<le> 6"
  unfolding effective_settings_def merged_entry_def
  by (cases saved) (auto dest: clamp_levels_range default_levels_range split: if_splits
                         simp del: defaultTierSettings.simps)

lemma getActiveGroupLimits_Some:
  "getActiveGroupLimits cd ls r p = Some (g, lims) \<longleftrightarrow>
     active_group cd ls r p = Some g \<and>
     lims = effective_settings (storage_getJson cd ls ''procluster_tier_settings'' JNull) g"
  by (auto simp: getActiveGroupLimits_def split: option.splits)

lemma role_group_admin [simp]: "role_group r = G_admin \<longleftrightarrow> toLowerCase r = ''admin''"
  by (auto simp: role_group_def Let_def)

lemma user_group_admin:
  "user_group u = Some G_admin \<Longrightarrow>
     tier_lower u = Some ''admin'' \<or> prop_is u ''role'' ''Admin'' \<or>
     prop_is u ''subscriptionLevel'' ''Admin''"
  by (auto simp: user_group_def split: option.splits if_splits)

text \<open>The settings of a group are a default overridden entry by entry.\<close>

lemma effective_settings_entry:
  assumes "k \<noteq> ''compressionLevels''"
  shows "map_of (effective_settings (JObj kvs) g) k =
    (case map_of kvs (group_key g) of
       Some (JObj o') \<Rightarrow> (map_of (defaultTierSettings g) ++ map_of o') k
     | _ \<Rightarrow> map_of (defaultTierSettings g) k)"
  using assms
  by (auto simp: effective_settings_def merged_entry_def truthy_opt_def split: option.splits json.splits)

section \<open>Properties\<close>

text \<open>
  Whatever JSON is stored as tier settings, whenever the effective \<open>compressionLevels\<close> is a number it
  lies between 1 and 6, for every role, profile and storage content.
\<close>

theorem compression_levels_in_range:
  assumes "getActiveGroupLimits cd ls userRole profileUser = Some (g, lims)"
    and "map_of lims ''compressionLevels'' = Some (JNum n)"
  shows "1 \<le> n \<and> n \<le> 6"
  using assms effective_levels_range by (auto simp: getActiveGroupLimits_Some)

text \<open>A codec, a storage and a stored setting (100 levels for VIP) used by the witnesses.\<close>

definition wit_codec :: codec where
  "wit_codec = \<lparr>json_stringify = (\<lambda>_. None),
     json_parse = (\<lambda>t. if t = ''{vip:100}''
        then Some (JObj [(''vip'', JObj [(''compressionLevels'', JNum 100)])]) else None)\<rparr>"

definition wit_storage :: local_storage where
  "wit_storage = \<lparr>ls_items = [''procluster_role'' \<mapsto> ''VIP'', ''procluster_tier_settings'' \<mapsto> ''{vip:100}''],
     ls_denied = False, ls_quota = (\<lambda>_ _. False)\<rparr>"

lemmas wit_defs = wit_codec_def wit_storage_def storage_get_def getItem_def storage_getJson_def

lemma wit_roles: "role_group ''VIP'' = G_vip" "role_group ''ADMIN'' = G_admin"
  by code_simp+

lemma wit_limits:
  "getActiveGroupLimits wit_codec wit_storage None None =
     Some (G_vip, effective_settings (JObj [(''vip'', JObj [(''compressionLevels'', JNum 100)])]) G_vip)"
  by (simp add: getActiveGroupLimits_def active_group_def wit_defs truthy_str_def wit_roles)

lemma wit_levels:
  "map_of (effective_settings (JObj [(''vip'', JObj [(''compressionLevels'', JNum 100)])]) G_vip)
     ''compressionLevels'' = Some (JNum 6)"
  by (simp add: effective_settings_def merged_entry_def truthy_opt_def clamp_levels_def clamp_def
      mk_limits_def)

theorem compression_levels_in_range_witness: "(1::number) \<le> 6 \<and> (6::number) \<le> 6"
  using compression_levels_in_range [OF wit_limits wit_levels] .

text \<open>
  The admin limits are only given on evidence: the group is admin only if the role passed by the caller
  says so, or, when none is passed, the saved role says so, or, when there is none either, the user object has
  the tier, role or subscription level of an admin.
\<close>

theorem admin_group_only_on_evidence:
  assumes "getActiveGroupLimits cd ls userRole profileUser = Some (G_admin, lims)"
  shows "if truthy_str userRole then toLowerCase (the userRole) = ''admin''
         else if truthy_str (storage_get ls ''procluster_role'')
           then toLowerCase (the (storage_get ls ''procluster_role'')) = ''admin''
         else (let u = user_object cd ls profileUser in
                tier_lower u = Some ''admin'' \<or> prop_is u ''role'' ''Admin'' \<or>
                prop_is u ''subscriptionLevel'' ''Admin'')"
  using assms
  by (auto simp: getActiveGroupLimits_Some active_group_def Let_def split: if_splits
           dest: user_group_admin)

lemma wit_admin:
  "getActiveGroupLimits wit_codec wit_storage (Some ''ADMIN'') None =
     Some (G_admin, effective_settings (JObj [(''vip'', JObj [(''compressionLevels'', JNum 100)])]) G_admin)"
  by (simp add: getActiveGroupLimits_def active_group_def wit_defs truthy_str_def wit_roles)

theorem admin_group_only_on_evidence_witness:
  "toLowerCase (the (Some ''ADMIN'')) = ''admin''"
  using admin_group_only_on_evidence [OF wit_admin] by (simp add: truthy_str_def)

end
