(* ===== verification/AuthStubs.thy ===== *)
theory AuthStubs
  imports TierLimits ChartTypes
begin

text \<open>
  Accounts (\<open>frontend-chart/src/auth/stubs.ts\<close>) and the sign-in form of the header
  (\<open>components/Header.tsx\<close>). The functions of \<open>stubs.ts\<close> use \<open>localStorage\<close> directly, so an
  exception of the browser propagates to the caller (\<open>Inl\<close>); the state is left as it was then.
\<close>

record auth_result =
  ar_success :: bool
  ar_error :: "string option"
  ar_user :: "auth_user option"

definition user_fields :: "auth_user \<Rightarrow> jobj" where
  "user_fields u = [(''name'', au_name u), (''email'', au_email u), (''avatar'', au_avatar u)]"

definition mk_user :: "string \<Rightarrow> string \<Rightarrow> string \<Rightarrow> auth_user" where
  "mk_user n e a = \<lparr>au_name = JStr n, au_email = JStr e, au_avatar = JStr a\<rparr>"

text \<open>\<open>localStorage.setItem(k, JSON.stringify(v))\<close>, unguarded.\<close>

definition put_json :: "codec \<Rightarrow> string \<Rightarrow> json \<Rightarrow> local_storage \<Rightarrow> storage_exn + local_storage" where
  "put_json cd k v ls =
     (case json_stringify cd v of None \<Rightarrow> Inl StringifyError | Some raw \<Rightarrow> setItem ls k raw)"

definition getCurrentUser :: "codec \<Rightarrow> local_storage \<Rightarrow> storage_exn + auth_user option" where
  "getCurrentUser cd ls =
     (case getItem ls ''procluster_user'' of
        Inl e \<Rightarrow> Inl e
      | Inr raw \<Rightarrow>
          if \<not> truthy_str raw then Inr None
          else (case json_parse cd (the raw) of
                  None \<Rightarrow> Inr None
                | Some JNull \<Rightarrow> Inr None
                | Some parsed \<Rightarrow>
                    Inr (Some \<lparr>au_name = str_prop_or ''User'' (jprop parsed ''name''),
                               au_email = str_prop_or '''' (jprop parsed ''email''),
                               au_avatar = str_prop_or '''' (jprop parsed ''avatar'')\<rparr>)))"

definition loginUser ::
  "codec \<Rightarrow> string \<Rightarrow> string \<Rightarrow> local_storage \<Rightarrow> storage_exn + (local_storage \<times> auth_result)" where
  "loginUser cd name password ls =
     (if name = [] \<or> password = []
      then Inr (ls, \<lparr>ar_success = False, ar_error = Some ''Fill all fields'', ar_user = None\<rparr>)
      else let user = mk_user name (name @ ''@procluster.local'') '''' in
        case put_json cd ''procluster_user''
               (JObj (user_fields user @ [(''tier'', JStr ''Admin''), (''role'', JStr ''Admin''),
                                          (''subscriptionLevel'', JStr ''Admin'')])) ls of
          Inl e \<Rightarrow> Inl e
        | Inr ls' \<Rightarrow> Inr (ls', \<lparr>ar_success = True, ar_error = None, ar_user = Some user\<rparr>))"

definition registerUser ::
  "codec \<Rightarrow> string \<Rightarrow> string \<Rightarrow> string \<Rightarrow> string \<Rightarrow> local_storage
     \<Rightarrow> storage_exn + (local_storage \<times> auth_result)" where
  "registerUser cd name email password confirm ls =
     (if password \<noteq> confirm
      then Inr (ls, \<lparr>ar_success = False, ar_error = Some ''Passwords don't match'', ar_user = None\<rparr>)
      else let user = mk_user name email '''' in
        case put_json cd ''procluster_user''
               (JObj (user_fields user @ [(''tier'', JStr ''Free''), (''role'', JStr ''Free''),
                                          (''subscriptionLevel'', JStr ''Free'')])) ls of
          Inl e \<Rightarrow> Inl e
        | Inr ls' \<Rightarrow> Inr (ls', \<lparr>ar_success = True, ar_error = None, ar_user = Some user\<rparr>))"

definition authenticateWithGoogle :: "codec \<Rightarrow> local_storage \<Rightarrow> storage_exn + (local_storage \<times> auth_user)" where
  "authenticateWithGoogle cd ls =
     (let user = mk_user ''User'' ''user@gmail.com'' '''' in
      case put_json cd ''procluster_user''
             (JObj (user_fields user @ [(''tier'', JStr ''Free''), (''role'', JStr ''Free'')])) ls of
        Inl e \<Rightarrow> Inl e
      | Inr ls' \<Rightarrow> Inr (ls', user))"

definition authenticateWithAdmin :: "codec \<Rightarrow> local_storage \<Rightarrow> storage_exn + (local_storage \<times> auth_user)" where
  "authenticateWithAdmin cd ls =
     (let user = mk_user ''Admin'' ''admin@procluster.io'' '''' in
      case put_json cd ''procluster_user''
             (JObj (user_fields user @ [(''tier'', JStr ''Admin''), (''role'', JStr ''Admin''),
                                        (''subscriptionLevel'', JStr ''Admin'')])) ls of
        Inl e \<Rightarrow> Inl e
      | Inr ls' \<Rightarrow> Inr (ls', user))"

definition logoutUser :: "local_storage \<Rightarrow> storage_exn + local_storage" where
  "logoutUser ls = removeItem ls ''procluster_user''"

section \<open>The header's sign-in form\<close>

datatype auth_tab = LoginTab | RegisterTab

record header_state =
  hd_user :: "auth_user option"
  hd_dropdownOpen :: bool
  hd_showLoginModal :: bool
  hd_loginEmail :: string
  hd_loginName :: string
  hd_loginPassword :: string
  hd_confirmPassword :: string
  hd_authTab :: auth_tab
  hd_authError :: string

definition header_init :: "codec \<Rightarrow> local_storage \<Rightarrow> storage_exn + header_state" where
  "header_init cd ls =
     (case getCurrentUser cd ls of
        Inl e \<Rightarrow> Inl e
      | Inr u \<Rightarrow> Inr \<lparr>hd_user = u, hd_dropdownOpen = False, hd_showLoginModal = False,
          hd_loginEmail = [], hd_loginName = [], hd_loginPassword = [], hd_confirmPassword = [],
          hd_authTab = LoginTab, hd_authError = []\<rparr>)"

definition header_handleUpdate :: "codec \<Rightarrow> local_storage \<Rightarrow> header_state \<Rightarrow> storage_exn + header_state" where
  "header_handleUpdate cd ls h =
     (case getCurrentUser cd ls of Inl e \<Rightarrow> Inl e | Inr u \<Rightarrow> Inr (h\<lparr>hd_user := u\<rparr>))"

definition handleLogout :: "local_storage \<times> header_state \<Rightarrow> storage_exn + (local_storage \<times> header_state)" where
  "handleLogout s =
     (case logoutUser (fst s) of
        Inl e \<Rightarrow> Inl e
      | Inr ls' \<Rightarrow> Inr (ls', (snd s)\<lparr>hd_user := None, hd_dropdownOpen := False\<rparr>))"

definition apply_auth_result :: "auth_result \<Rightarrow> header_state \<Rightarrow> header_state" where
  "apply_auth_result r h =
     (if ar_success r \<and> ar_user r \<noteq> None
      then h\<lparr>hd_user := ar_user r, hd_showLoginModal := False, hd_loginName := [],
             hd_loginPassword := [], hd_loginEmail := [], hd_confirmPassword := []\<rparr>
      else h\<lparr>hd_authError := str_or (ar_error r) []\<rparr>)"

definition handleAuthSubmit ::
  "codec \<Rightarrow> local_storage \<times> header_state \<Rightarrow> storage_exn + (local_storage \<times> header_state)" where
  "handleAuthSubmit cd s =
     (let ls = fst s; h = (snd s)\<lparr>hd_authError := []\<rparr>;
          res = (if hd_authTab h = LoginTab
                 then loginUser cd (hd_loginName h) (hd_loginPassword h) ls
                 else registerUser cd (hd_loginName h) (hd_loginEmail h) (hd_loginPassword h)
                        (hd_confirmPassword h) ls)
      in case res of
           Inl e \<Rightarrow> Inl e
         | Inr (ls', r) \<Rightarrow> Inr (ls', apply_auth_result r h))"

definition handleGoogleAuth ::
  "codec \<Rightarrow> local_storage \<times> header_state \<Rightarrow> storage_exn + (local_storage \<times> header_state)" where
  "handleGoogleAuth cd s =
     (case authenticateWithGoogle cd (fst s) of
        Inl e \<Rightarrow> Inl e
      | Inr (ls', u) \<Rightarrow> Inr (ls', (snd s)\<lparr>hd_user := Some u, hd_showLoginModal := False\<rparr>))"

section \<open>Lemmas\<close>

lemma put_json_Inr:
  "put_json cd k v ls = Inr ls' \<longleftrightarrow>
     (\<exists>raw. json_stringify cd v = Some raw \<and> writable ls k raw \<and> ls' = storage_set k raw ls)"
  by (auto simp: put_json_def setItem_def writable_def storage_set_def split: option.splits)

lemma put_json_get:
  assumes "put_json cd k v ls = Inr ls'" "\<And>raw. json_stringify cd v = Some raw \<Longrightarrow> json_parse cd raw = Some v"
  shows "storage_getJson cd ls' k d = v"
  using assms by (auto simp: put_json_Inr storage_getJson_def ls.get_put)

lemma put_json_other: "put_json cd k v ls = Inr ls' \<Longrightarrow> k' \<noteq> k \<Longrightarrow> storage_get ls' k' = storage_get ls k'"
  by (auto simp: put_json_Inr ls.get_put_other)

lemma lower_Admin: "toLowerCase ''Admin'' = ''admin''" and lower_Free: "toLowerCase ''Free'' = ''free''"
  by code_simp+

lemma logoutUser_Inr: "logoutUser ls = Inr ls' \<Longrightarrow> storage_get ls' ''procluster_user'' = None"
  by (auto simp: logoutUser_def removeItem_def storage_get_def getItem_def split: if_splits)

section \<open>Properties\<close>

text \<open>
  The sign-in form accepts every non-empty name and password as an administrator: after a submission of the
  login tab that the storage accepts, the form is closed and cleared, and, when no other role is in force,
  the limits of the admin group apply.
\<close>

theorem any_login_is_admin:
  assumes submit: "handleAuthSubmit cd (ls, h) = Inr (ls', h')"
    and tab: "hd_authTab h = LoginTab" "hd_loginName h \<noteq> []" "hd_loginPassword h \<noteq> []"
    and codec: "\<And>v raw. json_stringify cd v = Some raw \<Longrightarrow> json_parse cd raw = Some v"
    and no_role: "storage_get ls ''procluster_role'' = None"
  shows "hd_user h' \<noteq> None \<and> \<not> hd_showLoginModal h' \<and> hd_loginPassword h' = [] \<and>
         active_group cd ls' None None = Some G_admin"
proof -
  let ?u = "mk_user (hd_loginName h) (hd_loginName h @ ''@procluster.local'') ''''"
  let ?v = "JObj (user_fields ?u @ [(''tier'', JStr ''Admin''), (''role'', JStr ''Admin''),
                                     (''subscriptionLevel'', JStr ''Admin'')])"
  have put: "put_json cd ''procluster_user'' ?v ls = Inr ls'"
    and h': "h' = apply_auth_result \<lparr>ar_success = True, ar_error = None, ar_user = Some ?u\<rparr>
                    (h\<lparr>hd_authError := []\<rparr>)"
    using submit tab
    by (auto simp: handleAuthSubmit_def loginUser_def Let_def split: sum.splits)
  have "storage_getJson cd ls' ''procluster_user'' JNull = ?v"
    using put_json_get [OF put codec] .
  moreover have "storage_get ls' ''procluster_role'' = None"
    using put_json_other [OF put] no_role by simp
  ultimately have "active_group cd ls' None None = Some G_admin"
    by (simp add: active_group_def truthy_str_def user_object_def truthy_opt_def user_group_def
        tier_lower_def str_prop_or_def user_fields_def lower_Admin)
  then show ?thesis by (simp add: h' apply_auth_result_def)
qed

definition wit_form :: header_state where
  "wit_form = \<lparr>hd_user = None, hd_dropdownOpen = False, hd_showLoginModal = True, hd_loginEmail = [],
     hd_loginName = ''a'', hd_loginPassword = ''b'', hd_confirmPassword = [], hd_authTab = LoginTab,
     hd_authError = []\<rparr>"

definition wit_admin_json :: json where
  "wit_admin_json = JObj [(''name'', JStr ''a''), (''email'', JStr ''a@procluster.local''),
     (''avatar'', JStr ''''), (''tier'', JStr ''Admin''), (''role'', JStr ''Admin''),
     (''subscriptionLevel'', JStr ''Admin'')]"

definition wit_cd :: codec where
  "wit_cd = \<lparr>json_stringify = (\<lambda>v. if v = wit_admin_json then Some ''T'' else None),
             json_parse = (\<lambda>t. if t = ''T'' then Some wit_admin_json else None)\<rparr>"

definition wit_ls :: local_storage where
  "wit_ls = \<lparr>ls_items = Map.empty, ls_denied = False, ls_quota = (\<lambda>_ _. False)\<rparr>"

lemma wit_submit:
  "handleAuthSubmit wit_cd (wit_ls, wit_form) =
     Inr (wit_ls\<lparr>ls_items := [''procluster_user'' \<mapsto> ''T'']\<rparr>,
          wit_form\<lparr>hd_user := Some (mk_user ''a'' ''a@procluster.local'' ''''), hd_showLoginModal := False,
                   hd_loginName := [], hd_loginPassword := []\<rparr>)"
  by (simp add: handleAuthSubmit_def loginUser_def put_json_def setItem_def apply_auth_result_def
      user_fields_def mk_user_def wit_form_def wit_cd_def wit_ls_def wit_admin_json_def)

theorem any_login_is_admin_witness:
  "active_group wit_cd (wit_ls\<lparr>ls_items := [''procluster_user'' \<mapsto> ''T'']\<rparr>) None None = Some G_admin"
proof -
  have c: "json_parse wit_cd raw = Some v" if "json_stringify wit_cd v = Some raw" for v raw
    using that by (auto simp: wit_cd_def split: if_splits)
  have r: "storage_get wit_ls ''procluster_role'' = None"
    by (simp add: wit_ls_def storage_get_def getItem_def)
  show ?thesis
    using any_login_is_admin [OF wit_submit _ _ _ c r] by (simp add: wit_form_def)
qed

text \<open>
  Signing out undoes signing in: after a logout nobody is signed in, and the user read back from storage is
  null, whatever was stored before.
\<close>

theorem logout_clears_user:
  assumes "handleLogout (ls, h) = Inr (ls', h')"
  shows "hd_user h' = None \<and> getCurrentUser cd ls' = Inr None"
  using assms
  by (auto simp: handleLogout_def logoutUser_def removeItem_def getCurrentUser_def getItem_def truthy_str_def
           split: sum.splits if_splits)

theorem logout_clears_user_witness:
  "getCurrentUser wit_cd wit_ls = Inr None"
proof -
  have "handleLogout (wit_ls\<lparr>ls_items := [''procluster_user'' \<mapsto> ''T'']\<rparr>, wit_form) =
          Inr (wit_ls, wit_form\<lparr>hd_user := None, hd_dropdownOpen := False\<rparr>)"
    by (simp add: handleLogout_def logoutUser_def removeItem_def wit_ls_def)
  then show ?thesis using logout_clears_user by blast
qed

text \<open>
  A registration is never an administrator's: whatever the form holds, a successful submission of the
  register tab (with no other role in force) gives the free group, and mismatched passwords change nothing
  in the storage and report the error.
\<close>

theorem registration_is_free:
  assumes submit: "handleAuthSubmit cd (ls, h) = Inr (ls', h')"
    and tab: "hd_authTab h = RegisterTab"
    and codec: "\<And>v raw. json_stringify cd v = Some raw \<Longrightarrow> json_parse cd raw = Some v"
    and no_role: "storage_get ls ''procluster_role'' = None"
  shows "if hd_loginPassword h = hd_confirmPassword h
         then active_group cd ls' None None = Some G_free
         else ls' = ls \<and> hd_user h' = hd_user h \<and> hd_authError h' = ''Passwords don't match''"
proof (cases "hd_loginPassword h = hd_confirmPassword h")
  case False
  then show ?thesis using submit tab
    by (auto simp: handleAuthSubmit_def registerUser_def apply_auth_result_def str_or_def)
next
  case True
  let ?u = "mk_user (hd_loginName h) (hd_loginEmail h) ''''"
  let ?v = "JObj (user_fields ?u @ [(''tier'', JStr ''Free''), (''role'', JStr ''Free''),
                                     (''subscriptionLevel'', JStr ''Free'')])"
  have put: "put_json cd ''procluster_user'' ?v ls = Inr ls'"
    using submit tab True by (auto simp: handleAuthSubmit_def registerUser_def Let_def split: sum.splits)
  have "storage_getJson cd ls' ''procluster_user'' JNull = ?v"
    using put_json_get [OF put codec] .
  moreover have "storage_get ls' ''procluster_role'' = None"
    using put_json_other [OF put] no_role by simp
  ultimately have "active_group cd ls' None None = Some G_free"
    by (simp add: active_group_def truthy_str_def user_object_def truthy_opt_def user_group_def
        tier_lower_def str_prop_or_def prop_is_def user_fields_def lower_Free)
  with True show ?thesis by simp
qed

theorem registration_is_free_witness:
  "\<not> (hd_loginPassword (wit_form\<lparr>hd_authTab := RegisterTab\<rparr>) =
       hd_confirmPassword (wit_form\<lparr>hd_authTab := RegisterTab\<rparr>)) \<and>
   snd (wit_ls, wit_form\<lparr>hd_authTab := RegisterTab, hd_authError := ''Passwords don't match''\<rparr>) =
     wit_form\<lparr>hd_authTab := RegisterTab, hd_authError := ''Passwords don't match''\<rparr> \<and>
   hd_authError (wit_form\<lparr>hd_authTab := RegisterTab, hd_authError := ''Passwords don't match''\<rparr>) =
     ''Passwords don't match''"
proof -
  let ?h = "wit_form\<lparr>hd_authTab := RegisterTab\<rparr>"
  have c: "json_parse wit_cd raw = Some v" if "json_stringify wit_cd v = Some raw" for v raw
    using that by (auto simp: wit_cd_def split: if_splits)
  have r: "storage_get wit_ls ''procluster_role'' = None"
    by (simp add: wit_ls_def storage_get_def getItem_def)
  have s: "handleAuthSubmit wit_cd (wit_ls, ?h) =
             Inr (wit_ls, ?h\<lparr>hd_authError := ''Passwords don't match''\<rparr>)"
    by (simp add: handleAuthSubmit_def registerUser_def apply_auth_result_def str_or_def wit_form_def)
  show ?thesis
    using registration_is_free [OF s _ c r] by (simp add: wit_form_def)
qed

end
