(* ===== verification/CandleMap.thy ===== *)
theory CandleMap
  imports ChartTypes
begin

text \<open>
  From the backend's candles to the chart's (\<open>mapBackendCandle\<close> of \<open>lib/api.ts\<close> and of
  \<open>lib/wsClient.ts\<close>) and the REST request for them (\<open>getClusterCandles\<close> of \<open>lib/api.ts\<close>).

  The point of control is the price of the first cell of the largest volume; the value area is
  spanned by the cells of the largest volume that together reach 70 percent of the candle's volume.
  The same greedy scan over the cells sorted by volume is used by \<open>lib/marketData.ts\<close>, so its
  lemmas are stated for any attribute of any element type.
\<close>

section \<open>The scans shared by all aggregation code\<close>

text \<open>\<open>for (c of cells) if (c.volume > maxVol) { maxVol = c.volume; pocPrice = c.price; }\<close>\<close>

definition poc_scan :: "number \<Rightarrow> number \<Rightarrow> cell list \<Rightarrow> number \<times> number" where
  "poc_scan maxVol poc cs =
     foldl (\<lambda>(m, p) c. if cell_volume c > m then (cell_volume c, cell_price c) else (m, p)) (maxVol, poc) cs"

text \<open>
  \<open>for (c of sorted) { run += c.volume; prices.push(c.price); if (run >= target) break; }\<close>
\<close>

fun va_cells :: "number \<Rightarrow> number \<Rightarrow> cell list \<Rightarrow> cell list" where
  "va_cells target run [] = []"
| "va_cells target run (c # cs) =
     c # (if run + cell_volume c \<ge> target then [] else va_cells target (run + cell_volume c) cs)"

definition sortedByVol :: "cell list \<Rightarrow> cell list" where
  "sortedByVol cs = sort_desc cell_volume cs"

definition value_area :: "number \<Rightarrow> cell list \<Rightarrow> cell list" where
  "value_area target cs = va_cells target 0 (sortedByVol cs)"

text \<open>\<open>Math.min(...prices)\<close> and \<open>Math.max(...prices)\<close> of a non-empty array, else the default.\<close>

definition min_price :: "number \<Rightarrow> cell list \<Rightarrow> number" where
  "min_price d cs = (if cs = [] then d else Min (set (map cell_price cs)))"

definition max_price :: "number \<Rightarrow> cell list \<Rightarrow> number" where
  "max_price d cs = (if cs = [] then d else Max (set (map cell_price cs)))"

section \<open>Mapping a backend candle\<close>

record backend_candle =
  bc_time :: number
  bc_open :: number
  bc_high :: number
  bc_low :: number
  bc_close :: number
  bc_volume :: number
  bc_delta :: number
  bc_cells :: "cell list"

definition mapBackendCandle :: "backend_candle \<Rightarrow> candle" where
  "mapBackendCandle bc =
     (let pocPrice = snd (poc_scan 0 (bc_open bc) (bc_cells bc));
          va = value_area (bc_volume bc * (7 / 10)) (bc_cells bc)
      in \<lparr>c_timestamp = bc_time bc * 1000, c_open = bc_open bc, c_high = bc_high bc,
          c_low = bc_low bc, c_close = bc_close bc, c_volume = bc_volume bc, c_delta = bc_delta bc,
          c_pocPrice = pocPrice, c_cells = bc_cells bc,
          c_vah = max_price (bc_high bc) va, c_val = min_price (bc_low bc) va, c_tickCount = None\<rparr>)"

text \<open>
  The WebSocket client has its own copy. It tolerates cells without flags (\<open>c.isPoc ?? false\<close>), which are
  options of \<open>ws_cell\<close>. The volume is a number, as the interface declares and the backend sends it (without
  one the comparator of the sort would return \<open>NaN\<close>), so that \<open>c.volume ?? (c.bid + c.ask)\<close> is the volume.
\<close>

record ws_cell =
  wc_price :: number
  wc_bid :: number
  wc_ask :: number
  wc_volume :: number
  wc_isPoc :: "bool option"
  wc_isBuyImbalance :: "bool option"
  wc_isSellImbalance :: "bool option"

record ws_candle =
  ws_time :: number
  ws_open :: number
  ws_high :: number
  ws_low :: number
  ws_close :: number
  ws_volume :: number
  ws_delta :: number
  ws_cells :: "ws_cell list"

definition ws_cell_of :: "ws_cell \<Rightarrow> cell" where
  "ws_cell_of c =
     \<lparr>cell_price = wc_price c, cell_bid = wc_bid c, cell_ask = wc_ask c,
      cell_volume = wc_volume c,
      isPoc = (wc_isPoc c = Some True), isBuyImbalance = (wc_isBuyImbalance c = Some True),
      isSellImbalance = (wc_isSellImbalance c = Some True)\<rparr>"

definition ws_mapBackendCandle :: "ws_candle \<Rightarrow> candle" where
  "ws_mapBackendCandle bc =
     (let cs = map ws_cell_of (ws_cells bc);
          pocPrice = snd (poc_scan 0 (ws_open bc) cs);
          va = value_area (ws_volume bc * (7 / 10)) cs
      in \<lparr>c_timestamp = ws_time bc * 1000, c_open = ws_open bc, c_high = ws_high bc,
          c_low = ws_low bc, c_close = ws_close bc, c_volume = ws_volume bc, c_delta = ws_delta bc,
          c_pocPrice = pocPrice, c_cells = cs,
          c_vah = max_price (ws_high bc) va, c_val = min_price (ws_low bc) va, c_tickCount = None\<rparr>)"

section \<open>The REST request\<close>

datatype query_value = QStr string | QNum number

record candles_params =
  cpr_symbol :: string
  cpr_market :: string
  cpr_tf :: string
  cpr_compression :: number
  cpr_before :: "number option"
  cpr_limit :: "number option"

definition query_params :: "candles_params \<Rightarrow> (string \<times> query_value) list" where
  "query_params p =
     [(''symbol'', QStr (cpr_symbol p)), (''market'', QStr (cpr_market p)), (''tf'', QStr (cpr_tf p)),
      (''compression'', QNum (cpr_compression p))]
     @ (case cpr_before p of Some b \<Rightarrow> if b \<noteq> 0 then [(''before'', QNum b)] else [] | None \<Rightarrow> [])
     @ (case cpr_limit p of Some l \<Rightarrow> if l \<noteq> 0 then [(''limit'', QNum l)] else [] | None \<Rightarrow> [])"

text \<open>The server's answer: a failed status, or a body with its \<open>ok\<close> flag.\<close>

record api_body =
  ab_ok :: bool
  ab_error_message :: "string option"
  ab_candles :: "backend_candle list option"
  ab_history_limited :: "bool option"

datatype http_response = HttpError nat string | HttpOk api_body
datatype api_error = FailedToFetch nat string | ApiError string

record candles_response =
  cr_candles :: "candle list"
  cr_historyLimited :: bool

definition getClusterCandles :: "http_response \<Rightarrow> api_error + candles_response" where
  "getClusterCandles resp =
     (case resp of
        HttpError status statusText \<Rightarrow> Inl (FailedToFetch status statusText)
      | HttpOk body \<Rightarrow>
          if \<not> ab_ok body then Inl (ApiError (str_or (ab_error_message body) ''API error''))
          else Inr \<lparr>cr_candles = map mapBackendCandle (case ab_candles body of Some cs \<Rightarrow> cs | None \<Rightarrow> []),
                    cr_historyLimited = (ab_history_limited body = Some True)\<rparr>)"

section \<open>Lemmas on the point of control\<close>

lemma poc_scan_simps [simp]:
  "poc_scan m p [] = (m, p)"
  "poc_scan m p (c # cs) =
     (if cell_volume c > m then poc_scan (cell_volume c) (cell_price c) cs else poc_scan m p cs)"
  by (simp_all add: poc_scan_def)

lemma poc_scan_max: "fst (poc_scan m p cs) = scan_max cell_volume m cs"
  by (induction cs arbitrary: m p) auto

lemma poc_scan_none: "(\<And>c. c \<in> set cs \<Longrightarrow> cell_volume c \<le> m) \<Longrightarrow> poc_scan m p cs = (m, p)"
  by (induction cs arbitrary: m p) (auto simp: leD)

text \<open>The scan finds the first cell of the largest volume.\<close>

lemma poc_scan_first:
  assumes "\<exists>c \<in> set cs. cell_volume c > m"
  shows "\<exists>us c vs. cs = us @ c # vs \<and> poc_scan m p cs = (cell_volume c, cell_price c) \<and>
           cell_volume c > m \<and> (\<forall>d \<in> set us. cell_volume d < cell_volume c) \<and>
           (\<forall>d \<in> set vs. cell_volume d \<le> cell_volume c)"
  using assms
proof (induction cs arbitrary: m p)
  case (Cons a cs)
  show ?case
  proof (cases "\<exists>c \<in> set cs. cell_volume c > max m (cell_volume a)")
    case True
    let ?m = "max m (cell_volume a)" and ?p = "if cell_volume a > m then cell_price a else p"
    from Cons.IH [OF True, of ?p] obtain us c vs where
      u: "cs = us @ c # vs" "poc_scan ?m ?p cs = (cell_volume c, cell_price c)"
         "cell_volume c > ?m" "\<forall>d \<in> set us. cell_volume d < cell_volume c"
         "\<forall>d \<in> set vs. cell_volume d \<le> cell_volume c" by blast
    moreover have "poc_scan m p (a # cs) = poc_scan ?m ?p cs" by (auto simp: max_def)
    ultimately show ?thesis by (intro exI [of _ "a # us"] exI [of _ c] exI [of _ vs]) auto
  next
    case False
    with Cons.prems have a: "cell_volume a > m" by auto
    with False have "poc_scan m p (a # cs) = (cell_volume a, cell_price a)"
      by (subst poc_scan_simps, simp only: if_True) (rule poc_scan_none, auto simp: not_less)
    with a False show ?thesis by (intro exI [of _ "[]"] exI [of _ a] exI [of _ cs]) (auto simp: not_less)
  qed
qed simp

section \<open>Lemmas on the value area\<close>

lemma va_cells_prefix: "\<exists>zs. cs = va_cells t r cs @ zs"
  by (induction t r cs rule: va_cells.induct) auto

lemma va_cells_take: "va_cells t r cs = take (length (va_cells t r cs)) cs"
  by (metis va_cells_prefix append_eq_conv_conj)

lemma va_cells_subset: "set (va_cells t r cs) \<subseteq> set cs"
  by (metis va_cells_prefix set_append sup_ge1)

lemma va_cells_nonempty [simp]: "va_cells t r cs = [] \<longleftrightarrow> cs = []"
  by (cases cs) auto

text \<open>Enough volume: the scan stops only at the target or at the end.\<close>

lemma va_cells_reach:
  "t \<le> r + sum_list (map cell_volume cs) \<Longrightarrow> cs \<noteq> [] \<Longrightarrow>
     t \<le> r + sum_list (map cell_volume (va_cells t r cs))"
proof (induction t r cs rule: va_cells.induct)
  case (2 t r c cs)
  show ?case
  proof (cases "r + cell_volume c \<ge> t \<or> cs = []")
    case False
    with 2 show ?thesis by (auto simp: algebra_simps)
  qed (use 2 in auto)
qed simp

text \<open>Not more than needed: before its last cell the sum is below the target.\<close>

lemma va_cells_minimal:
  "n < length (va_cells t r cs) \<Longrightarrow> 0 < n \<Longrightarrow> r + sum_list (map cell_volume (take n cs)) < t"
proof (induction t r cs arbitrary: n rule: va_cells.induct)
  case (2 t r c cs)
  then obtain k where n: "n = Suc k" by (cases n) auto
  from 2(2,3) n have lt: "r + cell_volume c < t" by (auto split: if_splits simp: not_le)
  show ?case
  proof (cases k)
    case 0
    with lt n show ?thesis by simp
  next
    case (Suc j)
    with 2 lt n show ?thesis by (auto simp: algebra_simps not_le)
  qed
qed simp

text \<open>
  Among the lists of a given length taken from the cells, the first cells of the sorted array have
  the largest total.
\<close>

lemma top_sum_max:
  fixes f :: "'a \<Rightarrow> number"
  assumes "sorted_wrt (\<lambda>x y. f y \<le> f x) ys" "M \<subseteq># mset ys"
  shows "(\<Sum>x \<in># M. f x) \<le> sum_list (map f (take (size M) ys))"
  using assms
proof (induction ys arbitrary: M)
  case (Cons y ys)
  show ?case
  proof (cases "y \<in># M")
    case True
    then obtain N where M: "M = add_mset y N" by (metis insert_DiffM)
    with Cons.prems have "N \<subseteq># mset ys" by simp
    with Cons.IH [of N] Cons.prems M show ?thesis by simp
  next
    case False
    with Cons.prems have sub: "M \<subseteq># mset ys"
      by (metis add_mset_remove_trivial diff_single_trivial mset.simps(2) subset_eq_diff_conv
          subset_mset.add_diff_inverse union_mset_add_mset_right add.right_neutral add_mset_add_single)
    show ?thesis
    proof (cases "M = {#}")
      case False
      then obtain x N where M: "M = add_mset x N" by (metis multiset_cases)
      then have "x \<in> set ys" "N \<subseteq># mset ys"
        using sub by (auto dest: mset_subset_eq_insertD simp: subset_mset.less_imp_le)
      with Cons.IH [of N] Cons.prems M show ?thesis by fastforce
    qed simp
  qed
qed simp

lemma value_area_smallest:
  assumes "mset cs' \<subseteq># mset cs" "length cs' < length (value_area t cs)" "cs' \<noteq> []"
  shows "sum_list (map cell_volume cs') < t"
proof -
  have "sum_list (map cell_volume cs') = (\<Sum>x \<in># mset cs'. cell_volume x)"
    by (metis mset_map sum_mset_sum_list)
  also have "\<dots> \<le> sum_list (map cell_volume (take (size (mset cs')) (sortedByVol cs)))"
    by (rule top_sum_max) (use assms(1) in \<open>simp_all add: sortedByVol_def sorted_sort_desc\<close>)
  also have "\<dots> < t"
    using va_cells_minimal [of "length cs'" t 0 "sortedByVol cs"] assms(2,3)
    by (simp add: value_area_def)
  finally show ?thesis .
qed

lemma value_area_set: "set (value_area t cs) \<subseteq> set cs"
  using va_cells_subset [of t 0 "sortedByVol cs"] by (simp add: value_area_def sortedByVol_def)

lemma value_area_empty [simp]: "value_area t cs = [] \<longleftrightarrow> cs = []"
  by (simp add: value_area_def sortedByVol_def)

lemma value_area_reach:
  "t \<le> sum_list (map cell_volume cs) \<Longrightarrow> cs \<noteq> [] \<Longrightarrow> t \<le> sum_list (map cell_volume (value_area t cs))"
  using va_cells_reach [of t 0 "sortedByVol cs"] by (simp add: value_area_def sortedByVol_def)

text \<open>The value area starts with a cell of the largest volume, the first such cell of the array.\<close>

lemma hd_sort_desc:
  assumes "xs = us @ c # vs" "\<forall>d \<in> set us. f d < f c" "\<forall>d \<in> set vs. f d \<le> f c"
  shows "hd (sort_desc f xs) = c"
proof -
  let ?g = "\<lambda>x. - f x"
  let ?s = "sort_desc f xs"
  have ne: "?s \<noteq> []" using assms(1) by simp
  have in_s: "hd ?s \<in> set xs" using hd_in_set [OF ne] by simp
  have "f c \<le> f (hd ?s)"
  proof -
    from ne obtain a as where s: "?s = a # as" by (cases ?s) auto
    have "c \<in> set ?s" using assms(1) by simp
    with sorted_sort_desc [of f xs] s show ?thesis by auto
  qed
  with in_s assms have eq: "f (hd ?s) = f c" by fastforce
  have "filter (\<lambda>y. ?g y = - f c) ?s = filter (\<lambda>y. ?g y = - f c) xs"
    unfolding sort_desc_def using sort_key_stable [of ?g "- f c" xs] by simp
  also have "\<dots> = c # filter (\<lambda>y. ?g y = - f c) vs"
    using assms(1,2) by (auto simp: filter_empty_conv)
  finally have "hd (filter (\<lambda>y. ?g y = - f c) ?s) = c" by simp
  moreover have "hd (filter (\<lambda>y. ?g y = - f c) ?s) = hd ?s"
    using ne eq by (cases ?s) auto
  ultimately show ?thesis by simp
qed

lemma hd_va_cells: "cs \<noteq> [] \<Longrightarrow> hd (va_cells t r cs) = hd cs"
  by (cases cs) auto

lemma price_in_range:
  assumes "c \<in> set cs"
  shows "min_price d cs \<le> cell_price c \<and> cell_price c \<le> max_price e cs"
  using assms by (auto simp: min_price_def max_price_def intro!: Min_le Max_ge)

lemma min_le_max_price: "cs \<noteq> [] \<Longrightarrow> min_price d cs \<le> max_price e cs"
  using price_in_range [of "hd cs" cs d e] by (metis hd_in_set order_trans)

lemma poc_in_value_area:
  assumes "\<exists>c \<in> set cs. cell_volume c > 0"
  shows "\<exists>c \<in> set (value_area t cs). snd (poc_scan 0 p cs) = cell_price c \<and>
           (\<forall>d \<in> set cs. cell_volume d \<le> cell_volume c)"
proof -
  from poc_scan_first [OF assms, of p] obtain us c vs where
    c: "cs = us @ c # vs" "poc_scan 0 p cs = (cell_volume c, cell_price c)"
       "\<forall>d \<in> set us. cell_volume d < cell_volume c" "\<forall>d \<in> set vs. cell_volume d \<le> cell_volume c"
    by blast
  have ne: "sortedByVol cs \<noteq> []" using c(1) by (simp add: sortedByVol_def)
  have "hd (value_area t cs) = c"
    using hd_va_cells [OF ne] hd_sort_desc [OF c(1,3,4)] by (simp add: value_area_def sortedByVol_def)
  moreover have "value_area t cs \<noteq> []" using c(1) by simp
  ultimately have "c \<in> set (value_area t cs)" by (metis hd_in_set)
  with c show ?thesis by (intro bexI [of _ c]) auto
qed

section \<open>Properties\<close>

text \<open>The complete message of the live stream for a candle of the REST interface.\<close>

definition ws_of_cell :: "cell \<Rightarrow> ws_cell" where
  "ws_of_cell c =
     \<lparr>wc_price = cell_price c, wc_bid = cell_bid c, wc_ask = cell_ask c, wc_volume = cell_volume c,
      wc_isPoc = Some (isPoc c), wc_isBuyImbalance = Some (isBuyImbalance c),
      wc_isSellImbalance = Some (isSellImbalance c)\<rparr>"

definition ws_of_candle :: "backend_candle \<Rightarrow> ws_candle" where
  "ws_of_candle bc =
     \<lparr>ws_time = bc_time bc, ws_open = bc_open bc, ws_high = bc_high bc, ws_low = bc_low bc,
      ws_close = bc_close bc, ws_volume = bc_volume bc, ws_delta = bc_delta bc,
      ws_cells = map ws_of_cell (bc_cells bc)\<rparr>"

lemma ws_cell_of_inverse [simp]: "ws_cell_of (ws_of_cell c) = c"
  by (simp add: ws_cell_of_def ws_of_cell_def)


text \<open>
  In a candle with some traded volume the point of control is the price of a cell of the largest volume,
  it lies inside the value area, and the value area is not inverted.
\<close>

theorem poc_inside_value_area:
  assumes "\<exists>c \<in> set (bc_cells bc). cell_volume c > 0"
  shows "(\<exists>c \<in> set (bc_cells bc). c_pocPrice (mapBackendCandle bc) = cell_price c \<and>
            (\<forall>d \<in> set (bc_cells bc). cell_volume d \<le> cell_volume c)) \<and>
         c_val (mapBackendCandle bc) \<le> c_pocPrice (mapBackendCandle bc) \<and>
         c_pocPrice (mapBackendCandle bc) \<le> c_vah (mapBackendCandle bc)"
proof -
  let ?va = "value_area (bc_volume bc * (7 / 10)) (bc_cells bc)"
  from poc_in_value_area [OF assms] obtain c where
    c: "c \<in> set ?va" "snd (poc_scan 0 (bc_open bc) (bc_cells bc)) = cell_price c"
       "\<forall>d \<in> set (bc_cells bc). cell_volume d \<le> cell_volume c" by blast
  have "c \<in> set (bc_cells bc)" using c(1) value_area_set by blast
  with c price_in_range [OF c(1)] show ?thesis by (auto simp: mapBackendCandle_def Let_def)
qed


definition wit_cell :: "number \<Rightarrow> number \<Rightarrow> cell" where
  "wit_cell p v = \<lparr>cell_price = p, cell_bid = 0, cell_ask = v, cell_volume = v, isPoc = False,
     isBuyImbalance = False, isSellImbalance = False\<rparr>"

definition wit_bc :: backend_candle where
  "wit_bc = \<lparr>bc_time = 60, bc_open = 100, bc_high = 103, bc_low = 100, bc_close = 102, bc_volume = 10,
     bc_delta = 10, bc_cells = [wit_cell 100 1, wit_cell 101 5, wit_cell 102 3, wit_cell 103 1]\<rparr>"

theorem poc_inside_value_area_witness:
  "c_pocPrice (mapBackendCandle wit_bc) = 101 \<and>
   c_val (mapBackendCandle wit_bc) \<le> c_pocPrice (mapBackendCandle wit_bc) \<and>
   c_pocPrice (mapBackendCandle wit_bc) \<le> c_vah (mapBackendCandle wit_bc)"
proof -
  have h: "\<exists>c \<in> set (bc_cells wit_bc). cell_volume c > 0"
    by (simp add: wit_bc_def wit_cell_def)
  have "c_pocPrice (mapBackendCandle wit_bc) = 101"
    by (simp add: mapBackendCandle_def wit_bc_def wit_cell_def Let_def)
  with poc_inside_value_area [OF h] show ?thesis by simp
qed

lemma wit_value_area:
  "value_area 7 (bc_cells wit_bc) = [wit_cell 101 5, wit_cell 102 3]"
  by (simp add: value_area_def sortedByVol_def sort_desc_def wit_bc_def wit_cell_def)


text \<open>
  A REST load fails exactly when the status or the \<open>ok\<close> flag says so; when it succeeds there is one chart
  candle per backend candle, in order, with its time in milliseconds and its own cells.
\<close>

theorem rest_load_outcome:
  "case getClusterCandles resp of
     Inl e \<Rightarrow> (\<exists>s t. resp = HttpError s t \<and> e = FailedToFetch s t) \<or>
              (\<exists>b. resp = HttpOk b \<and> \<not> ab_ok b \<and> e = ApiError (str_or (ab_error_message b) ''API error''))
   | Inr r \<Rightarrow> \<exists>b. resp = HttpOk b \<and> ab_ok b \<and>
       map c_timestamp (cr_candles r) = map (\<lambda>x. bc_time x * 1000) (concat (case_option [] (\<lambda>l. [l]) (ab_candles b))) \<and>
       map c_cells (cr_candles r) = map bc_cells (concat (case_option [] (\<lambda>l. [l]) (ab_candles b)))"
  by (auto simp: getClusterCandles_def mapBackendCandle_def Let_def comp_def
           split: http_response.splits option.splits)

end
