(* ===== verification/WsClient.thy ===== *)
theory WsClient
  imports CandleMap
begin

text \<open>
  The live data client (\<open>frontend-chart/src/lib/wsClient.ts\<close>): one WebSocket per page, shared by
  the charts, with automatic reconnection and a table of subscriptions with their callbacks.

  The state holds the fields of the class, the sockets created so far with the browser's
  \<open>readyState\<close>, whether the client's handlers are still attached to each, what was sent on each,
  and a log of the callbacks invoked (\<open>effect\<close>). The operations of the class and its event handlers
  are functions on this state; \<open>ws_step\<close> interleaves them with the events of the browser, the
  network and the reconnect timer.
\<close>

section \<open>Subscriptions\<close>

record sub =
  sub_symbol :: string
  sub_market :: string
  sub_tf :: string
  sub_compression :: int

definition makeSubKey :: "sub \<Rightarrow> string" where
  "makeSubKey s = sub_symbol s @ '':'' @ sub_market s @ '':'' @ sub_tf s @ '':'' @ show_int (sub_compression s)"

text \<open>The callbacks of a subscription: which of them are given, and the identity of the subscriber.\<close>

record sub_callbacks =
  cb_owner :: nat
  cb_onUpdate :: bool
  cb_onClose :: bool
  cb_onOpen :: bool

record ws_config =
  cfg_url :: string
  cfg_id :: nat
  cfg_onConnect :: bool
  cfg_onDisconnect :: bool
  cfg_onError :: bool

datatype msg_type = T_update | T_close | T_open | T_ok | T_error

record ws_msg =
  m_type :: msg_type
  m_symbol :: "string option"
  m_market :: "string option"
  m_tf :: "string option"
  m_compression :: "int option"
  m_candle :: "ws_candle option"

section \<open>The state\<close>

datatype ready_state = CONNECTING | OPEN | CLOSING | CLOSED

datatype wire = Subscribe sub | Unsubscribe sub

record socket =
  so_ready :: ready_state
  so_attached :: bool
  so_sent :: "wire list"

datatype effect =
    OnConnect nat
  | OnDisconnect nat
  | OnError nat
  | OnUpdate nat candle
  | OnClose nat candle
  | OnOpen nat ws_msg

record ws_client =
  w_ws :: "nat option"
  w_config :: ws_config
  w_timer :: "number option"
  w_reconnectDelay :: number
  w_destroyed :: bool
  w_activeSubs :: "(string \<times> sub) list"
  w_subCallbacks :: "(string \<times> sub_callbacks) list"
  w_sockets :: "socket list"
  w_log :: "effect list"

definition maxReconnectDelay :: number where "maxReconnectDelay = 10000"

definition ws_new :: "ws_config \<Rightarrow> ws_client" where
  "ws_new config =
     \<lparr>w_ws = None, w_config = config, w_timer = None, w_reconnectDelay = 1000, w_destroyed = False,
      w_activeSubs = [], w_subCallbacks = [], w_sockets = [], w_log = []\<rparr>"

definition updateConfig :: "ws_config \<Rightarrow> ws_client \<Rightarrow> ws_client" where
  "updateConfig config c = c\<lparr>w_config := config\<rparr>"

definition upd_socket :: "nat \<Rightarrow> (socket \<Rightarrow> socket) \<Rightarrow> ws_client \<Rightarrow> ws_client" where
  "upd_socket i f c = c\<lparr>w_sockets := (w_sockets c)[i := f (w_sockets c ! i)]\<rparr>"

definition ready_of :: "ws_client \<Rightarrow> ready_state option" where
  "ready_of c = (case w_ws c of None \<Rightarrow> None | Some i \<Rightarrow> Some (so_ready (w_sockets c ! i)))"

definition isConnected :: "ws_client \<Rightarrow> bool" where
  "isConnected c \<longleftrightarrow> ready_of c = Some OPEN"

definition emit :: "bool \<Rightarrow> effect \<Rightarrow> ws_client \<Rightarrow> ws_client" where
  "emit present e c = (if present then c\<lparr>w_log := w_log c @ [e]\<rparr> else c)"

text \<open>\<open>ws.close()\<close>: a socket that is not closed yet starts closing.\<close>

definition socket_close :: "socket \<Rightarrow> socket" where
  "socket_close s = (if so_ready s = CLOSED then s else s\<lparr>so_ready := CLOSING\<rparr>)"

definition detach :: "socket \<Rightarrow> socket" where
  "detach s = s\<lparr>so_attached := False\<rparr>"

section \<open>Operations\<close>

definition connect :: "ws_client \<Rightarrow> ws_client" where
  "connect c =
     (if w_destroyed c then c
      else if ready_of c = Some OPEN \<or> ready_of c = Some CONNECTING then c
      else let c1 = (case w_ws c of
                       None \<Rightarrow> c
                     | Some i \<Rightarrow> (upd_socket i (\<lambda>s. socket_close (detach s)) c)\<lparr>w_ws := None\<rparr>)
           in c1\<lparr>w_sockets := w_sockets c1 @ [\<lparr>so_ready = CONNECTING, so_attached = True, so_sent = []\<rparr>],
                 w_ws := Some (length (w_sockets c1))\<rparr>)"

definition send_wire :: "wire \<Rightarrow> ws_client \<Rightarrow> ws_client" where
  "send_wire m c =
     (if isConnected c
      then upd_socket (the (w_ws c)) (\<lambda>s. s\<lparr>so_sent := so_sent s @ [m]\<rparr>) c
      else c)"

definition sendSubscribe :: "sub \<Rightarrow> ws_client \<Rightarrow> ws_client" where
  "sendSubscribe s c = send_wire (Subscribe s) c"

definition subscribe :: "sub \<Rightarrow> sub_callbacks \<Rightarrow> ws_client \<Rightarrow> ws_client" where
  "subscribe s callbacks c =
     (let key = makeSubKey s;
          c1 = c\<lparr>w_activeSubs := AList.update key s (w_activeSubs c),
                 w_subCallbacks := AList.update key callbacks (w_subCallbacks c)\<rparr>
      in sendSubscribe s c1)"

definition unsubscribe :: "sub \<Rightarrow> ws_client \<Rightarrow> ws_client" where
  "unsubscribe s c =
     (let key = makeSubKey s;
          c1 = c\<lparr>w_activeSubs := AList.delete key (w_activeSubs c),
                 w_subCallbacks := AList.delete key (w_subCallbacks c)\<rparr>
      in send_wire (Unsubscribe s) c1)"

definition scheduleReconnect :: "ws_client \<Rightarrow> ws_client" where
  "scheduleReconnect c = (if w_destroyed c then c else c\<lparr>w_timer := Some (w_reconnectDelay c)\<rparr>)"

text \<open>The callback of the reconnect timer; \<open>w_timer\<close> is the timer that is still pending.\<close>

definition timer_fired :: "ws_client \<Rightarrow> ws_client" where
  "timer_fired c0 =
     (let c = c0\<lparr>w_timer := None\<rparr> in
      if w_destroyed c then c
      else let c1 = connect c
           in c1\<lparr>w_reconnectDelay := min (w_reconnectDelay c1 * 2) maxReconnectDelay\<rparr>)"

definition destroy :: "ws_client \<Rightarrow> ws_client" where
  "destroy c =
     (let c1 = c\<lparr>w_destroyed := True, w_timer := None\<rparr> in
      case w_ws c1 of
        None \<Rightarrow> c1
      | Some i \<Rightarrow> (upd_socket i (\<lambda>s. socket_close (detach s)) c1)\<lparr>w_ws := None\<rparr>)"

section \<open>Event handlers\<close>

definition handle_open :: "nat \<Rightarrow> ws_client \<Rightarrow> ws_client" where
  "handle_open i c =
     (if w_destroyed c then upd_socket i socket_close c
      else let c1 = emit (cfg_onConnect (w_config c)) (OnConnect (cfg_id (w_config c)))
                      (c\<lparr>w_reconnectDelay := 1000\<rparr>)
           in fold sendSubscribe (map snd (w_activeSubs c1)) c1)"

definition msg_key :: "ws_msg \<Rightarrow> string option" where
  "msg_key m =
     (if truthy_str (m_symbol m) \<and> truthy_str (m_market m) \<and> truthy_str (m_tf m) \<and>
         m_compression m \<noteq> None \<and> m_compression m \<noteq> Some 0
      then Some (makeSubKey \<lparr>sub_symbol = the (m_symbol m), sub_market = the (m_market m),
                             sub_tf = the (m_tf m), sub_compression = the (m_compression m)\<rparr>)
      else None)"

definition handleMessage :: "ws_msg \<Rightarrow> ws_client \<Rightarrow> ws_client" where
  "handleMessage m c =
     (case m_type m of
        T_open \<Rightarrow> fold (\<lambda>cb. emit (cb_onOpen cb) (OnOpen (cb_owner cb) m)) (map snd (w_subCallbacks c)) c
      | T_ok \<Rightarrow> c
      | T_error \<Rightarrow> c
      | t \<Rightarrow>
          (case m_candle m of
             None \<Rightarrow> c
           | Some bc \<Rightarrow>
               let candle = ws_mapBackendCandle bc;
                   cb = (case msg_key m of None \<Rightarrow> None | Some k \<Rightarrow> map_of (w_subCallbacks c) k)
               in case cb of
                    None \<Rightarrow> c
                  | Some f \<Rightarrow>
                      if t = T_update then emit (cb_onUpdate f) (OnUpdate (cb_owner f) candle) c
                      else emit (cb_onClose f) (OnClose (cb_owner f) candle) c))"

text \<open>A frame that is not JSON (\<open>None\<close>) is logged and dropped.\<close>

definition handle_message :: "ws_msg option \<Rightarrow> ws_client \<Rightarrow> ws_client" where
  "handle_message frame c =
     (if w_destroyed c then c else case frame of None \<Rightarrow> c | Some m \<Rightarrow> handleMessage m c)"

definition handle_error :: "ws_client \<Rightarrow> ws_client" where
  "handle_error c =
     (if w_destroyed c then c else emit (cfg_onError (w_config c)) (OnError (cfg_id (w_config c))) c)"

definition handle_close :: "ws_client \<Rightarrow> ws_client" where
  "handle_close c =
     (if w_destroyed c then c
      else scheduleReconnect
             (emit (cfg_onDisconnect (w_config c)) (OnDisconnect (cfg_id (w_config c)))
               (c\<lparr>w_ws := None\<rparr>)))"

section \<open>The page: clients by url\<close>

type_synonym registry = "(string \<times> ws_client) list"

definition getOrCreateWsClient :: "string \<Rightarrow> ws_config \<Rightarrow> registry \<Rightarrow> registry" where
  "getOrCreateWsClient url config reg =
     (let client = (case map_of reg url of Some c \<Rightarrow> c | None \<Rightarrow> ws_new config)
      in AList.update url (updateConfig config client) reg)"

text \<open>The destroyed client object itself lives on in the closures that hold it: it is returned.\<close>

definition destroyWsClient :: "string \<Rightarrow> registry \<Rightarrow> ws_client option \<times> registry" where
  "destroyWsClient url reg =
     (case map_of reg url of
        None \<Rightarrow> (None, reg)
      | Some c \<Rightarrow> (Some (destroy c), AList.delete url reg))"

section \<open>Steps\<close>

text \<open>
  One rule per thing that can happen: a call of the page, the reconnect timer, and for a socket \<open>i\<close>
  the browser's events. A handler runs only if it is still attached.
\<close>

definition with_handler :: "nat \<Rightarrow> (ws_client \<Rightarrow> ws_client) \<Rightarrow> ws_client \<Rightarrow> ws_client" where
  "with_handler i h c = (if so_attached (w_sockets c ! i) then h c else c)"

inductive ws_step :: "ws_client \<Rightarrow> ws_client \<Rightarrow> bool" where
  call_connect: "ws_step c (connect c)"
| call_subscribe: "ws_step c (subscribe s cbs c)"
| call_unsubscribe: "ws_step c (unsubscribe s c)"
| call_updateConfig: "ws_step c (updateConfig cfg c)"
| call_destroy: "ws_step c (destroy c)"
| timer: "w_timer c \<noteq> None \<Longrightarrow> ws_step c (timer_fired c)"
| opened: "i < length (w_sockets c) \<Longrightarrow> so_ready (w_sockets c ! i) = CONNECTING \<Longrightarrow>
     ws_step c (with_handler i (handle_open i) (upd_socket i (\<lambda>s. s\<lparr>so_ready := OPEN\<rparr>) c))"
| message: "i < length (w_sockets c) \<Longrightarrow> so_ready (w_sockets c ! i) = OPEN \<Longrightarrow>
     ws_step c (with_handler i (handle_message frame) c)"
| errored: "i < length (w_sockets c) \<Longrightarrow> so_ready (w_sockets c ! i) \<noteq> CLOSED \<Longrightarrow>
     ws_step c (with_handler i handle_error c)"
| closing: "i < length (w_sockets c) \<Longrightarrow> so_ready (w_sockets c ! i) = OPEN \<Longrightarrow>
     ws_step c (upd_socket i (\<lambda>s. s\<lparr>so_ready := CLOSING\<rparr>) c)"
| closed: "i < length (w_sockets c) \<Longrightarrow> so_ready (w_sockets c ! i) \<noteq> CLOSED \<Longrightarrow>
     ws_step c (with_handler i handle_close (upd_socket i (\<lambda>s. s\<lparr>so_ready := CLOSED\<rparr>) c))"

inductive ws_reachable :: "ws_client \<Rightarrow> bool" where
  start: "ws_reachable (ws_new cfg)"
| step: "ws_reachable c \<Longrightarrow> ws_step c c' \<Longrightarrow> ws_reachable c'"

inductive_cases ws_stepE: "ws_step c c'"

section \<open>What the server sees\<close>

text \<open>The subscriptions of a connection as the server tracks them from the messages it received.\<close>

fun server_apply :: "wire \<Rightarrow> (string \<times> sub) list \<Rightarrow> (string \<times> sub) list" where
  "server_apply (Subscribe s) v = AList.update (makeSubKey s) s v"
| "server_apply (Unsubscribe s) v = AList.delete (makeSubKey s) v"

definition server_view :: "wire list \<Rightarrow> (string \<times> sub) list" where
  "server_view ms = fold server_apply ms []"

lemma server_view_snoc [simp]: "server_view (ms @ [m]) = server_apply m (server_view ms)"
  by (simp add: server_view_def)

lemma update_fresh: "k \<notin> fst ` set al \<Longrightarrow> AList.update k v al = al @ [(k, v)]"
  by (induction al) auto

lemma server_view_resubscribe:
  assumes "distinct (map fst al)" "\<forall>(k, s) \<in> set al. k = makeSubKey s"
  shows "server_view (map (\<lambda>p. Subscribe (snd p)) al) = al"
  using assms
proof (induction al rule: rev_induct)
  case (snoc x xs)
  obtain k s where x: "x = (k, s)" by force
  with snoc show ?case by (auto simp: update_fresh)
qed (simp add: server_view_def)

section \<open>Lemmas on the operations\<close>

lemma upd_socket_simps [simp]:
  "w_ws (upd_socket i f c) = w_ws c" "w_config (upd_socket i f c) = w_config c"
  "w_timer (upd_socket i f c) = w_timer c" "w_reconnectDelay (upd_socket i f c) = w_reconnectDelay c"
  "w_destroyed (upd_socket i f c) = w_destroyed c" "w_activeSubs (upd_socket i f c) = w_activeSubs c"
  "w_subCallbacks (upd_socket i f c) = w_subCallbacks c" "w_log (upd_socket i f c) = w_log c"
  "length (w_sockets (upd_socket i f c)) = length (w_sockets c)"
  "w_sockets (upd_socket i f c) = (w_sockets c)[i := f (w_sockets c ! i)]"
  by (simp_all add: upd_socket_def)

lemma emit_simps [simp]:
  "w_ws (emit b e c) = w_ws c" "w_config (emit b e c) = w_config c" "w_timer (emit b e c) = w_timer c"
  "w_reconnectDelay (emit b e c) = w_reconnectDelay c" "w_destroyed (emit b e c) = w_destroyed c"
  "w_activeSubs (emit b e c) = w_activeSubs c" "w_subCallbacks (emit b e c) = w_subCallbacks c"
  "w_sockets (emit b e c) = w_sockets c"
  "w_log (emit b e c) = w_log c @ (if b then [e] else [])"
  by (simp_all add: emit_def)

lemma socket_simps [simp]:
  "so_attached (detach s) = False" "so_ready (detach s) = so_ready s" "so_sent (detach s) = so_sent s"
  "so_attached (socket_close s) = so_attached s" "so_sent (socket_close s) = so_sent s"
  by (simp_all add: detach_def socket_close_def)

lemma ready_of_Some: "ready_of c = Some r \<longleftrightarrow> (\<exists>i. w_ws c = Some i \<and> so_ready (w_sockets c ! i) = r)"
  by (auto simp: ready_of_def split: option.splits)

lemma isConnected_iff: "isConnected c \<longleftrightarrow> (\<exists>i. w_ws c = Some i \<and> so_ready (w_sockets c ! i) = OPEN)"
  by (auto simp: isConnected_def ready_of_Some)

lemma fold_emit_fields [simp]:
  "w_ws (fold (\<lambda>x. emit (p x) (e x)) xs c) = w_ws c"
  "w_sockets (fold (\<lambda>x. emit (p x) (e x)) xs c) = w_sockets c"
  "w_timer (fold (\<lambda>x. emit (p x) (e x)) xs c) = w_timer c"
  "w_reconnectDelay (fold (\<lambda>x. emit (p x) (e x)) xs c) = w_reconnectDelay c"
  "w_destroyed (fold (\<lambda>x. emit (p x) (e x)) xs c) = w_destroyed c"
  "w_activeSubs (fold (\<lambda>x. emit (p x) (e x)) xs c) = w_activeSubs c"
  "w_subCallbacks (fold (\<lambda>x. emit (p x) (e x)) xs c) = w_subCallbacks c"
  by (induction xs arbitrary: c) auto

lemma fold_sendSubscribe:
  assumes "w_ws c = Some i" "i < length (w_sockets c)" "so_ready (w_sockets c ! i) = OPEN"
  shows "fold sendSubscribe ss c = upd_socket i (\<lambda>s. s\<lparr>so_sent := so_sent s @ map Subscribe ss\<rparr>) c"
  using assms
proof (induction ss arbitrary: c)
  case Nil
  then show ?case by (simp add: upd_socket_def)
next
  case (Cons s ss)
  have send: "sendSubscribe s c = upd_socket i (\<lambda>t. t\<lparr>so_sent := so_sent t @ [Subscribe s]\<rparr>) c"
    using Cons.prems by (simp add: sendSubscribe_def send_wire_def isConnected_iff)
  then show ?case using Cons.prems by (simp add: Cons.IH)
qed

section \<open>The invariant\<close>

text \<open>A socket whose events still reach the client.\<close>

definition live :: "socket \<Rightarrow> bool" where
  "live s \<longleftrightarrow> so_attached s \<and> so_ready s \<noteq> CLOSED"

definition sockets_inv :: "ws_client \<Rightarrow> bool" where
  "sockets_inv c =
     (case w_ws c of
        None \<Rightarrow> \<forall>j < length (w_sockets c). \<not> live (w_sockets c ! j)
      | Some i \<Rightarrow> i < length (w_sockets c) \<and> live (w_sockets c ! i) \<and>
                  (\<forall>j < length (w_sockets c). j \<noteq> i \<longrightarrow> \<not> live (w_sockets c ! j)))"

definition delay_inv :: "ws_client \<Rightarrow> bool" where
  "delay_inv c \<longleftrightarrow> 1000 \<le> w_reconnectDelay c \<and> w_reconnectDelay c \<le> maxReconnectDelay \<and>
     (case w_timer c of None \<Rightarrow> True | Some d \<Rightarrow> 1000 \<le> d \<and> d \<le> maxReconnectDelay)"

definition destroyed_inv :: "ws_client \<Rightarrow> bool" where
  "destroyed_inv c \<longleftrightarrow> (w_destroyed c \<longrightarrow> w_ws c = None \<and> w_timer c = None)"

definition subs_inv :: "ws_client \<Rightarrow> bool" where
  "subs_inv c \<longleftrightarrow> distinct (map fst (w_activeSubs c)) \<and>
     (\<forall>(k, s) \<in> set (w_activeSubs c). k = makeSubKey s) \<and>
     map fst (w_subCallbacks c) = map fst (w_activeSubs c)"

definition view_inv :: "ws_client \<Rightarrow> bool" where
  "view_inv c =
     (case w_ws c of
        None \<Rightarrow> True
      | Some i \<Rightarrow>
          (case so_ready (w_sockets c ! i) of
             OPEN \<Rightarrow> server_view (so_sent (w_sockets c ! i)) = w_activeSubs c
           | CONNECTING \<Rightarrow> so_sent (w_sockets c ! i) = []
           | _ \<Rightarrow> True))"

definition alive_inv :: "ws_client \<Rightarrow> bool" where
  "alive_inv c \<longleftrightarrow> (\<not> w_destroyed c \<and> w_sockets c \<noteq> [] \<longrightarrow> w_ws c \<noteq> None \<or> w_timer c \<noteq> None)"

definition ws_inv :: "ws_client \<Rightarrow> bool" where
  "ws_inv c \<longleftrightarrow> sockets_inv c \<and> delay_inv c \<and> destroyed_inv c \<and> subs_inv c \<and> view_inv c \<and> alive_inv c"

lemmas ws_inv_defs =
  ws_inv_def sockets_inv_def delay_inv_def destroyed_inv_def subs_inv_def view_inv_def alive_inv_def

lemma live_simps [simp]:
  "\<not> live (detach s)" "\<not> live (socket_close (detach s))"
  "live \<lparr>so_ready = CONNECTING, so_attached = True, so_sent = ms\<rparr>"
  "live (s\<lparr>so_sent := ms\<rparr>) = live s"
  "\<not> live (s\<lparr>so_ready := CLOSED\<rparr>)"
  by (auto simp: live_def)

text \<open>The invariant does not depend on the log or the configuration.\<close>

lemma ws_inv_frame:
  "ws_inv c \<Longrightarrow> w_ws c' = w_ws c \<Longrightarrow> w_timer c' = w_timer c \<Longrightarrow>
   w_reconnectDelay c' = w_reconnectDelay c \<Longrightarrow> w_destroyed c' = w_destroyed c \<Longrightarrow>
   w_activeSubs c' = w_activeSubs c \<Longrightarrow> w_subCallbacks c' = w_subCallbacks c \<Longrightarrow>
   w_sockets c' = w_sockets c \<Longrightarrow> ws_inv c'"
  by (cases "w_ws c") (simp_all add: ws_inv_defs cong: ready_state.case_cong)

lemma ws_inv_new: "ws_inv (ws_new cfg)"
  by (simp add: ws_inv_defs ws_new_def maxReconnectDelay_def)

lemma ws_inv_updateConfig: "ws_inv c \<Longrightarrow> ws_inv (updateConfig cfg c)"
  by (erule ws_inv_frame) (simp_all add: updateConfig_def)

lemma ws_inv_connect: "ws_inv c \<Longrightarrow> ws_inv (connect c)"
  by (cases "w_ws c")
     (auto simp: ws_inv_defs connect_def Let_def ready_of_def nth_append nth_list_update server_view_def
           split: if_splits)

lemma connect_delay [simp]:
  "w_reconnectDelay (connect c) = w_reconnectDelay c" "w_timer (connect c) = w_timer c"
  "w_destroyed (connect c) = w_destroyed c" "w_activeSubs (connect c) = w_activeSubs c"
  "w_subCallbacks (connect c) = w_subCallbacks c" "w_log (connect c) = w_log c"
  "w_config (connect c) = w_config c"
  by (auto simp: connect_def Let_def split: option.splits)

lemma connect_ws: "\<not> w_destroyed c \<Longrightarrow> w_ws (connect c) \<noteq> None"
  by (auto simp: connect_def Let_def ready_of_Some split: option.splits)

lemma ws_inv_timer:
  assumes inv: "ws_inv c"
  shows "ws_inv (timer_fired c)"
proof (cases "w_destroyed c")
  case True
  then have "timer_fired c = c\<lparr>w_timer := None\<rparr>" by (simp add: timer_fired_def Let_def)
  with inv True show ?thesis by (cases "w_ws c") (auto simp: ws_inv_defs)
next
  case False
  let ?c0 = "c\<lparr>w_timer := Some 1000\<rparr>"
  have "ws_inv ?c0"
    using inv False
    by (cases "w_ws c") (simp_all add: ws_inv_defs maxReconnectDelay_def cong: ready_state.case_cong)
  then have i1: "ws_inv (connect ?c0)" by (rule ws_inv_connect)
  have eq: "connect (c\<lparr>w_timer := None\<rparr>) = (connect ?c0)\<lparr>w_timer := None\<rparr>"
    by (auto simp: connect_def Let_def ready_of_def upd_socket_def split: option.splits)
  have ws: "w_ws (connect ?c0) \<noteq> None" using False by (intro connect_ws) simp
  let ?d = "min (w_reconnectDelay (connect ?c0) * 2) maxReconnectDelay"
  have t: "timer_fired c = (connect ?c0)\<lparr>w_timer := None, w_reconnectDelay := ?d\<rparr>"
    using False by (simp add: timer_fired_def Let_def eq)
  have "1000 \<le> ?d" "?d \<le> maxReconnectDelay"
    using i1 by (auto simp: ws_inv_def delay_inv_def maxReconnectDelay_def)
  with i1 ws show ?thesis unfolding t
    by (cases "w_ws (connect ?c0)") (auto simp: ws_inv_defs cong: ready_state.case_cong)
qed

lemma ws_inv_destroy: "ws_inv c \<Longrightarrow> ws_inv (destroy c)"
  by (cases "w_ws c")
     (auto simp: ws_inv_defs destroy_def Let_def nth_list_update split: if_splits)

lemma subs_update:
  assumes "subs_inv c"
  shows "distinct (map fst (AList.update (makeSubKey s) s (w_activeSubs c)))"
    and "\<forall>(k, t) \<in> set (AList.update (makeSubKey s) s (w_activeSubs c)). k = makeSubKey t"
    and "map fst (AList.update (makeSubKey s) cb (w_subCallbacks c)) =
         map fst (AList.update (makeSubKey s) s (w_activeSubs c))"
proof -
  show "distinct (map fst (AList.update (makeSubKey s) s (w_activeSubs c)))"
    using assms by (simp add: subs_inv_def distinct_update)
  have "set (AList.update k t al) \<subseteq> insert (k, t) (set al)" for k t and al :: "(string \<times> sub) list"
    by (induction al) auto
  then show "\<forall>(k, t) \<in> set (AList.update (makeSubKey s) s (w_activeSubs c)). k = makeSubKey t"
    using assms unfolding subs_inv_def by blast
  have "map fst al = map fst bl \<Longrightarrow> map fst (AList.update k x al) = map fst (AList.update k y bl)"
    for k x y and al :: "(string \<times> sub_callbacks) list" and bl :: "(string \<times> sub) list"
    by (simp add: update_keys)
  then show "map fst (AList.update (makeSubKey s) cb (w_subCallbacks c)) =
             map fst (AList.update (makeSubKey s) s (w_activeSubs c))"
    using assms by (simp add: subs_inv_def)
qed

lemma subs_delete:
  assumes "subs_inv c"
  shows "distinct (map fst (AList.delete k (w_activeSubs c)))"
    and "\<forall>(k, t) \<in> set (AList.delete k (w_activeSubs c)). k = makeSubKey t"
    and "map fst (AList.delete k (w_subCallbacks c)) = map fst (AList.delete k (w_activeSubs c))"
proof -
  show "distinct (map fst (AList.delete k (w_activeSubs c)))"
    using assms by (simp add: subs_inv_def distinct_delete)
  show "\<forall>(k, t) \<in> set (AList.delete k (w_activeSubs c)). k = makeSubKey t"
    using assms unfolding subs_inv_def by (auto simp: AList.delete_eq)
  show "map fst (AList.delete k (w_subCallbacks c)) = map fst (AList.delete k (w_activeSubs c))"
    using assms by (simp add: subs_inv_def delete_keys)
qed

text \<open>A change of the tables followed by the message that reports it to the server.\<close>

lemma ws_inv_send:
  assumes inv: "ws_inv c" and subs: "subs_inv c1"
    and act: "w_activeSubs c1 = server_apply m (w_activeSubs c)"
    and same: "w_ws c1 = w_ws c" "w_timer c1 = w_timer c" "w_reconnectDelay c1 = w_reconnectDelay c"
      "w_destroyed c1 = w_destroyed c" "w_sockets c1 = w_sockets c"
  shows "ws_inv (send_wire m c1)"
proof (cases "w_ws c")
  case None
  then show ?thesis
    using inv subs same by (auto simp: ws_inv_defs send_wire_def isConnected_iff)
next
  case (Some i)
  have i: "i < length (w_sockets c)" using inv Some by (simp add: ws_inv_defs)
  show ?thesis
  proof (cases "so_ready (w_sockets c ! i) = OPEN")
    case True
    then have send: "send_wire m c1 = upd_socket i (\<lambda>s. s\<lparr>so_sent := so_sent s @ [m]\<rparr>) c1"
      using Some same by (simp add: send_wire_def isConnected_iff)
    show ?thesis
      using inv subs act same Some i True unfolding send
      by (auto simp: ws_inv_defs nth_list_update)
  next
    case False
    then have "send_wire m c1 = c1" using Some same by (simp add: send_wire_def isConnected_iff)
    then show ?thesis
      using inv subs same Some False by (auto simp: ws_inv_defs split: ready_state.splits)
  qed
qed

lemma ws_inv_subscribe: "ws_inv c \<Longrightarrow> ws_inv (subscribe s cb c)"
  unfolding subscribe_def Let_def sendSubscribe_def
  by (rule ws_inv_send [of c])
     (simp_all add: ws_inv_def subs_inv_def subs_update(1,3) [unfolded subs_inv_def],
      use subs_update(2) [of c s] in \<open>simp add: subs_inv_def\<close>)

lemma ws_inv_unsubscribe: "ws_inv c \<Longrightarrow> ws_inv (unsubscribe s c)"
  unfolding unsubscribe_def Let_def
  by (rule ws_inv_send [of c])
     (simp_all add: ws_inv_def subs_inv_def subs_delete(1,3) [unfolded subs_inv_def],
      use subs_delete(2) [of c "makeSubKey s"] in \<open>simp add: subs_inv_def\<close>)

text \<open>Browser events. An attached handler of a socket that is not closed belongs to the current one.\<close>

lemma current_socket:
  "ws_inv c \<Longrightarrow> i < length (w_sockets c) \<Longrightarrow> live (w_sockets c ! i) \<Longrightarrow> w_ws c = Some i"
  by (cases "w_ws c") (auto simp: ws_inv_def sockets_inv_def)

lemma current_not_destroyed: "ws_inv c \<Longrightarrow> w_ws c = Some i \<Longrightarrow> \<not> w_destroyed c"
  by (auto simp: ws_inv_def destroyed_inv_def)

text \<open>An event of a socket that is not the current one changes nothing the invariant speaks of.\<close>

lemma ws_inv_dead_socket:
  assumes "ws_inv c" "i < length (w_sockets c)" "\<not> so_attached (w_sockets c ! i)"
  shows "ws_inv (upd_socket i (\<lambda>s. s\<lparr>so_ready := r\<rparr>) c)"
  using assms
  by (cases "w_ws c")
     (auto simp: ws_inv_defs live_def nth_list_update cong: ready_state.case_cong)

lemma ws_inv_opened:
  assumes inv: "ws_inv c" and i: "i < length (w_sockets c)" "so_ready (w_sockets c ! i) = CONNECTING"
  shows "ws_inv (with_handler i (handle_open i) (upd_socket i (\<lambda>s. s\<lparr>so_ready := OPEN\<rparr>) c))"
proof (cases "so_attached (w_sockets c ! i)")
  case False
  then show ?thesis using ws_inv_dead_socket [OF inv i(1), of OPEN] i by (simp add: with_handler_def)
next
  case True
  then have ws: "w_ws c = Some i" using current_socket [OF inv i(1)] i(2) by (simp add: live_def)
  then have nd: "\<not> w_destroyed c" by (rule current_not_destroyed [OF inv])
  let ?c1 = "upd_socket i (\<lambda>s. s\<lparr>so_ready := OPEN\<rparr>) c"
  let ?c2 = "emit (cfg_onConnect (w_config c)) (OnConnect (cfg_id (w_config c))) (?c1\<lparr>w_reconnectDelay := 1000\<rparr>)"
  have "with_handler i (handle_open i) ?c1 = fold sendSubscribe (map snd (w_activeSubs c)) ?c2"
    using True nd i by (simp add: with_handler_def handle_open_def Let_def)
  also have "\<dots> = upd_socket i (\<lambda>s. s\<lparr>so_sent := so_sent s @ map Subscribe (map snd (w_activeSubs c))\<rparr>) ?c2"
    by (rule fold_sendSubscribe) (use ws i in simp_all)
  finally have eq: "with_handler i (handle_open i) ?c1 =
      upd_socket i (\<lambda>s. s\<lparr>so_sent := so_sent s @ map Subscribe (map snd (w_activeSubs c))\<rparr>) ?c2" .
  have view: "server_view (map (Subscribe \<circ> snd) (w_activeSubs c)) = w_activeSubs c"
    using server_view_resubscribe [of "w_activeSubs c"] inv
    by (simp add: ws_inv_def subs_inv_def comp_def)
  have "so_sent (w_sockets c ! i) = []" using inv ws i(2) by (simp add: ws_inv_def view_inv_def)
  with inv ws i True view show ?thesis
    unfolding eq by (auto simp: ws_inv_defs live_def maxReconnectDelay_def nth_list_update)
qed

lemma ws_inv_message: "ws_inv c \<Longrightarrow> ws_inv (with_handler i (handle_message f) c)"
  by (auto simp: with_handler_def handle_message_def handleMessage_def Let_def
           split: option.splits msg_type.splits elim!: ws_inv_frame)

lemma ws_inv_errored: "ws_inv c \<Longrightarrow> ws_inv (with_handler i handle_error c)"
  by (auto simp: with_handler_def handle_error_def elim!: ws_inv_frame)

lemma ws_inv_closing:
  assumes "ws_inv c" "i < length (w_sockets c)" "so_ready (w_sockets c ! i) = OPEN"
  shows "ws_inv (upd_socket i (\<lambda>s. s\<lparr>so_ready := CLOSING\<rparr>) c)"
  using assms
  by (cases "w_ws c")
     (auto simp: ws_inv_defs live_def nth_list_update cong: ready_state.case_cong)

lemma ws_inv_closed:
  assumes inv: "ws_inv c" and i: "i < length (w_sockets c)" "so_ready (w_sockets c ! i) \<noteq> CLOSED"
  shows "ws_inv (with_handler i handle_close (upd_socket i (\<lambda>s. s\<lparr>so_ready := CLOSED\<rparr>) c))"
proof (cases "so_attached (w_sockets c ! i)")
  case False
  then show ?thesis using ws_inv_dead_socket [OF inv i(1), of CLOSED] i by (simp add: with_handler_def)
next
  case True
  then have ws: "w_ws c = Some i" using current_socket [OF inv i(1)] i(2) by (simp add: live_def)
  then have nd: "\<not> w_destroyed c" by (rule current_not_destroyed [OF inv])
  show ?thesis
    using inv ws nd i True
    by (auto simp: with_handler_def handle_close_def scheduleReconnect_def ws_inv_defs nth_list_update)
qed

lemma ws_step_inv: "ws_step c c' \<Longrightarrow> ws_inv c \<Longrightarrow> ws_inv c'"
  by (induction rule: ws_step.induct)
     (auto intro: ws_inv_connect ws_inv_subscribe ws_inv_unsubscribe ws_inv_updateConfig
        ws_inv_destroy ws_inv_timer ws_inv_opened ws_inv_message ws_inv_errored ws_inv_closing ws_inv_closed)

lemma ws_reachable_inv: "ws_reachable c \<Longrightarrow> ws_inv c"
  by (induction rule: ws_reachable.induct) (auto intro: ws_inv_new ws_step_inv)

section \<open>Lemmas on callbacks and keys\<close>

lemma send_wire_fields [simp]:
  "w_log (send_wire m c) = w_log c" "w_destroyed (send_wire m c) = w_destroyed c"
  "w_subCallbacks (send_wire m c) = w_subCallbacks c" "w_activeSubs (send_wire m c) = w_activeSubs c"
  by (simp_all add: send_wire_def)

lemma subscribe_fields [simp]:
  "w_log (subscribe s cb c) = w_log c" "w_destroyed (subscribe s cb c) = w_destroyed c"
  "w_subCallbacks (subscribe s cb c) = AList.update (makeSubKey s) cb (w_subCallbacks c)"
  "w_activeSubs (subscribe s cb c) = AList.update (makeSubKey s) s (w_activeSubs c)"
  by (simp_all add: subscribe_def sendSubscribe_def Let_def)

lemma unsubscribe_fields [simp]:
  "w_log (unsubscribe s c) = w_log c" "w_destroyed (unsubscribe s c) = w_destroyed c"
  "w_subCallbacks (unsubscribe s c) = AList.delete (makeSubKey s) (w_subCallbacks c)"
  by (simp_all add: unsubscribe_def Let_def)

lemma destroy_fields [simp]: "w_log (destroy c) = w_log c" "w_destroyed (destroy c)"
  by (auto simp: destroy_def Let_def split: option.splits)

text \<open>What a data message does: at most one callback, the one registered under its key.\<close>

lemma handleMessage_update:
  "m_type m = T_update \<Longrightarrow> m_candle m = Some bc \<Longrightarrow>
   w_log (handleMessage m c) = w_log c @
     (case (case msg_key m of None \<Rightarrow> None | Some k \<Rightarrow> map_of (w_subCallbacks c) k) of
        None \<Rightarrow> []
      | Some f \<Rightarrow> if cb_onUpdate f then [OnUpdate (cb_owner f) (ws_mapBackendCandle bc)] else [])"
  by (auto simp: handleMessage_def Let_def split: option.splits)

lemma append_colon_inj:
  assumes "a @ CHR '':'' # x = b @ CHR '':'' # y" "CHR '':'' \<notin> set a" "CHR '':'' \<notin> set b"
  shows "a = b \<and> x = y"
proof -
  have "takeWhile (\<lambda>c. c \<noteq> CHR '':'') (a @ CHR '':'' # x) = a" "takeWhile (\<lambda>c. c \<noteq> CHR '':'') (b @ CHR '':'' # y) = b"
    using assms(2,3) by (auto simp: takeWhile_append2 takeWhile_append)
  with assms(1) show ?thesis by simp
qed

definition colon_free :: "sub \<Rightarrow> bool" where
  "colon_free s \<longleftrightarrow>
     CHR '':'' \<notin> set (sub_symbol s) \<union> set (sub_market s) \<union> set (sub_tf s)"

lemma makeSubKey_inj:
  "makeSubKey s = makeSubKey t \<Longrightarrow> colon_free s \<Longrightarrow> colon_free t \<Longrightarrow> s = t"
  unfolding makeSubKey_def colon_free_def
  by (cases s; cases t) (auto dest!: append_colon_inj show_int_inj)

lemma ws_step_destroyed:
  "ws_step c c' \<Longrightarrow> ws_inv c \<Longrightarrow> w_destroyed c \<Longrightarrow> w_destroyed c' \<and> w_log c' = w_log c"
  by (induction rule: ws_step.induct)
     (auto simp: connect_def updateConfig_def timer_fired_def Let_def with_handler_def
        handle_open_def handle_message_def handle_error_def handle_close_def)

section \<open>Properties\<close>


text \<open>
  C12. At most one socket can deliver events to the client at any time, it is the current one, and a client that
  connected once and was not destroyed always has a current socket or a pending reconnect timer, with a delay
  between 1 and 10 seconds.
\<close>

theorem single_live_socket_never_stranded:
  assumes "ws_reachable c"
  shows "(\<forall>i < length (w_sockets c). live (w_sockets c ! i) \<longrightarrow> w_ws c = Some i) \<and>
         (w_sockets c \<noteq> [] \<longrightarrow> w_destroyed c \<or> w_ws c \<noteq> None \<or> w_timer c \<noteq> None) \<and>
         1000 \<le> w_reconnectDelay c \<and> w_reconnectDelay c \<le> 10000 \<and>
         (case w_timer c of None \<Rightarrow> True | Some d \<Rightarrow> 1000 \<le> d \<and> d \<le> 10000)"
  using ws_reachable_inv [OF assms] current_socket [OF ws_reachable_inv [OF assms]]
  by (auto simp: ws_inv_def alive_inv_def delay_inv_def maxReconnectDelay_def split: option.splits)

text \<open>
  C25. After \<open>destroy\<close> the client is silent for good: it stays destroyed, no further event, message, timer or
  call invokes any callback, and no timer or socket is left.
\<close>

theorem destroyed_is_silent:
  assumes "ws_reachable c" "w_destroyed c" "ws_step\<^sup>*\<^sup>* c c'"
  shows "w_destroyed c' \<and> w_log c' = w_log c \<and> w_ws c' = None \<and> w_timer c' = None"
proof -
  from assms(3) have "ws_inv c' \<and> w_destroyed c' \<and> w_log c' = w_log c"
  proof (induction rule: rtranclp_induct)
    case base
    then show ?case using ws_reachable_inv [OF assms(1)] assms(2) by simp
  next
    case (step y z)
    then show ?case using ws_step_inv ws_step_destroyed by metis
  qed
  then show ?thesis by (auto simp: ws_inv_def destroyed_inv_def)
qed


text \<open>
  Two charts cannot share a subscription: registering callbacks under a subscription that another chart already
  holds replaces that chart's callbacks, so an update then reaches the second chart only, and an unsubscription by
  either of them cuts off both.
\<close>

theorem second_subscriber_replaces_first:
  assumes "m_type m = T_update" "m_candle m = Some bc" "msg_key m = Some (makeSubKey s)"
    "cb_onUpdate cb1" "distinct (map fst (w_subCallbacks c))"
  shows "w_log (handleMessage m (subscribe s cb1 (subscribe s cb0 c))) =
           w_log c @ [OnUpdate (cb_owner cb1) (ws_mapBackendCandle bc)] \<and>
         w_log (handleMessage m (unsubscribe s (subscribe s cb1 (subscribe s cb0 c)))) = w_log c"
  using assms by (simp add: handleMessage_update update_conv' AList.delete_conv')

subsection \<open>Witnesses\<close>

definition wit_sub :: sub where
  "wit_sub = \<lparr>sub_symbol = ''BTCUSDT'', sub_market = ''spot'', sub_tf = ''15m'', sub_compression = 500\<rparr>"

definition wit_cfg :: ws_config where
  "wit_cfg = \<lparr>cfg_url = ''/ws'', cfg_id = 0, cfg_onConnect = True, cfg_onDisconnect = True, cfg_onError = False\<rparr>"

definition wit_cbs :: "nat \<Rightarrow> sub_callbacks" where
  "wit_cbs n = \<lparr>cb_owner = n, cb_onUpdate = True, cb_onClose = True, cb_onOpen = False\<rparr>"

definition wit_connected :: ws_client where
  "wit_connected =
     (let c = connect (subscribe wit_sub (wit_cbs 0) (ws_new wit_cfg))
      in with_handler 0 (handle_open 0) (upd_socket 0 (\<lambda>s. s\<lparr>so_ready := OPEN\<rparr>) c))"

lemma wit_connected_reachable: "ws_reachable wit_connected"
  unfolding wit_connected_def Let_def
  by (rule ws_reachable.step, rule ws_reachable.step [OF ws_reachable.step [OF ws_reachable.start]],
      rule call_subscribe, rule call_connect, rule opened)
     (simp_all add: connect_def ws_new_def subscribe_def sendSubscribe_def send_wire_def
        isConnected_def ready_of_def Let_def)

lemma wit_connected_state:
  "w_ws wit_connected = Some 0" "so_ready (w_sockets wit_connected ! 0) = OPEN"
  "so_sent (w_sockets wit_connected ! 0) = [Subscribe wit_sub]" "w_destroyed wit_connected = False"
  by (simp_all add: wit_connected_def connect_def ws_new_def subscribe_def sendSubscribe_def send_wire_def
      isConnected_def ready_of_def Let_def with_handler_def handle_open_def)


theorem single_live_socket_never_stranded_witness:
  "1000 \<le> w_reconnectDelay wit_connected \<and> w_reconnectDelay wit_connected \<le> 10000"
  using single_live_socket_never_stranded [OF wit_connected_reachable] by simp

theorem destroyed_is_silent_witness:
  "w_log (connect (destroy wit_connected)) = w_log wit_connected"
proof -
  have "ws_reachable (destroy wit_connected)"
    by (rule ws_reachable.step [OF wit_connected_reachable call_destroy])
  moreover have "ws_step\<^sup>*\<^sup>* (destroy wit_connected) (connect (destroy wit_connected))"
    by (rule r_into_rtranclp, rule call_connect)
  ultimately show ?thesis using destroyed_is_silent [of "destroy wit_connected"] by simp
qed

definition wit_ws_candle :: ws_candle where
  "wit_ws_candle = ws_of_candle wit_bc"


theorem second_subscriber_replaces_first_witness:
  "w_log (handleMessage \<lparr>m_type = T_update, m_symbol = Some ''BTCUSDT'', m_market = Some ''spot'',
      m_tf = Some ''15m'', m_compression = Some 500, m_candle = Some wit_ws_candle\<rparr>
     (subscribe wit_sub (wit_cbs 1) (subscribe wit_sub (wit_cbs 0) (ws_new wit_cfg)))) =
   [OnUpdate 1 (ws_mapBackendCandle wit_ws_candle)]"
  using second_subscriber_replaces_first [of "\<lparr>m_type = T_update, m_symbol = Some ''BTCUSDT'',
      m_market = Some ''spot'', m_tf = Some ''15m'', m_compression = Some 500, m_candle = Some wit_ws_candle\<rparr>"
      wit_ws_candle wit_sub "wit_cbs 1" "ws_new wit_cfg" "wit_cbs 0"]
  by (simp add: wit_sub_def wit_cbs_def msg_key_def truthy_str_def ws_new_def)

end
