(* ===== verification/ChartFeed.thy ===== *)
theory ChartFeed
  imports WsClient TierLimits
begin

text \<open>
  How the candles of a chart are loaded and kept up to date (\<open>frontend-chart/src/App.tsx\<close>): the
  initial REST load of a setting, loading more history, the subscription to live updates and the
  periodic flush of the last received candle. \<open>App.tsx\<close> has each of these once per chart (suffixes 0
  and 1, the same code), the model has them once, for the chart they are given.

  A response arrives in a later turn of the event loop, so a request is recorded with what its
  closure captured (the setting, and for the initial load the effect instance whose cleanup clears
  \<open>active\<close>) and the handler runs on the state it finds then. The list functions are polymorphic in
  the candle, given its timestamp, so that they apply to plain candles and to candles tagged
  with the setting they belong to.
\<close>

section \<open>Settings\<close>

record setting =
  se_symbol :: string
  se_marketType :: string
  se_interval :: string
  se_multiplier :: int

definition isFutures :: "setting \<Rightarrow> bool" where
  "isFutures st \<longleftrightarrow> se_marketType st = ''FUTURES''"

definition baseCompression :: "setting \<Rightarrow> int" where
  "baseCompression st =
     (let isBtc = str_includes (toUpperCase (se_symbol st)) ''BTC'' in
      if isBtc then (if isFutures st then 25 else 500) else 25)"

definition compression :: "setting \<Rightarrow> int" where
  "compression st = baseCompression st * se_multiplier st"

definition market_of :: "setting \<Rightarrow> string" where
  "market_of st = (if isFutures st then ''futures'' else ''spot'')"

definition sub_of :: "setting \<Rightarrow> sub" where
  "sub_of st = \<lparr>sub_symbol = se_symbol st, sub_market = market_of st, sub_tf = se_interval st,
                sub_compression = compression st\<rparr>"

definition parseInterval :: "string \<Rightarrow> number" where
  "parseInterval v =
     (if v = ''1m'' then 1 else if v = ''5m'' then 5 else if v = ''15m'' then 15
      else if v = ''30m'' then 30 else if v = ''1h'' then 60 else if v = ''4h'' then 240 else 15)"

section \<open>The candle array\<close>

text \<open>
  \<open>xs.slice(-max)\<close>. A limit that is not a number makes the product \<open>NaN\<close>, and \<open>slice(NaN)\<close> keeps all.
\<close>

definition keep_last :: "number option \<Rightarrow> 'c list \<Rightarrow> 'c list" where
  "keep_last maxc xs = (case maxc of Some n \<Rightarrow> slice_last n xs | None \<Rightarrow> xs)"

text \<open>The flush of the buffered candle into the array (the body of the 200 ms interval).\<close>

definition flush_candles :: "('c \<Rightarrow> number) \<Rightarrow> number option \<Rightarrow> 'c \<Rightarrow> 'c list \<Rightarrow> 'c list" where
  "flush_candles ts maxc candle prev =
     (if prev = [] then [candle]
      else let lastc = last prev in
        if ts candle > ts lastc then keep_last maxc (prev @ [candle])
        else if ts candle = ts lastc then prev[length prev - 1 := candle]
        else prev)"

text \<open>The result of a history request: \<open>[...candles, ...prev].slice(-maxCandles)\<close>.\<close>

definition prepend_candles :: "number option \<Rightarrow> 'c list \<Rightarrow> 'c list \<Rightarrow> 'c list" where
  "prepend_candles maxc older prev = keep_last maxc (older @ prev)"

section \<open>The state of one chart\<close>

record 'c feed =
  fd_setting :: setting
  fd_gen :: nat
  fd_candles :: "'c list"
  fd_buffer :: "'c option"
  fd_loadId :: nat
  fd_loadingMore :: bool
  fd_loads :: "(nat \<times> setting) list"
  fd_mores :: "(setting \<times> number) list"

text \<open>
  The effect of a changed setting: its cleanup deactivates the previous instance, and the new
  instance requests the candles. The candles shown and the buffer are left as they are.
\<close>

definition change_setting :: "setting \<Rightarrow> 'c feed \<Rightarrow> 'c feed" where
  "change_setting st f =
     f\<lparr>fd_setting := st, fd_gen := Suc (fd_gen f), fd_loads := fd_loads f @ [(Suc (fd_gen f), st)]\<rparr>"

text \<open>The response to the load of instance \<open>g\<close>; \<open>maxc st\<close> is the limit for the interval of \<open>st\<close>.\<close>

definition load_response ::
  "(setting \<Rightarrow> number option) \<Rightarrow> nat \<times> setting \<Rightarrow> 'c list option \<Rightarrow> 'c feed \<Rightarrow> 'c feed" where
  "load_response maxc rq resp f0 =
     (let f = f0\<lparr>fd_loads := remove1 rq (fd_loads f0)\<rparr> in
      if fst rq \<noteq> fd_gen f then f
      else case resp of
             Some candles \<Rightarrow> f\<lparr>fd_candles := keep_last (maxc (snd rq)) candles, fd_loadId := Suc (fd_loadId f)\<rparr>
           | None \<Rightarrow> f\<lparr>fd_candles := []\<rparr>)"

definition handleLoadMore :: "number \<Rightarrow> 'c feed \<Rightarrow> 'c feed" where
  "handleLoadMore oldestCandleTime f =
     (if fd_loadingMore f then f
      else f\<lparr>fd_loadingMore := True,
             fd_mores := fd_mores f @ [(fd_setting f, js_floor (oldestCandleTime / 1000))]\<rparr>)"

definition more_response ::
  "(setting \<Rightarrow> number option) \<Rightarrow> setting \<times> number \<Rightarrow> 'c list option \<Rightarrow> 'c feed \<Rightarrow> 'c feed" where
  "more_response maxc rq resp f0 =
     (let f = f0\<lparr>fd_mores := remove1 rq (fd_mores f0), fd_loadingMore := False\<rparr> in
      case resp of
        Some candles \<Rightarrow> f\<lparr>fd_candles := prepend_candles (maxc (fst rq)) candles (fd_candles f)\<rparr>
      | None \<Rightarrow> f)"

definition receive :: "'c \<Rightarrow> 'c feed \<Rightarrow> 'c feed" where
  "receive candle f = f\<lparr>fd_buffer := Some candle\<rparr>"

definition flush :: "('c \<Rightarrow> number) \<Rightarrow> (setting \<Rightarrow> number option) \<Rightarrow> 'c feed \<Rightarrow> 'c feed" where
  "flush ts maxc f =
     (case fd_buffer f of
        None \<Rightarrow> f
      | Some candle \<Rightarrow>
          f\<lparr>fd_buffer := None, fd_candles := flush_candles ts (maxc (fd_setting f)) candle (fd_candles f)\<rparr>)"

text \<open>The price shown for a pair follows the last candle (\<open>setPairs\<close>, \<open>setActivePair\<close>).\<close>

definition set_price :: "string \<Rightarrow> number \<Rightarrow> crypto_pair \<Rightarrow> crypto_pair" where
  "set_price symbol price p = (if pair_symbol p = symbol then p\<lparr>pair_price := price\<rparr> else p)"

definition set_prices :: "string \<Rightarrow> candle list \<Rightarrow> crypto_pair list \<Rightarrow> crypto_pair list" where
  "set_prices symbol candles pairs =
     (if candles = [] then pairs else map (set_price symbol (c_close (last candles))) pairs)"

section \<open>Two charts on one client\<close>

text \<open>
  Both charts obtain the client of the same url, so there is one. \<open>ct_clientRef\<close> says that the chart's
  \<open>wsClientRef.current\<close> is set, \<open>ct_armed\<close> that the last run of its subscription effect returned a
  cleanup (it returns none when it found no client).
\<close>

datatype connection_status = Connected | Syncing | Stale

record charts =
  ct_feed0 :: "candle feed"
  ct_feed1 :: "candle feed"
  ct_isTickingAll :: bool
  ct_status :: connection_status
  ct_clientRef0 :: bool
  ct_clientRef1 :: bool
  ct_prevSub0 :: "sub option"
  ct_prevSub1 :: "sub option"
  ct_armed0 :: bool
  ct_armed1 :: bool
  ct_client :: ws_client
  ct_pairs :: "crypto_pair list"

definition charts_new :: "ws_config \<Rightarrow> crypto_pair list \<Rightarrow> candle feed \<Rightarrow> candle feed \<Rightarrow> charts" where
  "charts_new cfg pairs f0 f1 =
     \<lparr>ct_feed0 = f0, ct_feed1 = f1, ct_isTickingAll = True, ct_status = Connected,
      ct_clientRef0 = False, ct_clientRef1 = False, ct_prevSub0 = None, ct_prevSub1 = None,
      ct_armed0 = False, ct_armed1 = False, ct_client = ws_new cfg,
      ct_pairs = pairs\<rparr>"

definition chart_callbacks :: "nat \<Rightarrow> sub_callbacks" where
  "chart_callbacks n = \<lparr>cb_owner = n, cb_onUpdate = True, cb_onClose = True, cb_onOpen = False\<rparr>"

text \<open>The connection effects, run when \<open>isTickingAll\<close> changes.\<close>

definition connection_effect0 :: "charts \<Rightarrow> charts" where
  "connection_effect0 ct =
     (if \<not> ct_isTickingAll ct then ct\<lparr>ct_status := Stale\<rparr>
      else ct\<lparr>ct_clientRef0 := True, ct_client := connect (ct_client ct)\<rparr>)"

definition connection_effect1 :: "charts \<Rightarrow> charts" where
  "connection_effect1 ct =
     (if \<not> ct_isTickingAll ct then ct
      else ct\<lparr>ct_clientRef1 := True, ct_client := connect (ct_client ct)\<rparr>)"

definition toggle_ticking :: "charts \<Rightarrow> charts" where
  "toggle_ticking ct =
     (let cleaned = (if ct_isTickingAll ct then ct\<lparr>ct_clientRef0 := False, ct_clientRef1 := False\<rparr> else ct)
      in connection_effect1 (connection_effect0 (cleaned\<lparr>ct_isTickingAll := \<not> ct_isTickingAll ct\<rparr>)))"

text \<open>The subscription effect of a chart: drop the previous subscription, take the new one.\<close>

definition drop_prev :: "sub option \<Rightarrow> ws_client \<Rightarrow> ws_client" where
  "drop_prev prev c = (case prev of None \<Rightarrow> c | Some s \<Rightarrow> unsubscribe s c)"

definition subscription_effect0 :: "charts \<Rightarrow> charts" where
  "subscription_effect0 ct =
     (if \<not> ct_clientRef0 ct then ct\<lparr>ct_armed0 := False\<rparr>
      else let s = sub_of (fd_setting (ct_feed0 ct)) in
        ct\<lparr>ct_prevSub0 := Some s, ct_armed0 := True,
           ct_client := subscribe s (chart_callbacks 0) (drop_prev (ct_prevSub0 ct) (ct_client ct))\<rparr>)"

definition subscription_effect1 :: "charts \<Rightarrow> charts" where
  "subscription_effect1 ct =
     (if \<not> ct_clientRef1 ct then ct\<lparr>ct_armed1 := False\<rparr>
      else let s = sub_of (fd_setting (ct_feed1 ct)) in
        ct\<lparr>ct_prevSub1 := Some s, ct_armed1 := True,
           ct_client := subscribe s (chart_callbacks 1) (drop_prev (ct_prevSub1 ct) (ct_client ct))\<rparr>)"

definition subscription_cleanup0 :: "charts \<Rightarrow> charts" where
  "subscription_cleanup0 ct =
     ct\<lparr>ct_client := drop_prev (ct_prevSub0 ct) (ct_client ct), ct_prevSub0 := None\<rparr>"

definition subscription_cleanup1 :: "charts \<Rightarrow> charts" where
  "subscription_cleanup1 ct =
     ct\<lparr>ct_client := drop_prev (ct_prevSub1 ct) (ct_client ct), ct_prevSub1 := None\<rparr>"

text \<open>
  A changed setting: the load effect and the subscription effect run, the latter after the cleanup
  of its previous run, if that returned one.
\<close>

definition user_sets0 :: "setting \<Rightarrow> charts \<Rightarrow> charts" where
  "user_sets0 st ct =
     (let ct1 = (if ct_armed0 ct then subscription_cleanup0 ct else ct)
      in subscription_effect0 (ct1\<lparr>ct_feed0 := change_setting st (ct_feed0 ct), ct_status := Syncing\<rparr>))"

definition user_sets1 :: "setting \<Rightarrow> charts \<Rightarrow> charts" where
  "user_sets1 st ct =
     (let ct1 = (if ct_armed1 ct then subscription_cleanup1 ct else ct)
      in subscription_effect1 (ct1\<lparr>ct_feed1 := change_setting st (ct_feed1 ct), ct_status := Syncing\<rparr>))"

text \<open>The first render: the effects run in the order of the component.\<close>

definition mount :: "charts \<Rightarrow> charts" where
  "mount ct = subscription_effect1 (connection_effect1 (subscription_effect0 (connection_effect0 ct)))"

text \<open>The callbacks store the candle in the buffer of their chart.\<close>

fun deliver :: "effect \<Rightarrow> charts \<Rightarrow> charts" where
  "deliver (OnUpdate n candle) ct =
     (if n = 0 then ct\<lparr>ct_feed0 := receive candle (ct_feed0 ct)\<rparr>
      else ct\<lparr>ct_feed1 := receive candle (ct_feed1 ct)\<rparr>)"
| "deliver (OnClose n candle) ct =
     (if n = 0 then ct\<lparr>ct_feed0 := receive candle (ct_feed0 ct)\<rparr>
      else ct\<lparr>ct_feed1 := receive candle (ct_feed1 ct)\<rparr>)"
| "deliver _ ct = ct"

definition live_message :: "ws_msg \<Rightarrow> charts \<Rightarrow> charts" where
  "live_message m ct =
     (let c' = handleMessage m (ct_client ct);
          new = drop (length (w_log (ct_client ct))) (w_log c')
      in fold deliver new (ct\<lparr>ct_client := c'\<rparr>))"

text \<open>
  The load effects and handlers of the two charts. A load that is current ends the syncing state and
  shows the last price of its pair; a stale one changes nothing.
\<close>

definition load_prices :: "nat \<times> setting \<Rightarrow> candle list option \<Rightarrow> crypto_pair list \<Rightarrow> crypto_pair list" where
  "load_prices rq resp pairs =
     (case resp of None \<Rightarrow> pairs | Some candles \<Rightarrow> set_prices (se_symbol (snd rq)) candles pairs)"

definition load_response0 ::
  "(setting \<Rightarrow> number option) \<Rightarrow> nat \<times> setting \<Rightarrow> candle list option \<Rightarrow> charts \<Rightarrow> charts" where
  "load_response0 maxc rq resp ct =
     (let ct1 = ct\<lparr>ct_feed0 := load_response maxc rq resp (ct_feed0 ct)\<rparr> in
      if fst rq \<noteq> fd_gen (ct_feed0 ct) then ct1
      else ct1\<lparr>ct_pairs := load_prices rq resp (ct_pairs ct), ct_status := Connected\<rparr>)"

definition load_response1 ::
  "(setting \<Rightarrow> number option) \<Rightarrow> nat \<times> setting \<Rightarrow> candle list option \<Rightarrow> charts \<Rightarrow> charts" where
  "load_response1 maxc rq resp ct =
     (let ct1 = ct\<lparr>ct_feed1 := load_response maxc rq resp (ct_feed1 ct)\<rparr> in
      if fst rq \<noteq> fd_gen (ct_feed1 ct) then ct1
      else ct1\<lparr>ct_pairs := load_prices rq resp (ct_pairs ct), ct_status := Connected\<rparr>)"

definition handleLoadMore0 :: "number \<Rightarrow> charts \<Rightarrow> charts" where
  "handleLoadMore0 oldestCandleTime ct = ct\<lparr>ct_feed0 := handleLoadMore oldestCandleTime (ct_feed0 ct)\<rparr>"

definition handleLoadMore1 :: "number \<Rightarrow> charts \<Rightarrow> charts" where
  "handleLoadMore1 oldestCandleTime ct = ct\<lparr>ct_feed1 := handleLoadMore oldestCandleTime (ct_feed1 ct)\<rparr>"

definition more_response0 ::
  "(setting \<Rightarrow> number option) \<Rightarrow> setting \<times> number \<Rightarrow> candle list option \<Rightarrow> charts \<Rightarrow> charts" where
  "more_response0 maxc rq resp ct = ct\<lparr>ct_feed0 := more_response maxc rq resp (ct_feed0 ct)\<rparr>"

definition more_response1 ::
  "(setting \<Rightarrow> number option) \<Rightarrow> setting \<times> number \<Rightarrow> candle list option \<Rightarrow> charts \<Rightarrow> charts" where
  "more_response1 maxc rq resp ct = ct\<lparr>ct_feed1 := more_response maxc rq resp (ct_feed1 ct)\<rparr>"

text \<open>The 200 ms interval flushes both buffers; it exists only while the live mode is on.\<close>

definition flush_buffers :: "(setting \<Rightarrow> number option) \<Rightarrow> charts \<Rightarrow> charts" where
  "flush_buffers maxc ct =
     (if ct_isTickingAll ct
      then ct\<lparr>ct_feed0 := flush c_timestamp maxc (ct_feed0 ct), ct_feed1 := flush c_timestamp maxc (ct_feed1 ct)\<rparr>
      else ct)"

text \<open>
  The steps of the page that bear on the live data of the charts: the user changes a setting or toggles
  the live mode, a message arrives, a timer or socket event is handled by the client, and the feed of
  a chart is loaded, extended or flushed (which leaves the client alone).
\<close>

inductive charts_step :: "charts \<Rightarrow> charts \<Rightarrow> bool" where
  sets0: "charts_step ct (user_sets0 st ct)"
| sets1: "charts_step ct (user_sets1 st ct)"
| toggle: "charts_step ct (toggle_ticking ct)"
| live: "charts_step ct (live_message m ct)"
| reconnect: "charts_step ct (ct\<lparr>ct_client := timer_fired (ct_client ct)\<rparr>)"
| socket_open: "charts_step ct (ct\<lparr>ct_client := handle_open i (ct_client ct)\<rparr>)"
| socket_close: "charts_step ct (ct\<lparr>ct_client := handle_close (ct_client ct)\<rparr>)"
| loaded0: "charts_step ct (load_response0 maxc rq resp ct)"
| loaded1: "charts_step ct (load_response1 maxc rq resp ct)"
| more0: "charts_step ct (handleLoadMore0 t ct)"
| more1: "charts_step ct (handleLoadMore1 t ct)"
| more_loaded0: "charts_step ct (more_response0 maxc mrq resp ct)"
| more_loaded1: "charts_step ct (more_response1 maxc mrq resp ct)"
| flushed: "charts_step ct (flush_buffers maxc ct)"

inductive charts_reachable :: "charts \<Rightarrow> bool" where
  mounted: "charts_reachable (mount (charts_new cfg pairs f0 f1))"
| stepped: "charts_reachable ct \<Longrightarrow> charts_step ct ct' \<Longrightarrow> charts_reachable ct'"

section \<open>Lemmas\<close>

lemma keep_last_subset: "set (keep_last m xs) \<subseteq> set xs"
  by (auto simp: keep_last_def split: option.splits dest: subsetD [OF set_slice_last])

lemma sorted_keep_last: "sorted_wrt P xs \<Longrightarrow> sorted_wrt P (keep_last m xs)"
  by (auto simp: keep_last_def sorted_wrt_slice_last split: option.splits)

lemma keep_last_length: "1 \<le> n \<Longrightarrow> real (length (keep_last (Some n) xs)) \<le> n"
  by (simp add: keep_last_def slice_last_length)

lemma keep_last_snoc: "1 \<le> n \<Longrightarrow> \<exists>ys. keep_last (Some n) (xs @ [x]) = ys @ [x]"
  by (simp add: keep_last_def slice_last_append_last)

text \<open>Candles in strictly increasing order of time.\<close>

definition chronological :: "('c \<Rightarrow> number) \<Rightarrow> 'c list \<Rightarrow> bool" where
  "chronological ts xs \<longleftrightarrow> sorted_wrt (\<lambda>a b. ts a < ts b) xs"

lemma chronological_Nil [simp]: "chronological ts []" and chronological_single [simp]: "chronological ts [x]"
  by (simp_all add: chronological_def)

lemma chronological_append:
  "chronological ts (xs @ [x]) \<longleftrightarrow> chronological ts xs \<and> (\<forall>a\<in>set xs. ts a < ts x)"
  by (simp add: chronological_def sorted_wrt_append)

lemma chronological_snoc:
  assumes "chronological ts (ys @ [y])" "ts y < ts x"
  shows "chronological ts ((ys @ [y]) @ [x])"
  using assms unfolding chronological_append
  by (metis Un_iff less_trans set_append set_ConsD empty_iff list.set(1))

lemma chronological_keep_last: "chronological ts xs \<Longrightarrow> chronological ts (keep_last m xs)"
  by (simp add: chronological_def sorted_keep_last)

text \<open>The three cases of a flush, by the relation of the candle to the last one of the array.\<close>

lemma flush_candles_cases:
  "flush_candles ts m c [] = [c]"
  "ts y < ts c \<Longrightarrow> flush_candles ts m c (ys @ [y]) = keep_last m ((ys @ [y]) @ [c])"
  "ts c = ts y \<Longrightarrow> flush_candles ts m c (ys @ [y]) = ys @ [c]"
  "ts c < ts y \<Longrightarrow> flush_candles ts m c (ys @ [y]) = ys @ [y]"
  by (simp_all add: flush_candles_def Let_def)

lemma flush_candles_chronological:
  assumes "chronological ts prev"
  shows "chronological ts (flush_candles ts m c prev)"
proof (cases prev rule: rev_cases)
  case Nil
  then show ?thesis by (simp add: flush_candles_cases)
next
  case (snoc ys y)
  consider "ts y < ts c" | "ts c = ts y" | "ts c < ts y" by (rule linorder_cases [of "ts y" "ts c"]) auto
  then show ?thesis
  proof cases
    case 1
    have "chronological ts ((ys @ [y]) @ [c])" using assms 1 snoc by (intro chronological_snoc) simp_all
    then show ?thesis unfolding snoc flush_candles_cases(2) [of ts y c, OF 1] by (rule chronological_keep_last)
  next
    case 2
    then show ?thesis using assms snoc by (simp add: flush_candles_cases chronological_append)
  next
    case 3
    then show ?thesis using assms snoc by (simp add: flush_candles_cases)
  qed
qed

lemma flush_candles_length:
  assumes "1 \<le> n" "real (length prev) \<le> n"
  shows "real (length (flush_candles ts (Some n) c prev)) \<le> n"
proof (cases prev rule: rev_cases)
  case Nil
  then show ?thesis using assms by (simp add: flush_candles_cases)
next
  case (snoc ys y)
  consider "ts y < ts c" | "ts c = ts y" | "ts c < ts y" by (rule linorder_cases [of "ts y" "ts c"]) auto
  then show ?thesis
    using assms keep_last_length [OF assms(1), of "(ys @ [y]) @ [c]"] snoc
    by cases (simp_all add: flush_candles_cases del: append_assoc)
qed

lemma flush_candles_older:
  "prev \<noteq> [] \<Longrightarrow> ts c < ts (last prev) \<Longrightarrow> flush_candles ts m c prev = prev"
  by (simp add: flush_candles_def Let_def)

lemma flush_candles_last:
  assumes "1 \<le> n" "prev = [] \<or> ts (last prev) \<le> ts c"
  shows "last (flush_candles ts (Some n) c prev) = c \<and>
         set (butlast (flush_candles ts (Some n) c prev)) \<subseteq> set prev"
proof (cases prev rule: rev_cases)
  case Nil
  then show ?thesis by (simp add: flush_candles_cases)
next
  case (snoc ys y)
  obtain zs where zs: "keep_last (Some n) ((ys @ [y]) @ [c]) = zs @ [c]"
    using keep_last_snoc [OF assms(1), of "ys @ [y]" c] by (elim exE)
  then have "slice_last n ((ys @ [y]) @ [c]) = zs @ [c]" by (simp only: keep_last_def option.case)
  then obtain us where "(ys @ [y]) @ [c] = us @ zs @ [c]"
    using slice_last_suffix [of "(ys @ [y]) @ [c]" n] by (elim exE) simp
  then have "set zs \<subseteq> set prev" using snoc by auto
  then show ?thesis
  proof (cases "ts y < ts c")
    case True
    then show ?thesis unfolding snoc flush_candles_cases(2) [of ts y c, OF True] zs
      using \<open>set zs \<subseteq> set prev\<close> snoc by simp
  next
    case False
    then show ?thesis using assms(2) snoc by (auto simp: flush_candles_cases)
  qed
qed

subsection \<open>The callbacks of the two charts\<close>

definition own_callbacks :: "nat \<Rightarrow> bool \<Rightarrow> sub option \<Rightarrow> string \<Rightarrow> sub_callbacks \<Rightarrow> bool" where
  "own_callbacks n armed prev k cb \<longleftrightarrow>
     cb = chart_callbacks n \<and> armed \<and> (\<exists>s. prev = Some s \<and> k = makeSubKey s)"

text \<open>
  Every registered callback belongs to a chart, under the key of its remembered subscription; and both
  charts hold the client exactly while the live mode is on.
\<close>

definition charts_inv :: "charts \<Rightarrow> bool" where
  "charts_inv ct \<longleftrightarrow>
     (\<forall>k cb. map_of (w_subCallbacks (ct_client ct)) k = Some cb \<longrightarrow>
        own_callbacks 0 (ct_armed0 ct) (ct_prevSub0 ct) k cb \<or>
        own_callbacks 1 (ct_armed1 ct) (ct_prevSub1 ct) k cb) \<and>
     ct_clientRef0 ct = ct_isTickingAll ct \<and> ct_clientRef1 ct = ct_isTickingAll ct"

lemma drop_prev_callbacks:
  "map_of (w_subCallbacks (drop_prev prev c)) k =
     (if \<exists>s. prev = Some s \<and> k = makeSubKey s then None else map_of (w_subCallbacks c) k)"
  by (auto simp: drop_prev_def unsubscribe_def Let_def AList.delete_conv' send_wire_def split: option.splits)

lemma subscribe_callbacks:
  "map_of (w_subCallbacks (subscribe s cb c)) k =
     (if k = makeSubKey s then Some cb else map_of (w_subCallbacks c) k)"
  by (simp add: update_conv')

lemma handler_callbacks [simp]:
  "w_subCallbacks (connect c) = w_subCallbacks c"
  "w_subCallbacks (timer_fired c) = w_subCallbacks c"
  "w_subCallbacks (handle_close c) = w_subCallbacks c"
  by (simp_all add: connect_def timer_fired_def handle_close_def scheduleReconnect_def Let_def
      split: option.splits)

lemma fold_sendSubscribe_callbacks [simp]:
  "w_subCallbacks (fold sendSubscribe ss c) = w_subCallbacks c"
  by (induction ss arbitrary: c) (simp_all add: sendSubscribe_def send_wire_def)

lemma handle_open_callbacks [simp]: "w_subCallbacks (handle_open i c) = w_subCallbacks c"
  by (simp add: handle_open_def Let_def)

lemma fold_emit_callbacks [simp]:
  "w_subCallbacks (fold (\<lambda>x. emit (p x) (e x)) xs c) = w_subCallbacks c"
  by (induction xs arbitrary: c) simp_all

lemma handleMessage_callbacks [simp]: "w_subCallbacks (handleMessage m c) = w_subCallbacks c"
  by (simp add: handleMessage_def Let_def split: msg_type.splits option.splits)

lemma deliver_frame [simp]:
  "ct_client (deliver e ct) = ct_client ct" "ct_clientRef0 (deliver e ct) = ct_clientRef0 ct"
  "ct_clientRef1 (deliver e ct) = ct_clientRef1 ct" "ct_prevSub0 (deliver e ct) = ct_prevSub0 ct"
  "ct_prevSub1 (deliver e ct) = ct_prevSub1 ct" "ct_armed0 (deliver e ct) = ct_armed0 ct"
  "ct_armed1 (deliver e ct) = ct_armed1 ct" "ct_isTickingAll (deliver e ct) = ct_isTickingAll ct"
  by (cases e; simp)+

lemma fold_deliver_frame [simp]:
  "ct_client (fold deliver es ct) = ct_client ct" "ct_clientRef0 (fold deliver es ct) = ct_clientRef0 ct"
  "ct_clientRef1 (fold deliver es ct) = ct_clientRef1 ct" "ct_prevSub0 (fold deliver es ct) = ct_prevSub0 ct"
  "ct_prevSub1 (fold deliver es ct) = ct_prevSub1 ct" "ct_armed0 (fold deliver es ct) = ct_armed0 ct"
  "ct_armed1 (fold deliver es ct) = ct_armed1 ct" "ct_isTickingAll (fold deliver es ct) = ct_isTickingAll ct"
  by (induction es arbitrary: ct) simp_all

lemma charts_inv_live: "charts_inv ct \<Longrightarrow> charts_inv (live_message m ct)"
  by (simp add: charts_inv_def live_message_def Let_def)

lemma charts_inv_user_sets0: "charts_inv ct \<Longrightarrow> charts_inv (user_sets0 st ct)"
  by (auto simp: charts_inv_def user_sets0_def subscription_effect0_def subscription_cleanup0_def Let_def
      own_callbacks_def drop_prev_callbacks subscribe_callbacks simp del: subscribe_fields split: if_splits)

lemma charts_inv_user_sets1: "charts_inv ct \<Longrightarrow> charts_inv (user_sets1 st ct)"
  by (auto simp: charts_inv_def user_sets1_def subscription_effect1_def subscription_cleanup1_def Let_def
      own_callbacks_def drop_prev_callbacks subscribe_callbacks simp del: subscribe_fields split: if_splits)

lemma charts_inv_toggle: "charts_inv ct \<Longrightarrow> charts_inv (toggle_ticking ct)"
  by (simp add: charts_inv_def toggle_ticking_def connection_effect0_def connection_effect1_def Let_def)

lemma charts_inv_mount: "charts_inv (mount (charts_new cfg pairs f0 f1))"
  by (auto simp: charts_inv_def mount_def charts_new_def connection_effect0_def connection_effect1_def
      subscription_effect0_def subscription_effect1_def Let_def drop_prev_def
      own_callbacks_def subscribe_callbacks ws_new_def simp del: subscribe_fields split: if_splits)

lemma charts_step_inv: "charts_step ct ct' \<Longrightarrow> charts_inv ct \<Longrightarrow> charts_inv ct'"
  by (induction rule: charts_step.induct)
     (simp_all add: charts_inv_live charts_inv_user_sets0 charts_inv_user_sets1 charts_inv_toggle,
      simp_all add: charts_inv_def load_response0_def load_response1_def handleLoadMore0_def
        handleLoadMore1_def more_response0_def more_response1_def flush_buffers_def Let_def)

lemma charts_reachable_inv: "charts_reachable ct \<Longrightarrow> charts_inv ct"
  by (induction rule: charts_reachable.induct) (auto simp: charts_inv_mount dest: charts_step_inv)

text \<open>What a data message delivers, given the callbacks registered under its key.\<close>

definition registered :: "ws_msg \<Rightarrow> ws_client \<Rightarrow> sub_callbacks option" where
  "registered m c = (case msg_key m of None \<Rightarrow> None | Some k \<Rightarrow> map_of (w_subCallbacks c) k)"

lemma live_message_data:
  assumes "m_type m = T_update \<or> m_type m = T_close" "m_candle m = Some bc"
  shows "live_message m ct =
     (case registered m (ct_client ct) of
        None \<Rightarrow> ct\<lparr>ct_client := handleMessage m (ct_client ct)\<rparr>
      | Some cb \<Rightarrow>
          (if m_type m = T_update \<and> cb_onUpdate cb
           then deliver (OnUpdate (cb_owner cb) (ws_mapBackendCandle bc)) (ct\<lparr>ct_client := handleMessage m (ct_client ct)\<rparr>)
           else if m_type m = T_close \<and> cb_onClose cb
           then deliver (OnClose (cb_owner cb) (ws_mapBackendCandle bc)) (ct\<lparr>ct_client := handleMessage m (ct_client ct)\<rparr>)
           else ct\<lparr>ct_client := handleMessage m (ct_client ct)\<rparr>))"
  using assms
  by (auto simp: live_message_def registered_def handleMessage_def Let_def split: option.splits)

lemma fold_emit_log:
  "w_log (fold (\<lambda>x. emit (p x) (e x)) xs c) = w_log c @ concat (map (\<lambda>x. if p x then [e x] else []) xs)"
  by (induction xs arbitrary: c) simp_all

lemma fold_deliver_open:
  "(\<forall>e\<in>set es. \<exists>n m. e = OnOpen n m) \<Longrightarrow> fold deliver es ct = ct"
  by (induction es arbitrary: ct) auto

lemma live_message_other:
  assumes "\<not> ((m_type m = T_update \<or> m_type m = T_close) \<and> m_candle m \<noteq> None)"
  shows "live_message m ct = ct\<lparr>ct_client := handleMessage m (ct_client ct)\<rparr>"
  using assms
  by (cases "m_type m")
     (auto simp: live_message_def handleMessage_def Let_def fold_emit_log fold_map comp_def
       intro!: fold_deliver_open split: if_splits)

lemma live_message_buffer0:
  "fd_buffer (ct_feed0 (live_message m ct)) =
     (case (m_candle m, registered m (ct_client ct)) of
        (Some bc, Some cb) \<Rightarrow>
          (if cb_owner cb = 0 \<and> (m_type m = T_update \<and> cb_onUpdate cb \<or> m_type m = T_close \<and> cb_onClose cb)
           then Some (ws_mapBackendCandle bc) else fd_buffer (ct_feed0 ct))
      | _ \<Rightarrow> fd_buffer (ct_feed0 ct))"
proof (cases "(m_type m = T_update \<or> m_type m = T_close) \<and> m_candle m \<noteq> None")
  case True
  then obtain bc where "m_type m = T_update \<or> m_type m = T_close" "m_candle m = Some bc" by auto
  from live_message_data [OF this, of ct] this show ?thesis by (auto simp: receive_def split: option.splits)
next
  case False
  then show ?thesis by (auto simp: live_message_other split: option.splits)
qed

lemma live_message_buffer1:
  "fd_buffer (ct_feed1 (live_message m ct)) =
     (case (m_candle m, registered m (ct_client ct)) of
        (Some bc, Some cb) \<Rightarrow>
          (if cb_owner cb \<noteq> 0 \<and> (m_type m = T_update \<and> cb_onUpdate cb \<or> m_type m = T_close \<and> cb_onClose cb)
           then Some (ws_mapBackendCandle bc) else fd_buffer (ct_feed1 ct))
      | _ \<Rightarrow> fd_buffer (ct_feed1 ct))"
proof (cases "(m_type m = T_update \<or> m_type m = T_close) \<and> m_candle m \<noteq> None")
  case True
  then obtain bc where "m_type m = T_update \<or> m_type m = T_close" "m_candle m = Some bc" by auto
  from live_message_data [OF this, of ct] this show ?thesis by (auto simp: receive_def split: option.splits)
next
  case False
  then show ?thesis by (auto simp: live_message_other split: option.splits)
qed

lemmas user_sets_defs =
  user_sets0_def user_sets1_def subscription_effect0_def subscription_effect1_def
  subscription_cleanup0_def subscription_cleanup1_def Let_def

text \<open>The callbacks after a changed setting of a chart that holds the client.\<close>

lemma user_sets0_callbacks:
  assumes "charts_inv ct" "ct_isTickingAll ct"
  shows "map_of (w_subCallbacks (ct_client (user_sets0 st ct))) k =
    (if k = makeSubKey (sub_of st) then Some (chart_callbacks 0)
     else if \<exists>s. ct_prevSub0 ct = Some s \<and> k = makeSubKey s then None
     else map_of (w_subCallbacks (ct_client ct)) k)"
  using assms
  by (auto simp: charts_inv_def user_sets_defs subscribe_callbacks drop_prev_callbacks change_setting_def
      simp del: subscribe_fields)

lemma user_sets1_callbacks:
  assumes "charts_inv ct" "ct_isTickingAll ct"
  shows "map_of (w_subCallbacks (ct_client (user_sets1 st ct))) k =
    (if k = makeSubKey (sub_of st) then Some (chart_callbacks 1)
     else if \<exists>s. ct_prevSub1 ct = Some s \<and> k = makeSubKey s then None
     else map_of (w_subCallbacks (ct_client ct)) k)"
  using assms
  by (auto simp: charts_inv_def user_sets_defs subscribe_callbacks drop_prev_callbacks change_setting_def
      simp del: subscribe_fields)

lemma user_sets_frame [simp]:
  "ct_isTickingAll (user_sets0 st ct) = ct_isTickingAll ct" "ct_isTickingAll (user_sets1 st ct) = ct_isTickingAll ct"
  "ct_prevSub1 (user_sets0 st ct) = ct_prevSub1 ct" "ct_prevSub0 (user_sets1 st ct) = ct_prevSub0 ct"
  "ct_feed1 (user_sets0 st ct) = ct_feed1 ct" "ct_feed0 (user_sets1 st ct) = ct_feed0 ct"
  "ct_feed0 (user_sets0 st ct) = change_setting st (ct_feed0 ct)"
  "ct_feed1 (user_sets1 st ct) = change_setting st (ct_feed1 ct)"
  by (simp_all add: user_sets_defs)

lemma change_setting_frame [simp]:
  "fd_buffer (change_setting st f) = fd_buffer f" "fd_candles (change_setting st f) = fd_candles f"
  "fd_setting (change_setting st f) = st"
  by (simp_all add: change_setting_def)

lemma user_sets_prevSub:
  assumes "charts_inv ct" "ct_isTickingAll ct"
  shows "ct_prevSub0 (user_sets0 st ct) = Some (sub_of st)" "ct_prevSub1 (user_sets1 st ct) = Some (sub_of st)"
  using assms by (simp_all add: charts_inv_def user_sets_defs)

lemma toggle_frame [simp]:
  "ct_isTickingAll (toggle_ticking ct) = (\<not> ct_isTickingAll ct)"
  "ct_prevSub0 (toggle_ticking ct) = ct_prevSub0 ct" "ct_armed0 (toggle_ticking ct) = ct_armed0 ct"
  "w_subCallbacks (ct_client (toggle_ticking ct)) = w_subCallbacks (ct_client ct)"
  "ct_feed0 (toggle_ticking ct) = ct_feed0 ct" "ct_feed1 (toggle_ticking ct) = ct_feed1 ct"
  by (simp_all add: toggle_ticking_def connection_effect0_def connection_effect1_def Let_def)

lemma paused_user_sets0_unarmed:
  "charts_inv ct \<Longrightarrow> \<not> ct_isTickingAll ct \<Longrightarrow> \<not> ct_armed0 (user_sets0 st ct)"
  by (simp add: charts_inv_def user_sets_defs)

text \<open>Without a cleanup there is no subscription, and then no message reaches the chart.\<close>

lemma unarmed_chart_is_deaf:
  assumes "charts_inv ct" "\<not> ct_armed0 ct"
  shows "fd_buffer (ct_feed0 (live_message m ct)) = fd_buffer (ct_feed0 ct)"
proof -
  have "cb_owner cb \<noteq> 0" if "registered m (ct_client ct) = Some cb" for cb
  proof -
    from that obtain k where "map_of (w_subCallbacks (ct_client ct)) k = Some cb"
      by (auto simp: registered_def split: option.splits)
    then have "cb = chart_callbacks 1" using assms by (fastforce simp: charts_inv_def own_callbacks_def)
    then show ?thesis by (simp add: chart_callbacks_def)
  qed
  then show ?thesis by (auto simp: live_message_buffer0 split: option.splits)
qed

subsection \<open>Candles of one setting\<close>

text \<open>
  The steps of a feed between two changes of its setting, on candles tagged with the setting they belong
  to. The backend answers a request with candles of the setting it was made for, and the live candle is
  of the subscribed setting, the current one.
\<close>

definition all_of :: "setting \<Rightarrow> (setting \<times> 'b) list \<Rightarrow> bool" where
  "all_of st xs \<longleftrightarrow> (\<forall>x\<in>set xs. fst x = st)"

inductive feed_step ::
  "('b \<Rightarrow> number) \<Rightarrow> (setting \<Rightarrow> number option) \<Rightarrow> (setting \<times> 'b) feed \<Rightarrow> (setting \<times> 'b) feed \<Rightarrow> bool"
  for ts maxc where
  loaded: "rq \<in> set (fd_loads f) \<Longrightarrow> pred_option (all_of (snd rq)) resp \<Longrightarrow>
     feed_step ts maxc f (load_response maxc rq resp f)"
| more_wanted: "feed_step ts maxc f (handleLoadMore t f)"
| more_loaded: "rq \<in> set (fd_mores f) \<Longrightarrow> pred_option (all_of (fst rq)) resp \<Longrightarrow>
     feed_step ts maxc f (more_response maxc rq resp f)"
| received: "feed_step ts maxc f (receive (fd_setting f, b) f)"
| flushed: "feed_step ts maxc f (flush (\<lambda>c. ts (snd c)) maxc f)"

definition of_setting :: "(setting \<times> 'b) feed \<Rightarrow> bool" where
  "of_setting f \<longleftrightarrow>
     all_of (fd_setting f) (fd_candles f) \<and> pred_option (\<lambda>c. fst c = fd_setting f) (fd_buffer f) \<and>
     (\<forall>rq\<in>set (fd_mores f). fst rq = fd_setting f) \<and>
     (\<forall>rq\<in>set (fd_loads f). fst rq = fd_gen f \<longrightarrow> snd rq = fd_setting f)"

lemma all_of_simps [simp]:
  "all_of st []" "all_of st (x # xs) \<longleftrightarrow> fst x = st \<and> all_of st xs"
  "all_of st (xs @ ys) \<longleftrightarrow> all_of st xs \<and> all_of st ys"
  by (auto simp: all_of_def)

lemma all_of_keep_last: "all_of st xs \<Longrightarrow> all_of st (keep_last m xs)"
  using keep_last_subset [of m xs] by (auto simp: all_of_def)

lemma all_of_flush:
  assumes "all_of st xs" "fst c = st"
  shows "all_of st (flush_candles ts m c xs)"
proof (cases xs rule: rev_cases)
  case Nil
  then show ?thesis using assms by (simp add: flush_candles_cases)
next
  case (snoc ys y)
  consider "ts y < ts c" | "ts c = ts y" | "ts c < ts y" by (rule linorder_cases [of "ts y" "ts c"]) auto
  then show ?thesis
    using assms snoc by cases (simp_all add: flush_candles_cases all_of_keep_last)
qed

lemma in_remove1: "x \<in> set (remove1 y xs) \<Longrightarrow> x \<in> set xs"
  using set_remove1_subset [of y xs] by blast

lemma of_setting_loaded:
  assumes "of_setting f" "rq \<in> set (fd_loads f)" "pred_option (all_of (snd rq)) resp"
  shows "of_setting (load_response maxc rq resp f)"
proof (cases "fst rq = fd_gen f")
  case True
  then have "snd rq = fd_setting f" using assms(1,2) by (simp add: of_setting_def)
  then show ?thesis
    using assms True
    by (cases resp) (auto simp: of_setting_def load_response_def Let_def all_of_keep_last dest: in_remove1)
next
  case False
  then show ?thesis using assms by (auto simp: of_setting_def load_response_def Let_def dest: in_remove1)
qed

lemma of_setting_more:
  assumes "of_setting f" "rq \<in> set (fd_mores f)" "pred_option (all_of (fst rq)) resp"
  shows "of_setting (more_response maxc rq resp f)"
proof -
  have "fst rq = fd_setting f" using assms(1,2) by (simp add: of_setting_def)
  then show ?thesis
    using assms
    by (cases resp)
       (auto simp: of_setting_def more_response_def Let_def prepend_candles_def all_of_keep_last dest: in_remove1)
qed

lemma of_setting_step: "feed_step ts maxc f f' \<Longrightarrow> of_setting f \<Longrightarrow> of_setting f'"
proof (induction rule: feed_step.induct)
  case (flushed f)
  then show ?case
    by (cases "fd_buffer f") (simp_all add: of_setting_def flush_def all_of_flush)
qed (simp_all add: of_setting_loaded of_setting_more,
     auto simp: of_setting_def handleLoadMore_def receive_def)

lemma feed_step_setting: "feed_step ts maxc f f' \<Longrightarrow> fd_setting f' = fd_setting f"
  by (induction rule: feed_step.induct)
     (auto simp: load_response_def more_response_def handleLoadMore_def receive_def flush_def Let_def
       split: option.splits)

section \<open>Properties\<close>

text \<open>
  A flush of a live candle keeps the chart in strict chronological order and within its limit, ends with
  that candle unless it is older than the chart's last one, and never touches an earlier candle: the new
  array is the old one, possibly shortened at the front, with at most its last candle replaced or one added.
\<close>

theorem flush_keeps_order_and_limit:
  assumes "chronological ts prev" "1 \<le> n" "real (length prev) \<le> n"
  shows "chronological ts (flush_candles ts (Some n) candle prev) \<and>
         real (length (flush_candles ts (Some n) candle prev)) \<le> n \<and>
         (if prev \<noteq> [] \<and> ts candle < ts (last prev) then flush_candles ts (Some n) candle prev = prev
          else last (flush_candles ts (Some n) candle prev) = candle \<and>
               set (butlast (flush_candles ts (Some n) candle prev)) \<subseteq> set prev)"
proof (intro conjI)
  show "chronological ts (flush_candles ts (Some n) candle prev)"
    by (rule flush_candles_chronological [OF assms(1)])
  show "real (length (flush_candles ts (Some n) candle prev)) \<le> n"
    by (rule flush_candles_length [OF assms(2,3)])
  show "if prev \<noteq> [] \<and> ts candle < ts (last prev) then flush_candles ts (Some n) candle prev = prev
        else last (flush_candles ts (Some n) candle prev) = candle \<and>
             set (butlast (flush_candles ts (Some n) candle prev)) \<subseteq> set prev"
    using flush_candles_last [OF assms(2), of prev ts candle] flush_candles_older [of prev ts candle "Some n"]
    by (cases "prev \<noteq> [] \<and> ts candle < ts (last prev)") (simp_all add: not_less)
qed

theorem flush_keeps_order_and_limit_witness:
  "real (length (flush_candles id (Some 2) (3::number) [1, 2])) \<le> 2 \<and>
   last (flush_candles id (Some 2) (3::number) [1, 2]) = 3"
  using flush_keeps_order_and_limit [of id "[1, 2 :: number]" 2 3] by (simp add: chronological_def)

text \<open>
  At its limit a chart cannot be extended into the past: when it already holds as many candles as the
  tier allows, a history response changes nothing, however many older candles it brings.
\<close>

theorem load_more_at_limit_is_noop:
  assumes "0 < n" "length (fd_candles f) = n" "maxc (fst rq) = Some (real n)"
  shows "fd_candles (more_response maxc rq (Some older) f) = fd_candles f"
  using assms
  by (simp add: more_response_def Let_def prepend_candles_def keep_last_def slice_last_of_nat)

definition wit_setting :: setting where
  "wit_setting = \<lparr>se_symbol = ''BTCUSDT'', se_marketType = ''SPOT'', se_interval = ''15m'', se_multiplier = 1\<rparr>"

definition wit_feed :: "'c list \<Rightarrow> 'c feed" where
  "wit_feed cs = \<lparr>fd_setting = wit_setting, fd_gen = 0, fd_candles = cs, fd_buffer = None, fd_loadId = 0,
     fd_loadingMore = False, fd_loads = [], fd_mores = []\<rparr>"

theorem load_more_at_limit_is_noop_witness:
  "fd_candles (more_response (\<lambda>_. Some 2) (wit_setting, 9) (Some [7, 8]) (wit_feed [10, 20 :: number])) = [10, 20]"
  using load_more_at_limit_is_noop [of 2 "wit_feed [10, 20 :: number]" "\<lambda>_. Some 2" "(wit_setting, 9)" "[7, 8]"]
  by (simp add: wit_feed_def)

text \<open>
  Two charts on different settings each get their own live data: after chart 0 is set to \<open>st0\<close> and chart 1
  to \<open>st1\<close> with different subscriptions (and chart 1 did not show \<open>st0\<close> before), an update for \<open>st0\<close> is
  buffered for chart 0 only and an update for \<open>st1\<close> for chart 1 only.
\<close>

theorem distinct_charts_get_their_updates:
  assumes "charts_reachable ct" "ct_isTickingAll ct"
    "makeSubKey (sub_of st0) \<noteq> makeSubKey (sub_of st1)"
    "\<forall>s. ct_prevSub1 ct = Some s \<longrightarrow> makeSubKey s \<noteq> makeSubKey (sub_of st0)"
    "m_type m = T_update" "m_candle m = Some bc"
  defines "ct' \<equiv> user_sets1 st1 (user_sets0 st0 ct)"
  shows "(msg_key m = Some (makeSubKey (sub_of st0)) \<longrightarrow>
            fd_buffer (ct_feed0 (live_message m ct')) = Some (ws_mapBackendCandle bc) \<and>
            fd_buffer (ct_feed1 (live_message m ct')) = fd_buffer (ct_feed1 ct')) \<and>
         (msg_key m = Some (makeSubKey (sub_of st1)) \<longrightarrow>
            fd_buffer (ct_feed1 (live_message m ct')) = Some (ws_mapBackendCandle bc) \<and>
            fd_buffer (ct_feed0 (live_message m ct')) = fd_buffer (ct_feed0 ct'))"
proof -
  have inv: "charts_inv ct" "charts_inv (user_sets0 st0 ct)"
    using charts_reachable_inv [OF assms(1)] charts_inv_user_sets0 by auto
  have "map_of (w_subCallbacks (ct_client ct')) (makeSubKey (sub_of st0)) = Some (chart_callbacks 0)"
    "map_of (w_subCallbacks (ct_client ct')) (makeSubKey (sub_of st1)) = Some (chart_callbacks 1)"
    using assms(2-4) unfolding ct'_def
    by (auto simp: user_sets1_callbacks [OF inv(2)] user_sets0_callbacks [OF inv(1)])
  then show ?thesis
    using assms(5,6) by (simp add: live_message_buffer0 live_message_buffer1 registered_def chart_callbacks_def)
qed


text \<open>
  A setting changed while the live mode is paused stays without live data: after the pause, the change and
  the resumption the chart holds the client again and shows the new setting, yet no message of any kind
  ever reaches its buffer, because nothing runs its subscription effect.
\<close>

theorem change_while_paused_is_deaf:
  assumes "charts_reachable ct" "ct_isTickingAll ct"
  shows "(let ct' = toggle_ticking (user_sets0 st (toggle_ticking ct)) in
          ct_isTickingAll ct' \<and> ct_clientRef0 ct' \<and> fd_setting (ct_feed0 ct') = st \<and>
          (\<forall>m. fd_buffer (ct_feed0 (live_message m ct')) = fd_buffer (ct_feed0 ct')))"
proof -
  have inv: "charts_inv (toggle_ticking ct)" using charts_reachable_inv [OF assms(1)] by (rule charts_inv_toggle)
  define ct' where "ct' = toggle_ticking (user_sets0 st (toggle_ticking ct))"
  have "charts_inv ct'" using inv by (simp add: ct'_def charts_inv_toggle charts_inv_user_sets0)
  moreover have "\<not> ct_armed0 ct'"
    using paused_user_sets0_unarmed [OF inv] assms(2) by (simp add: ct'_def)
  ultimately show ?thesis
    using unarmed_chart_is_deaf [of ct'] assms(2) unfolding Let_def ct'_def [symmetric]
    by (simp add: charts_inv_def) (simp add: ct'_def)
qed

text \<open>
  C9. Between two changes of its setting a chart shows candles of that setting only: if the candles, the buffer and
  the outstanding history requests belong to the current setting, then no sequence of loads, history
  requests and responses, live candles and flushes brings in a candle of another one.
\<close>

theorem chart_shows_one_setting:
  assumes "(feed_step ts maxc)\<^sup>*\<^sup>* f f'" "of_setting f"
  shows "fd_setting f' = fd_setting f \<and> of_setting f'"
  using assms by (induction rule: rtranclp_induct) (simp_all add: of_setting_step feed_step_setting)

text \<open>
  A load response that comes too late is ignored, one that is current replaces everything that was shown: whatever
  the chart held, afterwards it holds the last candles of the response up to the limit of the setting it was made for.
\<close>

theorem only_current_load_is_shown:
  assumes "rq \<in> set (fd_loads f)"
  shows "(fst rq \<noteq> fd_gen f \<longrightarrow> fd_candles (load_response maxc rq resp f) = fd_candles f) \<and>
         (fst rq = fd_gen f \<longrightarrow> fd_candles (load_response maxc rq resp f) =
            (case resp of Some cs \<Rightarrow> keep_last (maxc (snd rq)) cs | None \<Rightarrow> [])) \<and>
         (\<forall>st. fd_candles (load_response maxc rq resp (change_setting st f)) = fd_candles f \<or>
               fst rq = Suc (fd_gen f))"
  by (auto simp: load_response_def Let_def change_setting_def split: option.splits)

text \<open>
  A history request is not tied to the setting it was made for: when the setting changes while the request
  is under way and the new candles arrive first, the late response is put in front of them, and the chart
  shows candles of the two settings together.
\<close>

theorem late_history_mixes_settings:
  assumes "\<not> fd_loadingMore f" "0 < n" "length old + length new \<le> n"
    "maxc (fd_setting f) = Some (real n)" "maxc st = Some (real n)"
  shows "(let f1 = change_setting st (handleLoadMore t f);
              f2 = load_response maxc (Suc (fd_gen f), st) (Some (map (Pair st) new)) f1;
              f3 = more_response maxc (fd_setting f, js_floor (t / 1000)) (Some (map (Pair (fd_setting f)) old)) f2
          in fd_setting f3 = st \<and> fd_candles f3 = map (Pair (fd_setting f)) old @ map (Pair st) new)"
  using assms
  by (simp add: Let_def change_setting_def handleLoadMore_def load_response_def more_response_def
      prepend_candles_def keep_last_def slice_last_of_nat)

subsection \<open>Witnesses\<close>

definition wit_st :: "string \<Rightarrow> setting" where
  "wit_st sy = \<lparr>se_symbol = sy, se_marketType = ''SPOT'', se_interval = ''15m'', se_multiplier = 1\<rparr>"

definition wit_cfeed :: "'c feed" where
  "wit_cfeed = \<lparr>fd_setting = wit_setting, fd_gen = 0, fd_candles = [], fd_buffer = None, fd_loadId = 0,
     fd_loadingMore = False, fd_loads = [], fd_mores = []\<rparr>"

definition wit_charts :: charts where
  "wit_charts = mount (charts_new wit_cfg EMPTY_PAIRS wit_cfeed wit_cfeed)"

definition wit_update :: "string \<Rightarrow> int \<Rightarrow> ws_msg" where
  "wit_update sy k = \<lparr>m_type = T_update, m_symbol = Some sy, m_market = Some ''spot'', m_tf = Some ''15m'',
     m_compression = Some k, m_candle = Some wit_ws_candle\<rparr>"

lemma wit_charts_ok: "charts_reachable wit_charts" "ct_isTickingAll wit_charts"
  "ct_prevSub1 wit_charts = Some (sub_of wit_setting)"
proof -
  show "charts_reachable wit_charts" unfolding wit_charts_def by (rule charts_reachable.mounted)
  show "ct_isTickingAll wit_charts" "ct_prevSub1 wit_charts = Some (sub_of wit_setting)"
    by (simp_all add: wit_charts_def mount_def charts_new_def connection_effect0_def connection_effect1_def
        subscription_effect0_def subscription_effect1_def Let_def wit_cfeed_def)
qed

lemma wit_btc: "str_includes (toUpperCase ''BTCUSDT'') ''BTC''" "\<not> str_includes (toUpperCase ''ETHUSDT'') ''BTC''"
  by code_simp+

lemma wit_keys:
  "sub_of (wit_st ''ETHUSDT'') = \<lparr>sub_symbol = ''ETHUSDT'', sub_market = ''spot'', sub_tf = ''15m'', sub_compression = 25\<rparr>"
  "sub_of (wit_st ''BTCUSDT'') = \<lparr>sub_symbol = ''BTCUSDT'', sub_market = ''spot'', sub_tf = ''15m'', sub_compression = 500\<rparr>"
  "sub_of wit_setting = \<lparr>sub_symbol = ''BTCUSDT'', sub_market = ''spot'', sub_tf = ''15m'', sub_compression = 500\<rparr>"
  "makeSubKey (sub_of (wit_st ''ETHUSDT'')) \<noteq> makeSubKey (sub_of (wit_st ''BTCUSDT''))"
  by (simp_all add: sub_of_def wit_st_def wit_setting_def market_of_def isFutures_def compression_def
      baseCompression_def makeSubKey_def wit_btc)

lemma wit_msg_key:
  "msg_key (wit_update ''BTCUSDT'' 500) = Some (makeSubKey (sub_of (wit_st ''BTCUSDT'')))"
  "msg_key (wit_update ''ETHUSDT'' 25) = Some (makeSubKey (sub_of (wit_st ''ETHUSDT'')))"
  "m_type (wit_update sy k) = T_update" "m_candle (wit_update sy k) = Some wit_ws_candle"
  by (simp_all add: wit_update_def msg_key_def truthy_str_def wit_keys)

theorem distinct_charts_get_their_updates_witness:
  "fd_buffer (ct_feed0 (live_message (wit_update ''ETHUSDT'' 25)
     (user_sets1 (wit_st ''BTCUSDT'') (user_sets0 (wit_st ''ETHUSDT'') wit_charts)))) =
   Some (ws_mapBackendCandle wit_ws_candle)"
  using distinct_charts_get_their_updates [OF wit_charts_ok(1,2) wit_keys(4), of "wit_update ''ETHUSDT'' 25" wit_ws_candle]
  by (simp add: wit_charts_ok wit_keys wit_msg_key makeSubKey_def)


theorem change_while_paused_is_deaf_witness:
  "fd_buffer (ct_feed0 (live_message (wit_update ''ETHUSDT'' 25)
     (toggle_ticking (user_sets0 (wit_st ''ETHUSDT'') (toggle_ticking wit_charts))))) = fd_buffer (ct_feed0 wit_charts)"
  using change_while_paused_is_deaf [OF wit_charts_ok(1,2), of "wit_st ''ETHUSDT''"]
  by (simp add: Let_def)

theorem chart_shows_one_setting_witness:
  "of_setting (receive (wit_setting, 5 :: number) (wit_feed [(wit_setting, 4)]))"
proof -
  have "(feed_step id (\<lambda>_. None))\<^sup>*\<^sup>* (wit_feed [(wit_setting, 4)])
     (receive (wit_setting, 5 :: number) (wit_feed [(wit_setting, 4)]))"
    using feed_step.received [of id "\<lambda>_. None" "wit_feed [(wit_setting, 4)]" 5]
    by (auto simp: wit_feed_def)
  moreover have "of_setting (wit_feed [(wit_setting, 4 :: number)])"
    by (simp add: of_setting_def wit_feed_def)
  ultimately show ?thesis using chart_shows_one_setting by blast
qed

theorem only_current_load_is_shown_witness:
  "fd_candles (load_response (\<lambda>_. Some 2) (1, wit_setting) (Some [4, 5, 6 :: number])
     (change_setting wit_setting (wit_feed [1]))) = [5, 6]"
  using only_current_load_is_shown [of "(1, wit_setting)" "change_setting wit_setting (wit_feed [1 :: number])"
      "\<lambda>_. Some 2" "Some [4, 5, 6]"]
  by (simp add: change_setting_def wit_feed_def keep_last_def slice_last_of_nat [of 2, simplified])

theorem late_history_mixes_settings_witness:
  "fd_candles (more_response (\<lambda>_. Some 4) (wit_setting, 9) (Some [(wit_setting, 1)])
     (load_response (\<lambda>_. Some 4) (1, wit_st ''ETHUSDT'')
        (Some [(wit_st ''ETHUSDT'', 3), (wit_st ''ETHUSDT'', 4)])
        (change_setting (wit_st ''ETHUSDT'') (handleLoadMore 9000 (wit_feed [] :: (setting \<times> nat) feed))))) =
   [(wit_setting, 1), (wit_st ''ETHUSDT'', 3), (wit_st ''ETHUSDT'', 4)]"
proof -
  have f: "\<not> fd_loadingMore (wit_feed [] :: (setting \<times> nat) feed)"
    "fd_setting (wit_feed [] :: (setting \<times> nat) feed) = wit_setting"
    "fd_gen (wit_feed [] :: (setting \<times> nat) feed) = 0"
    by (simp_all add: wit_feed_def)
  have t: "js_floor (9000 / 1000) = 9" by (simp add: js_floor_def)
  have "length [1 :: nat] + length [3 :: nat, 4] \<le> 4" "(0 :: nat) < 4" "Some (4 :: number) = Some (real 4)"
    by simp_all
  note late_history_mixes_settings [OF f(1) this(2,1), of "\<lambda>_. Some 4" "wit_st ''ETHUSDT''" 9000,
      OF this(3) this(3), unfolded Let_def f(2,3) t One_nat_def [symmetric] list.map append.simps]
  then show ?thesis by (rule conjunct2)
qed

end
