(* ===== verification/MarketData.thy ===== *)
theory MarketData
  imports CandleMap
begin

text \<open>
  Candles, footprint cells and order book depth computed in the browser from the exchange's public
  data (\<open>frontend-chart/src/lib/marketData.ts\<close>): aggregation of raw trades into candles of a fixed number of
  ticks, the spread of a kline's volume over its price levels, and the bucketed depth of the book.

  What the network answers is an argument: a \<open>fetch_result\<close> per request. The decimal strings of the
  exchange are read as the numbers they denote. An object used as a map from prices is an
  association list in insertion order; \<open>object_keys\<close> lists the keys as \<open>Object.keys\<close> does, the array
  indices first, ascending, then the others.
\<close>

datatype 'a fetch_result = NetworkError | HttpStatus nat | Body 'a

datatype market_error = ApiStatus nat | FetchFailed | InvalidFormat

definition is_index :: "number \<Rightarrow> bool" where
  "is_index k \<longleftrightarrow> 0 \<le> k \<and> js_floor k = k \<and> k < 4294967295"

definition object_keys :: "(number \<times> 'v) list \<Rightarrow> number list" where
  "object_keys m = sort (filter is_index (map fst m)) @ filter (\<lambda>k. \<not> is_index k) (map fst m)"

definition bucket_floor :: "number \<Rightarrow> number \<Rightarrow> number" where
  "bucket_floor priceStep p = toFixed 4 (js_floor (p / priceStep) * priceStep)"

definition bucket_ceil :: "number \<Rightarrow> number \<Rightarrow> number" where
  "bucket_ceil priceStep p = toFixed 4 (js_ceil (p / priceStep) * priceStep)"

section \<open>Candles from raw trades\<close>

record trade =
  t_a :: int
  t_p :: number
  t_q :: number
  t_T :: number
  t_m :: bool

record flow =
  fl_bid :: number
  fl_ask :: number
  fl_volume :: number

type_synonym cell_map = "(number \<times> flow) list"

definition add_trade :: "number \<Rightarrow> trade \<Rightarrow> cell_map \<Rightarrow> cell_map" where
  "add_trade priceStep t m =
     (let roundedPrice = bucket_floor priceStep (t_p t);
          e = (case map_of m roundedPrice of Some e \<Rightarrow> e | None \<Rightarrow> \<lparr>fl_bid = 0, fl_ask = 0, fl_volume = 0\<rparr>);
          e1 = (if t_m t then e\<lparr>fl_bid := fl_bid e + t_q t\<rparr> else e\<lparr>fl_ask := fl_ask e + t_q t\<rparr>)
      in AList.update roundedPrice (e1\<lparr>fl_volume := fl_volume e1 + t_q t\<rparr>) m)"

definition cell_map :: "number \<Rightarrow> trade list \<Rightarrow> cell_map" where
  "cell_map priceStep chunk = fold (add_trade priceStep) chunk []"

definition raw_cells :: "cell_map \<Rightarrow> cell list" where
  "raw_cells m =
     map (\<lambda>p. let e = the (map_of m p) in
            \<lparr>cell_price = p, cell_bid = toFixed 4 (fl_bid e), cell_ask = toFixed 4 (fl_ask e),
             cell_volume = toFixed 4 (fl_volume e),
             isPoc = False, isBuyImbalance = False, isSellImbalance = False\<rparr>)
       (object_keys m)"

text \<open>The imbalance flags of a cell against the average volume of the \<open>n\<close> cells.\<close>

definition buy_imbalance :: "number \<Rightarrow> nat \<Rightarrow> number \<Rightarrow> number \<Rightarrow> number \<Rightarrow> bool" where
  "buy_imbalance totalVolume n bid ask volume \<longleftrightarrow>
     ask > bid * (9 / 5) \<and> volume > (totalVolume / real n) * (2 / 5)"

definition sell_imbalance :: "number \<Rightarrow> nat \<Rightarrow> number \<Rightarrow> number \<Rightarrow> number \<Rightarrow> bool" where
  "sell_imbalance totalVolume n bid ask volume \<longleftrightarrow>
     bid > ask * (9 / 5) \<and> volume > (totalVolume / real n) * (2 / 5)"

definition mark_cell :: "number \<Rightarrow> number \<Rightarrow> nat \<Rightarrow> cell \<Rightarrow> cell" where
  "mark_cell pocPrice totalVolume n c =
     c\<lparr>isPoc := (if cell_price c = pocPrice then True else isPoc c),
       isBuyImbalance := buy_imbalance totalVolume n (cell_bid c) (cell_ask c) (cell_volume c),
       isSellImbalance := sell_imbalance totalVolume n (cell_bid c) (cell_ask c) (cell_volume c)\<rparr>"

definition candle_of_chunk :: "number \<Rightarrow> trade list \<Rightarrow> candle" where
  "candle_of_chunk priceStep chunk =
     (let prices = map t_p chunk;
          open' = hd prices; close' = last prices;
          high = Max (set prices); low = Min (set prices);
          totalVolume = sum_by t_q chunk;
          cells0 = raw_cells (cell_map priceStep chunk);
          pocPrice = snd (poc_scan 0 ((open' + close') / 2) cells0);
          cells = sort_desc cell_price (map (mark_cell pocPrice totalVolume (length cells0)) cells0);
          va = value_area (totalVolume * (7 / 10)) cells;
          totalBid = sum_by cell_bid cells; totalAsk = sum_by cell_ask cells
      in \<lparr>c_timestamp = t_T (last chunk), c_open = toFixed 4 open', c_high = toFixed 4 high,
          c_low = toFixed 4 low, c_close = toFixed 4 close', c_volume = toFixed 4 totalVolume,
          c_delta = toFixed 4 (totalAsk - totalBid), c_pocPrice = toFixed 4 pocPrice, c_cells = cells,
          c_vah = toFixed 4 (max_price high va), c_val = toFixed 4 (min_price low va),
          c_tickCount = Some (length chunk)\<rparr>)"

text \<open>
  \<open>for (i = 0; i < all.length; i += n) chunk = all.slice(i, i + n)\<close>: with \<open>n = 0\<close> the loop never ends.
\<close>

partial_function (option) tick_chunks :: "nat \<Rightarrow> 'a list \<Rightarrow> 'a list list option" where
  "tick_chunks n xs =
     (if xs = [] then Some []
      else Option.bind (tick_chunks n (drop n xs)) (\<lambda>cs. Some (take n xs # cs)))"

definition aggregate_ticks :: "number \<Rightarrow> nat \<Rightarrow> trade list \<Rightarrow> candle list option" where
  "aggregate_ticks priceStep compressionTicks allTrades =
     map_option (\<lambda>cs. map (candle_of_chunk priceStep) (filter (\<lambda>c. \<not> length c < 5) cs))
       (tick_chunks compressionTicks allTrades)"

text \<open>A page that fails, or whose answer is not an array, counts as empty.\<close>

definition page_trades :: "trade list option fetch_result \<Rightarrow> trade list" where
  "page_trades r = (case r of Body (Some ts) \<Rightarrow> ts | _ \<Rightarrow> [])"

definition targetFromId :: "int \<Rightarrow> int \<Rightarrow> int" where
  "targetFromId firstId i = max 1 (firstId - i * 1000)"

definition all_trades :: "trade list \<Rightarrow> (int \<Rightarrow> trade list option fetch_result) \<Rightarrow> trade list" where
  "all_trades latestTrades fetch_page =
     (let firstId = t_a (hd latestTrades);
          results = map (\<lambda>i. page_trades (fetch_page (targetFromId firstId i))) [1, 2, 3]
      in sort_key t_a (foldl (@) latestTrades results))"

text \<open>The outcome: never (\<open>None\<close>), an error, or the candles.\<close>

definition fetchBinanceTicksAndAggregate ::
  "candle list option fetch_result \<Rightarrow> trade list option fetch_result \<Rightarrow>
   (int \<Rightarrow> trade list option fetch_result) \<Rightarrow> number \<Rightarrow> nat \<Rightarrow> (market_error + candle list) option" where
  "fetchBinanceTicksAndAggregate server latest fetch_page priceStep compressionTicks =
     (case server of
        Body (Some (c # cs)) \<Rightarrow> Some (Inr (c # cs))
      | _ \<Rightarrow>
        (case latest of
           NetworkError \<Rightarrow> Some (Inl FetchFailed)
         | HttpStatus s \<Rightarrow> Some (Inl (ApiStatus s))
         | Body None \<Rightarrow> Some (Inr [])
         | Body (Some []) \<Rightarrow> Some (Inr [])
         | Body (Some (t # ts)) \<Rightarrow>
             map_option Inr (aggregate_ticks priceStep compressionTicks (all_trades (t # ts) fetch_page))))"

section \<open>Cells for klines\<close>

record kline =
  k_time :: number
  k_open :: number
  k_high :: number
  k_low :: number
  k_close :: number
  k_volume :: number
  k_takerBuyVol :: number

definition startPrice :: "number \<Rightarrow> kline \<Rightarrow> number" where
  "startPrice priceStep k = js_floor (k_low k / priceStep) * priceStep"

definition endPrice :: "number \<Rightarrow> kline \<Rightarrow> number" where
  "endPrice priceStep k = js_ceil (k_high k / priceStep) * priceStep"

definition activePriceStep :: "number \<Rightarrow> kline \<Rightarrow> number" where
  "activePriceStep priceStep k =
     (let rangeUnits = js_round ((endPrice priceStep k - startPrice priceStep k) / priceStep) in
      if rangeUnits > 250 then priceStep * js_ceil (rangeUnits / 250) else priceStep)"

function count_loop :: "number \<Rightarrow> number \<Rightarrow> number \<Rightarrow> nat \<Rightarrow> nat" where
  "count_loop price endp stepp cellCount =
     (if price \<le> endp
      then if cellCount + 1 > 250 then cellCount + 1 else count_loop (price + stepp) endp stepp (cellCount + 1)
      else cellCount)"
  by pat_completeness auto
termination by (relation "measure (\<lambda>(_, _, _, n). 251 - n)") auto

declare count_loop.simps [simp del]

primrec level_prices :: "nat \<Rightarrow> number \<Rightarrow> number \<Rightarrow> number list" where
  "level_prices 0 price stepp = []"
| "level_prices (Suc n) price stepp = toFixed 4 price # level_prices n (price + stepp) stepp"

definition parsedLevels :: "number \<Rightarrow> kline \<Rightarrow> number list" where
  "parsedLevels priceStep k =
     (let s = startPrice priceStep k; e = endPrice priceStep k; st = activePriceStep priceStep k
      in level_prices (count_loop s e st 0) s st)"

definition level_weight :: "number \<Rightarrow> kline \<Rightarrow> number \<Rightarrow> number" where
  "level_weight priceStep k p =
     (let centerPrice = (k_open k + k_close k) / 2;
          maxPriceDistance = max (endPrice priceStep k - startPrice priceStep k) priceStep;
          dist = \<bar>p - centerPrice\<bar>
      in max (1 / 100) (exp (- ((dist / (maxPriceDistance * (9 / 20))) ^ 2))))"

record temp_cell =
  tc_price :: number
  tc_bid :: number
  tc_ask :: number
  tc_volume :: number

definition tempCells :: "number \<Rightarrow> kline \<Rightarrow> temp_cell list" where
  "tempCells priceStep k =
     (let levels = parsedLevels priceStep k;
          sumWeights = or_else (sum_by (level_weight priceStep k) levels) 1
      in map (\<lambda>p. let levelVol = k_volume k * (level_weight priceStep k p / sumWeights);
                       takerRatio = (if k_volume k > 0 then k_takerBuyVol k / k_volume k else 1 / 2)
                   in \<lparr>tc_price = p, tc_bid = levelVol * (1 - takerRatio), tc_ask = levelVol * takerRatio,
                       tc_volume = levelVol\<rparr>)
           levels)"

text \<open>The scan for the index of the largest cell; \<open>None\<close> is the initial -1.\<close>

definition poc_index :: "temp_cell list \<Rightarrow> nat option" where
  "poc_index cs =
     snd (foldl (\<lambda>(m, r) (c, idx). if tc_volume c > m then (tc_volume c, Some idx) else (m, r)) (0, None)
           (zip cs [0 ..< length cs]))"

definition final_cell :: "kline \<Rightarrow> nat \<Rightarrow> nat option \<Rightarrow> temp_cell \<times> nat \<Rightarrow> cell" where
  "final_cell k n pocIndex ci =
     (let c = fst ci in
      \<lparr>cell_price = tc_price c, cell_bid = toFixed 4 (tc_bid c), cell_ask = toFixed 4 (tc_ask c),
       cell_volume = toFixed 4 (tc_volume c), isPoc = (Some (snd ci) = pocIndex),
       isBuyImbalance = buy_imbalance (k_volume k) n (tc_bid c) (tc_ask c) (tc_volume c),
       isSellImbalance = sell_imbalance (k_volume k) n (tc_bid c) (tc_ask c) (tc_volume c)\<rparr>)"

definition finalCells :: "number \<Rightarrow> kline \<Rightarrow> cell list" where
  "finalCells priceStep k =
     (let cs = tempCells priceStep k
      in map (final_cell k (length cs) (poc_index cs)) (zip cs [0 ..< length cs]))"

definition candle_of_kline :: "number \<Rightarrow> kline \<Rightarrow> candle" where
  "candle_of_kline priceStep k =
     (let takerSellVol = max 0 (k_volume k - k_takerBuyVol k);
          sortedCells = sort_desc cell_price (finalCells priceStep k);
          va = value_area (k_volume k * (7 / 10)) sortedCells
      in \<lparr>c_timestamp = k_time k, c_open = toFixed 4 (k_open k), c_high = toFixed 4 (k_high k),
          c_low = toFixed 4 (k_low k), c_close = toFixed 4 (k_close k), c_volume = toFixed 4 (k_volume k),
          c_delta = toFixed 4 (k_takerBuyVol k - takerSellVol),
          c_pocPrice = (case find isPoc sortedCells of
                          Some c \<Rightarrow> cell_price c
                        | None \<Rightarrow> toFixed 4 ((k_open k + k_close k) / 2)),
          c_cells = sortedCells,
          c_vah = toFixed 4 (max_price (k_high k) va), c_val = toFixed 4 (min_price (k_low k) va),
          c_tickCount = None\<rparr>)"

definition fetchBinanceKlines ::
  "candle list option fetch_result \<Rightarrow> kline list option fetch_result \<Rightarrow> number \<Rightarrow> market_error + candle list" where
  "fetchBinanceKlines proxy direct priceStep =
     (case proxy of
        Body (Some (c # cs)) \<Rightarrow> Inr (c # cs)
      | _ \<Rightarrow>
        (case direct of
           NetworkError \<Rightarrow> Inl FetchFailed
         | HttpStatus s \<Rightarrow> Inl (ApiStatus s)
         | Body None \<Rightarrow> Inl InvalidFormat
         | Body (Some ks) \<Rightarrow> Inr (map (candle_of_kline priceStep) ks)))"

section \<open>Order book depth\<close>

definition add_level :: "(number \<Rightarrow> number) \<Rightarrow> number \<times> number \<Rightarrow> (number \<times> number) list \<Rightarrow> (number \<times> number) list" where
  "add_level bucket item agg =
     (let b = bucket (fst item) in
      AList.update b ((case map_of agg b of Some v \<Rightarrow> or_else v 0 | None \<Rightarrow> 0) + snd item) agg)"

definition aggregate_levels :: "(number \<Rightarrow> number) \<Rightarrow> (number \<times> number) list \<Rightarrow> (number \<times> number) list" where
  "aggregate_levels bucket items = fold (add_level bucket) items []"

fun cumulate :: "(number \<Rightarrow> number) \<Rightarrow> number \<Rightarrow> number list \<Rightarrow> order_book_row list" where
  "cumulate amount_of cum [] = []"
| "cumulate amount_of cum (p # ps) =
     \<lparr>row_price = p, row_amount = amount_of p, row_total = cum + amount_of p, row_percentage = 0\<rparr>
       # cumulate amount_of (cum + amount_of p) ps"

definition bid_rows :: "(number \<times> number) list \<Rightarrow> order_book_row list" where
  "bid_rows agg = cumulate (\<lambda>p. the (map_of agg p)) 0 (take 250 (sort_desc id (object_keys agg)))"

definition ask_rows :: "(number \<times> number) list \<Rightarrow> order_book_row list" where
  "ask_rows agg = cumulate (\<lambda>p. the (map_of agg p)) 0 (take 250 (sort (object_keys agg)))"

definition max_total :: "order_book_row list \<Rightarrow> order_book_row list \<Rightarrow> number" where
  "max_total bids asks =
     max (if bids = [] then 1 else row_total (last bids)) (if asks = [] then 1 else row_total (last asks))"

definition with_percentage :: "number \<Rightarrow> order_book_row \<Rightarrow> order_book_row" where
  "with_percentage maxTotal r = r\<lparr>row_percentage := row_total r / maxTotal * 100\<rparr>"

definition depth_rows ::
  "number \<Rightarrow> (number \<times> number) list \<Rightarrow> (number \<times> number) list \<Rightarrow> order_book" where
  "depth_rows priceStep bids asks =
     (let bidsArr = bid_rows (aggregate_levels (bucket_floor priceStep) bids);
          asksArr = ask_rows (aggregate_levels (bucket_ceil priceStep) asks);
          maxTotal = max_total bidsArr asksArr
      in \<lparr>ob_bids = map (with_percentage maxTotal) bidsArr, ob_asks = map (with_percentage maxTotal) asksArr\<rparr>)"

definition fetchBinanceDepth ::
  "((number \<times> number) list \<times> (number \<times> number) list) option fetch_result \<Rightarrow> number \<Rightarrow> order_book option" where
  "fetchBinanceDepth resp priceStep =
     (case resp of Body (Some (bids, asks)) \<Rightarrow> Some (depth_rows priceStep bids asks) | _ \<Rightarrow> None)"

text \<open>The entry point: \<open>50t\<close> selects the tick candles.\<close>

definition market_getClusterCandles ::
  "string \<Rightarrow> (market_error + candle list) option \<Rightarrow> market_error + candle list \<Rightarrow>
   (market_error + candle list) option" where
  "market_getClusterCandles interval ticks klines = (if interval = ''50t'' then ticks else Some klines)"

section \<open>Lemmas on association lists of prices\<close>

lemma sum_update:
  fixes f :: "'v \<Rightarrow> number"
  shows "sum_list (map (\<lambda>kv. f (snd kv)) (AList.update k v m)) =
     sum_list (map (\<lambda>kv. f (snd kv)) m) - (case map_of m k of None \<Rightarrow> 0 | Some e \<Rightarrow> f e) + f v"
  by (induction m) auto

lemma keys_update [simp]: "fst ` set (AList.update k v m) = insert k (fst ` set m)"
  by (induction m) auto

lemma distinct_keys_update [simp]: "distinct (map fst (AList.update k v m)) = distinct (map fst m)"
proof (induction m)
  case (Cons p m)
  then show ?case by (auto simp flip: set_map) (auto simp: image_iff)
qed simp

lemma mset_object_keys [simp]: "mset (object_keys m) = mset (map fst m)"
  unfolding object_keys_def by (simp only: mset_append mset_sort mset_filter) (rule multiset_partition [symmetric])

lemma set_object_keys [simp]: "set (object_keys m) = fst ` set m"
  by (metis mset_object_keys set_mset_mset set_map)

lemma length_object_keys [simp]: "length (object_keys m) = length m"
  by (metis mset_object_keys size_mset length_map)

lemma sum_object_keys:
  fixes f :: "'v \<Rightarrow> number"
  assumes "distinct (map fst m)"
  shows "sum_list (map (\<lambda>k. f (the (map_of m k))) (object_keys m)) = sum_list (map (\<lambda>kv. f (snd kv)) m)"
proof -
  let ?g = "\<lambda>k. f (the (map_of m k))"
  have "sum_list (map ?g (object_keys m)) = sum_list (map ?g (map fst m))"
    by (rule sum_list_mset_cong) simp
  also have "map ?g (map fst m) = map (\<lambda>kv. f (snd kv)) m"
    unfolding map_map by (rule map_cong [OF refl]) (auto simp: assms)
  finally show ?thesis .
qed

lemma distinct_object_keys [simp]: "distinct (object_keys m) = distinct (map fst m)"
  by (metis mset_eq_imp_distinct_iff mset_object_keys)

lemma sum_toFixed:
  "\<bar>sum_list (map (\<lambda>x. toFixed d (f x)) xs) - sum_list (map f xs)\<bar> \<le> real (length xs) / (2 * 10 ^ d)"
proof (induction xs)
  case (Cons x xs)
  then show ?case using toFixed_close [of d "f x"] by (simp add: add_divide_distrib)
qed simp

section \<open>Lemmas on tick candles\<close>

lemma add_trade_simps:
  "sum_list (map (\<lambda>kv. fl_volume (snd kv)) (add_trade st t m)) = sum_list (map (\<lambda>kv. fl_volume (snd kv)) m) + t_q t"
  "sum_list (map (\<lambda>kv. fl_bid (snd kv)) (add_trade st t m)) =
     sum_list (map (\<lambda>kv. fl_bid (snd kv)) m) + (if t_m t then t_q t else 0)"
  "sum_list (map (\<lambda>kv. fl_ask (snd kv)) (add_trade st t m)) =
     sum_list (map (\<lambda>kv. fl_ask (snd kv)) m) + (if t_m t then 0 else t_q t)"
  "fst ` set (add_trade st t m) = insert (bucket_floor st (t_p t)) (fst ` set m)"
  "distinct (map fst (add_trade st t m)) = distinct (map fst m)"
  by (auto simp: add_trade_def Let_def sum_update split: option.splits)

lemma cell_map_sums:
  "sum_list (map (\<lambda>kv. fl_volume (snd kv)) (fold (add_trade st) ts m)) =
     sum_list (map (\<lambda>kv. fl_volume (snd kv)) m) + sum_list (map t_q ts)"
  "sum_list (map (\<lambda>kv. fl_bid (snd kv)) (fold (add_trade st) ts m)) =
     sum_list (map (\<lambda>kv. fl_bid (snd kv)) m) + sum_list (map t_q (filter t_m ts))"
  "sum_list (map (\<lambda>kv. fl_ask (snd kv)) (fold (add_trade st) ts m)) =
     sum_list (map (\<lambda>kv. fl_ask (snd kv)) m) + sum_list (map t_q (filter (\<lambda>t. \<not> t_m t) ts))"
  "fst ` set (fold (add_trade st) ts m) = bucket_floor st ` t_p ` set ts \<union> fst ` set m"
  "distinct (map fst (fold (add_trade st) ts m)) = distinct (map fst m)"
  by (induction ts arbitrary: m) (auto simp: add_trade_simps)

lemma cell_map_distinct [simp]: "distinct (map fst (cell_map st ts))"
  by (simp add: cell_map_def cell_map_sums)

lemma cell_map_keys: "fst ` set (cell_map st ts) = bucket_floor st ` t_p ` set ts"
  by (simp add: cell_map_def cell_map_sums)

text \<open>The cells of a chunk keep the traded volumes, up to the rounding of each cell.\<close>

lemma raw_cells_sums:
  assumes "distinct (map fst m)"
  shows
    "\<bar>sum_list (map cell_volume (raw_cells m)) - sum_list (map (\<lambda>kv. fl_volume (snd kv)) m)\<bar> \<le> real (length m) / 20000"
    "\<bar>sum_list (map cell_bid (raw_cells m)) - sum_list (map (\<lambda>kv. fl_bid (snd kv)) m)\<bar> \<le> real (length m) / 20000"
    "\<bar>sum_list (map cell_ask (raw_cells m)) - sum_list (map (\<lambda>kv. fl_ask (snd kv)) m)\<bar> \<le> real (length m) / 20000"
  using sum_toFixed [of 4 "\<lambda>k. fl_volume (the (map_of m k))" "object_keys m"]
    sum_toFixed [of 4 "\<lambda>k. fl_bid (the (map_of m k))" "object_keys m"]
    sum_toFixed [of 4 "\<lambda>k. fl_ask (the (map_of m k))" "object_keys m"]
  by (simp_all add: raw_cells_def Let_def comp_def sum_object_keys [OF assms])

lemma raw_cells_prices [simp]: "map cell_price (raw_cells m) = object_keys m"
  by (simp add: raw_cells_def Let_def comp_def)

lemma length_raw_cells [simp]: "length (raw_cells m) = length m"
  by (simp add: raw_cells_def)

lemma mark_cell_simps [simp]:
  "cell_price (mark_cell p v n c) = cell_price c" "cell_bid (mark_cell p v n c) = cell_bid c"
  "cell_ask (mark_cell p v n c) = cell_ask c" "cell_volume (mark_cell p v n c) = cell_volume c"
  by (simp_all add: mark_cell_def)

definition chunk_cells :: "number \<Rightarrow> trade list \<Rightarrow> cell list" where
  "chunk_cells st chunk = c_cells (candle_of_chunk st chunk)"

lemma chunk_cells_eq:
  "\<exists>p v. chunk_cells st chunk =
     sort_desc cell_price (map (mark_cell p v (length (cell_map st chunk))) (raw_cells (cell_map st chunk)))"
  by (auto simp: chunk_cells_def candle_of_chunk_def Let_def)

lemma chunk_cells_sums:
  "sum_list (map cell_volume (chunk_cells st chunk)) = sum_list (map cell_volume (raw_cells (cell_map st chunk)))"
  "sum_list (map cell_bid (chunk_cells st chunk)) = sum_list (map cell_bid (raw_cells (cell_map st chunk)))"
  "sum_list (map cell_ask (chunk_cells st chunk)) = sum_list (map cell_ask (raw_cells (cell_map st chunk)))"
  using chunk_cells_eq [of st chunk] by (auto simp: comp_def)

lemma chunk_cells_prices:
  "mset (map cell_price (chunk_cells st chunk)) = mset (map fst (cell_map st chunk))"
proof -
  obtain p v where "chunk_cells st chunk =
      sort_desc cell_price (map (mark_cell p v (length (cell_map st chunk))) (raw_cells (cell_map st chunk)))"
    using chunk_cells_eq by blast
  then have "mset (map cell_price (chunk_cells st chunk)) = mset (map cell_price (raw_cells (cell_map st chunk)))"
    by (simp add: image_mset.compositionality comp_def del: raw_cells_prices)
  also have "\<dots> = mset (map fst (cell_map st chunk))" by (simp only: raw_cells_prices mset_object_keys)
  finally show ?thesis .
qed

lemma chunk_cells_length: "length (chunk_cells st chunk) = length (cell_map st chunk)"
  by (metis chunk_cells_prices length_map size_mset)

lemma sorted_distinct_desc:
  fixes f :: "'a \<Rightarrow> number"
  assumes "sorted_wrt (\<lambda>x y. f y \<le> f x) xs" "distinct (map f xs)"
  shows "sorted_wrt (\<lambda>x y. f y < f x) xs"
  using assms by (induction xs) (auto simp: less_le image_iff)

lemma chunk_cells_sorted: "sorted_wrt (\<lambda>c d. cell_price d < cell_price c) (chunk_cells st chunk)"
proof (rule sorted_distinct_desc)
  show "sorted_wrt (\<lambda>c d. cell_price d \<le> cell_price c) (chunk_cells st chunk)"
    using chunk_cells_eq [of st chunk] sorted_sort_desc [of cell_price] by auto
  show "distinct (map cell_price (chunk_cells st chunk))"
    by (metis cell_map_distinct chunk_cells_prices mset_eq_imp_distinct_iff)
qed

section \<open>Lemmas on chunks\<close>

lemma tick_chunks_Nil [simp]: "tick_chunks n [] = Some []"
  by (simp add: tick_chunks.simps)

lemma tick_chunks_step:
  "xs \<noteq> [] \<Longrightarrow> tick_chunks n xs = Option.bind (tick_chunks n (drop n xs)) (\<lambda>cs. Some (take n xs # cs))"
  by (subst tick_chunks.simps) simp

lemma tick_chunks_total:
  "0 < n \<Longrightarrow> \<exists>cs. tick_chunks n xs = Some cs \<and> concat cs = xs \<and> (\<forall>c \<in> set (butlast cs). length c = n) \<and>
     (cs \<noteq> [] \<longrightarrow> 0 < length (last cs) \<and> length (last cs) \<le> n)"
proof (induction "length xs" arbitrary: xs rule: less_induct)
  case less
  show ?case
  proof (cases "xs = []")
    case False
    with less obtain cs where cs: "tick_chunks n (drop n xs) = Some cs" "concat cs = drop n xs"
      "\<forall>c \<in> set (butlast cs). length c = n" "cs \<noteq> [] \<longrightarrow> 0 < length (last cs) \<and> length (last cs) \<le> n"
      by (metis diff_less length_drop length_greater_0_conv)
    have "length (take n xs) = n" if "cs \<noteq> []"
    proof -
      have "concat cs \<noteq> []" using that cs(4) by (cases cs rule: rev_cases) auto
      with cs(2) show ?thesis by simp
    qed
    with cs less.prems False show ?thesis by (auto simp: tick_chunks_step)
  qed simp
qed

lemma tick_chunks_Some: "tick_chunks n xs = Some cs \<Longrightarrow> n = 0 \<longrightarrow> xs = []"
  by (rule tick_chunks.raw_induct [where P = "\<lambda>n xs cs. n = 0 \<longrightarrow> xs = []"])
     (fastforce split: if_splits bind_splits)+

lemma tick_chunks_zero: "tick_chunks 0 xs = Some cs \<Longrightarrow> xs = []"
  using tick_chunks_Some by blast

lemma aggregate_ticks_Some:
  assumes "0 < n"
  obtains cs where "tick_chunks n ts = Some cs" "concat cs = ts" "\<forall>c \<in> set (butlast cs). length c = n"
    "cs \<noteq> [] \<Longrightarrow> 0 < length (last cs) \<and> length (last cs) \<le> n"
    "aggregate_ticks st n ts = Some (map (candle_of_chunk st) (filter (\<lambda>c. \<not> length c < 5) cs))"
  using tick_chunks_total [OF assms, of ts] by (auto simp: aggregate_ticks_def)

lemma tickCount_chunk [simp]: "c_tickCount (candle_of_chunk st c) = Some (length c)"
  by (simp add: candle_of_chunk_def Let_def)

text \<open>How many of the trades end up in candles: all but a last chunk of fewer than five.\<close>

lemma concat_filter_big:
  assumes "\<forall>c \<in> set (butlast cs). 5 \<le> length c"
  shows "length (concat cs) - sum_list (map length (filter (\<lambda>c. \<not> length c < 5) cs)) < 5 \<and>
         sum_list (map length (filter (\<lambda>c. \<not> length c < 5) cs)) \<le> length (concat cs)"
proof (cases cs rule: rev_cases)
  case (snoc ds d)
  then have "filter (\<lambda>c. \<not> length c < 5) ds = ds" using assms by (auto simp: filter_id_conv)
  then show ?thesis using snoc by (simp add: length_concat)
qed simp

section \<open>Properties of tick candles\<close>

text \<open>
  C4. A tick candle accounts for every trade of its chunk: its cells are the distinct price buckets of the trades in
  strictly descending order, and the sums of their volumes, bids and asks are those of all trades, of the
  seller-initiated and of the buyer-initiated ones, up to half a unit of the fourth decimal per cell.
\<close>

theorem tick_candle_accounts_for_trades:
  fixes st chunk
  defines "cs \<equiv> c_cells (candle_of_chunk st chunk)"
  shows "sorted_wrt (\<lambda>c d. cell_price d < cell_price c) cs \<and>
         cell_price ` set cs = bucket_floor st ` t_p ` set chunk \<and>
         \<bar>sum_list (map cell_volume cs) - sum_list (map t_q chunk)\<bar> \<le> real (length cs) / 20000 \<and>
         \<bar>sum_list (map cell_bid cs) - sum_list (map t_q (filter t_m chunk))\<bar> \<le> real (length cs) / 20000 \<and>
         \<bar>sum_list (map cell_ask cs) - sum_list (map t_q (filter (\<lambda>t. \<not> t_m t) chunk))\<bar> \<le> real (length cs) / 20000"
proof -
  have cs: "cs = chunk_cells st chunk" by (simp add: cs_def chunk_cells_def)
  have "cell_price ` set cs = set_mset (mset (map cell_price cs))" by simp
  also have "\<dots> = bucket_floor st ` t_p ` set chunk"
    unfolding cs chunk_cells_prices using cell_map_keys [of st chunk] by simp
  finally have "cell_price ` set cs = bucket_floor st ` t_p ` set chunk" .
  then show ?thesis
    using chunk_cells_sorted [of st chunk] raw_cells_sums [OF cell_map_distinct [of st chunk]]
    unfolding cs chunk_cells_sums chunk_cells_length
    by (simp add: cell_map_def cell_map_sums)
qed


subsection \<open>The pages of the trade history\<close>

text \<open>
  The exchange as it documents itself: the trades of a symbol have the ids 1, 2, ...; the latest request
  returns the last 1000 of them, a request with \<open>fromId\<close> the first 1000 from that id on.
\<close>

definition exchange_history :: "trade list \<Rightarrow> bool" where
  "exchange_history hist \<longleftrightarrow> map t_a hist = [1 .. int (length hist)]"

definition latest_page :: "trade list \<Rightarrow> trade list" where
  "latest_page hist = slice_last 1000 hist"

definition id_page :: "trade list \<Rightarrow> int \<Rightarrow> trade list option fetch_result" where
  "id_page hist fromId = Body (Some (take 1000 (filter (\<lambda>t. fromId \<le> t_a t) hist)))"

lemma exchange_nth:
  assumes "exchange_history hist" "i < length hist"
  shows "t_a (hist ! i) = int i + 1"
proof -
  have "t_a (hist ! i) = map t_a hist ! i" using assms(2) by simp
  also have "\<dots> = int i + 1" using assms by (simp add: exchange_history_def)
  finally show ?thesis .
qed

lemma filter_from_drop:
  assumes "exchange_history hist"
  shows "filter (\<lambda>t. k \<le> t_a t) hist = drop (nat (k - 1)) hist"
proof -
  let ?m = "nat (k - 1)"
  have "filter (\<lambda>t. k \<le> t_a t) (take ?m hist) = []"
    using exchange_nth [OF assms] by (fastforce simp: filter_empty_conv in_set_conv_nth)
  moreover have "filter (\<lambda>t. k \<le> t_a t) (drop ?m hist) = drop ?m hist"
    using exchange_nth [OF assms] by (fastforce simp: filter_id_conv in_set_conv_nth)
  ultimately show ?thesis by (metis append_take_drop_id filter_append append_Nil)
qed

lemma latest_page_drop: "latest_page hist = drop (length hist - 1000) hist"
  using slice_last_of_nat [of 1000 hist] by (simp add: latest_page_def)

lemma exchange_page_below: "hist \<noteq> [] \<Longrightarrow> length hist - 1000 < length hist"
  by (cases hist) auto

lemma first_id:
  assumes "exchange_history hist" "hist \<noteq> []"
  shows "latest_page hist \<noteq> []" "t_a (hd (latest_page hist)) = int (length hist - 1000) + 1"
  using exchange_page_below [OF assms(2)] exchange_nth [OF assms(1), of "length hist - 1000"]
  by (simp_all add: latest_page_drop hd_drop_conv_nth not_le)

lemma all_trades_exchange:
  assumes "exchange_history hist" "hist \<noteq> []"
  defines "m \<equiv> length hist - 1000"
  shows "all_trades (latest_page hist) (id_page hist) =
    sort_key t_a (drop m hist @ take 1000 (drop (m - 1000) hist) @ take 1000 (drop (m - 2000) hist)
      @ take 1000 (drop (m - 3000) hist))"
proof -
  have "nat (targetFromId (int m + 1) i - 1) = m - nat (i * 1000)" if "0 < i" for i
    using that by (simp add: targetFromId_def max_def) linarith
  then show ?thesis
    using first_id [OF assms(1,2)]
    by (simp add: all_trades_def Let_def page_trades_def id_page_def filter_from_drop [OF assms(1)]
        latest_page_drop m_def)
qed

lemma sorted_exchange: "exchange_history hist \<Longrightarrow> sorted (map t_a (drop k hist))"
  unfolding exchange_history_def by (metis drop_map sorted_upto sorted_wrt_drop)

lemma inj_exchange: "exchange_history hist \<Longrightarrow> inj_on t_a (set hist)"
  by (metis distinct_map distinct_upto exchange_history_def)

text \<open>
  With a history of at least 4000 trades the four requests are contiguous: the aggregated trades are the last 4000,
  each once, in the order of their ids, whatever order the pages come in.
\<close>

theorem tick_pages_are_contiguous:
  assumes "exchange_history hist" "4000 \<le> length hist"
  shows "all_trades (latest_page hist) (id_page hist) = drop (length hist - 4000) hist"
proof -
  let ?m = "length hist - 1000"
  define D T1 T2 T3 where parts: "D = drop ?m hist" "T1 = take 1000 (drop (?m - 1000) hist)"
    "T2 = take 1000 (drop (?m - 2000) hist)" "T3 = take 1000 (drop (?m - 3000) hist)"
  have split: "drop k hist = take 1000 (drop k hist) @ drop (k + 1000) hist" for k
    by (metis append_take_drop_id drop_drop add.commute)
  have sums: "?m - 1000 + 1000 = ?m" "?m - 2000 + 1000 = ?m - 1000" "?m - 3000 + 1000 = ?m - 2000"
    "?m - 3000 = length hist - 4000" using assms(2) by linarith+
  have "drop (?m - 3000) hist = T3 @ T2 @ T1 @ D"
    using split [of "?m - 1000"] split [of "?m - 2000"] split [of "?m - 3000"]
    unfolding sums(1-3) parts [symmetric] by simp
  then have "drop (length hist - 4000) hist = T3 @ T2 @ T1 @ D" unfolding sums(4) .
  then have "mset (D @ T1 @ T2 @ T3) = mset (drop (length hist - 4000) hist)" by simp
  moreover from this have "set (D @ T1 @ T2 @ T3) \<subseteq> set hist"
    by (metis set_drop_subset set_mset_mset)
  then have "inj_on t_a (set (D @ T1 @ T2 @ T3))" using inj_exchange [OF assms(1)] inj_on_subset by blast
  ultimately have "sort_key t_a (D @ T1 @ T2 @ T3) = drop (length hist - 4000) hist"
    using sorted_exchange [OF assms(1)] by (rule sort_key_inj_key_eq)
  moreover have "hist \<noteq> []" using assms(2) by auto
  ultimately show ?thesis using all_trades_exchange [OF assms(1)] unfolding parts by simp
qed

text \<open>
  With a short history trades are counted repeatedly: \<open>fromId\<close> is clamped to 1, so when no more than 2000 trades
  exist all three pages start at the first trade, and the aggregated trades are four times as many as a page holds;
  up to 1000 trades, every one of them is aggregated four times.
\<close>

theorem short_history_counts_trades_repeatedly:
  assumes "exchange_history hist" "hist \<noteq> []" "length hist \<le> 2000"
  shows "length (all_trades (latest_page hist) (id_page hist)) = 4 * min 1000 (length hist) \<and>
         (length hist \<le> 1000 \<longrightarrow>
            (\<forall>t. count (mset (all_trades (latest_page hist) (id_page hist))) t = 4 * count (mset hist) t))"
proof -
  have z: "length hist - 2000 = 0" "length hist - 3000 = 0" "length hist - 4000 = 0" using assms(3) by simp_all
  then have "all_trades (latest_page hist) (id_page hist) =
      sort_key t_a (drop (length hist - 1000) hist @ take 1000 hist @ take 1000 hist @ take 1000 hist)"
    by (simp add: all_trades_exchange [OF assms(1,2)])
  then show ?thesis by (auto simp: min_def)
qed

section \<open>Lemmas on kline cells\<close>

lemma count_loop_le: "n \<le> 250 \<Longrightarrow> count_loop p e st n \<le> 251"
  by (induction p e st n rule: count_loop.induct) (subst count_loop.simps, simp)

lemma count_loop_ge: "n \<le> count_loop p e st n"
proof (induction p e st n rule: count_loop.induct)
  case (1 p e st n)
  then show ?case by (subst count_loop.simps) force
qed

lemma count_loop_pos: "p \<le> e \<Longrightarrow> 0 < count_loop p e st 0"
  using count_loop_ge [of "Suc 0" "p + st" e st] by (subst count_loop.simps) simp

lemma length_level_prices [simp]: "length (level_prices n p st) = n"
  by (induction n arbitrary: p) auto

lemma start_le_end:
  assumes "0 < st" "k_low k \<le> k_high k"
  shows "startPrice st k \<le> endPrice st k"
proof -
  have "js_floor (k_low k / st) \<le> k_low k / st" "k_high k / st \<le> js_ceil (k_high k / st)"
    by (rule js_floor_le, rule js_ceil_ge)
  moreover have "k_low k / st \<le> k_high k / st" using assms by (simp add: divide_right_mono)
  ultimately show ?thesis using assms(1) unfolding startPrice_def endPrice_def
    by (intro mult_right_mono) auto
qed

lemma level_weight_pos: "1 / 100 \<le> level_weight st k p"
  by (simp add: level_weight_def Let_def)

lemma parsedLevels_length:
  assumes "0 < st" "k_low k \<le> k_high k"
  shows "0 < length (parsedLevels st k)" "length (parsedLevels st k) \<le> 251"
  using count_loop_pos [OF start_le_end [OF assms]] count_loop_le [of 0]
  by (simp_all add: parsedLevels_def Let_def)

lemma sum_weights_pos:
  assumes "ls \<noteq> []"
  shows "0 < sum_list (map (level_weight st k) ls)"
proof -
  obtain p ps where "ls = p # ps" using assms by (cases ls) auto
  moreover have nn: "0 \<le> level_weight st k q" for q using level_weight_pos [of st k q] by linarith
  have "0 \<le> sum_list (map (level_weight st k) ps)" by (rule sum_list_map_nonneg) (rule nn)
  moreover have "0 < level_weight st k p" using level_weight_pos [of st k p] by linarith
  ultimately show ?thesis by simp
qed

lemma sum_list_scale: "sum_list (map (\<lambda>x. a * (f x / s)) xs) = a * (sum_list (map f xs) / s)" for a :: number
  by (induction xs) (auto simp: algebra_simps add_divide_distrib)

lemma tempCells_eq:
  assumes "0 < st" "k_low k \<le> k_high k" "0 < k_volume k"
  defines "W \<equiv> sum_list (map (level_weight st k) (parsedLevels st k))"
  shows "0 < W"
    "tempCells st k =
       map (\<lambda>p. \<lparr>tc_price = p,
              tc_bid = k_volume k * (level_weight st k p / W) * (1 - k_takerBuyVol k / k_volume k),
              tc_ask = k_volume k * (level_weight st k p / W) * (k_takerBuyVol k / k_volume k),
              tc_volume = k_volume k * (level_weight st k p / W)\<rparr>) (parsedLevels st k)"
proof -
  have "parsedLevels st k \<noteq> []" using parsedLevels_length(1) [OF assms(1,2)] by auto
  then show "0 < W" unfolding W_def by (rule sum_weights_pos)
  then show "tempCells st k =
       map (\<lambda>p. \<lparr>tc_price = p,
              tc_bid = k_volume k * (level_weight st k p / W) * (1 - k_takerBuyVol k / k_volume k),
              tc_ask = k_volume k * (level_weight st k p / W) * (k_takerBuyVol k / k_volume k),
              tc_volume = k_volume k * (level_weight st k p / W)\<rparr>) (parsedLevels st k)"
    using assms(3) by (simp add: tempCells_def Let_def or_else_def flip: W_def)
qed

lemma tempCells_sums:
  assumes "0 < st" "k_low k \<le> k_high k" "0 < k_volume k"
  shows "sum_list (map tc_volume (tempCells st k)) = k_volume k"
    "sum_list (map tc_ask (tempCells st k)) = k_takerBuyVol k"
    "\<forall>c \<in> set (tempCells st k). tc_bid c + tc_ask c = tc_volume c \<and> 0 < tc_volume c"
    "length (tempCells st k) = length (parsedLevels st k)"
proof -
  note eq = tempCells_eq [OF assms]
  let ?W = "sum_list (map (level_weight st k) (parsedLevels st k))"
  show "sum_list (map tc_volume (tempCells st k)) = k_volume k"
    using eq(1) unfolding eq(2) map_map comp_def temp_cell.simps sum_list_scale by simp
  have "sum_list (map tc_ask (tempCells st k)) =
      sum_list (map (\<lambda>p. k_takerBuyVol k * (level_weight st k p / ?W)) (parsedLevels st k))"
    using assms(3) unfolding eq(2) by (simp add: comp_def mult.commute)
  then show "sum_list (map tc_ask (tempCells st k)) = k_takerBuyVol k"
    using eq(1) unfolding sum_list_scale by simp
  have "0 < level_weight st k p" for p using level_weight_pos [of st k p] by linarith
  then show "\<forall>c \<in> set (tempCells st k). tc_bid c + tc_ask c = tc_volume c \<and> 0 < tc_volume c"
    using eq(1) assms(3) unfolding eq(2) by (auto simp: algebra_simps diff_divide_distrib)
  show "length (tempCells st k) = length (parsedLevels st k)" unfolding eq(2) by simp
qed

text \<open>The index scan finds the first cell of the largest volume.\<close>

lemma index_scan:
  defines "scan \<equiv> (\<lambda>(m, r) (c, idx). if tc_volume c > m then (tc_volume c, Some idx) else (m, r))"
  shows "(\<forall>c \<in> set cs. tc_volume c \<le> m) \<and> foldl scan (m, r) (zip cs [n ..< n + length cs]) = (m, r) \<or>
    (\<exists>i < length cs. foldl scan (m, r) (zip cs [n ..< n + length cs]) = (tc_volume (cs ! i), Some (n + i)) \<and>
       m < tc_volume (cs ! i) \<and> (\<forall>c \<in> set cs. tc_volume c \<le> tc_volume (cs ! i)))"
proof (induction cs arbitrary: m r n)
  case (Cons a cs)
  have z: "zip (a # cs) [n ..< n + length (a # cs)] = (a, n) # zip cs [Suc n ..< Suc n + length cs]"
    by (simp add: upt_conv_Cons del: upt_Suc)
  let ?m = "if tc_volume a > m then tc_volume a else m"
  let ?r = "if tc_volume a > m then Some n else r"
  have step: "foldl scan (m, r) (zip (a # cs) [n ..< n + length (a # cs)]) =
      foldl scan (?m, ?r) (zip cs [Suc n ..< Suc n + length cs])"
    unfolding z by (simp add: scan_def)
  from Cons.IH [of ?m ?r "Suc n"] show ?case
  proof (elim disjE exE conjE)
    assume le: "\<forall>c \<in> set cs. tc_volume c \<le> ?m"
      and f: "foldl scan (?m, ?r) (zip cs [Suc n ..< Suc n + length cs]) = (?m, ?r)"
    show ?thesis
    proof (cases "tc_volume a > m")
      case True
      then show ?thesis using le f unfolding step by (intro disjI2 exI [of _ 0]) simp
    next
      case False
      then show ?thesis using le f unfolding step by simp
    qed
  next
    fix i
    assume i: "i < length cs" "?m < tc_volume (cs ! i)" "\<forall>c \<in> set cs. tc_volume c \<le> tc_volume (cs ! i)"
      and f: "foldl scan (?m, ?r) (zip cs [Suc n ..< Suc n + length cs]) = (tc_volume (cs ! i), Some (Suc n + i))"
    then show ?thesis unfolding step
      by (intro disjI2 exI [of _ "Suc i"]) (auto split: if_splits)
  qed
qed simp

lemma poc_index_Some:
  assumes "cs \<noteq> []" "\<forall>c \<in> set cs. 0 < tc_volume c"
  shows "\<exists>i < length cs. poc_index cs = Some i \<and> (\<forall>c \<in> set cs. tc_volume c \<le> tc_volume (cs ! i))"
  using index_scan [of cs 0 None 0] assms
  by (cases cs) (auto simp: poc_index_def)

lemma finalCells_simps:
  "length (finalCells st k) = length (tempCells st k)"
  "map cell_volume (finalCells st k) = map (\<lambda>c. toFixed 4 (tc_volume c)) (tempCells st k)"
  "map cell_ask (finalCells st k) = map (\<lambda>c. toFixed 4 (tc_ask c)) (tempCells st k)"
  by (auto simp: finalCells_def Let_def final_cell_def intro!: nth_equalityI)

lemma finalCells_nth:
  "i < length (tempCells st k) \<Longrightarrow>
     finalCells st k ! i = final_cell k (length (tempCells st k)) (poc_index (tempCells st k)) (tempCells st k ! i, i)"
  by (simp add: finalCells_def Let_def)

lemma find_of_filter: "filter P xs = x # ys \<Longrightarrow> find P xs = Some x"
  by (induction xs) (auto split: if_splits)

lemma c_cells_kline: "c_cells (candle_of_kline st k) = sort_desc cell_price (finalCells st k)"
  by (simp add: candle_of_kline_def Let_def)

text \<open>
  The synthetic cells of a kline keep its volumes: between 1 and 251 levels are made, bid and ask of a level add up to
  its volume, all levels together hold the kline's volume and its taker-buy volume exactly, and the rounded cells
  of the candle hold the volume up to half a unit of the fourth decimal per cell.
\<close>

theorem kline_cells_keep_volume:
  assumes "0 < st" "k_low k \<le> k_high k" "0 < k_volume k"
  shows "0 < length (tempCells st k) \<and> length (tempCells st k) \<le> 251 \<and>
         (\<forall>c \<in> set (tempCells st k). tc_bid c + tc_ask c = tc_volume c \<and> 0 < tc_volume c) \<and>
         sum_list (map tc_volume (tempCells st k)) = k_volume k \<and>
         sum_list (map tc_ask (tempCells st k)) = k_takerBuyVol k \<and>
         (let cs = c_cells (candle_of_kline st k) in
          \<bar>sum_list (map cell_volume cs) - k_volume k\<bar> \<le> real (length cs) / 20000)"
proof (intro conjI)
  note sums = tempCells_sums [OF assms]
  show "0 < length (tempCells st k)" "length (tempCells st k) \<le> 251"
    using parsedLevels_length [OF assms(1,2)] by (simp_all only: sums(4))
  show "\<forall>c \<in> set (tempCells st k). tc_bid c + tc_ask c = tc_volume c \<and> 0 < tc_volume c" by (rule sums(3))
  show "sum_list (map tc_volume (tempCells st k)) = k_volume k" by (rule sums(1))
  show "sum_list (map tc_ask (tempCells st k)) = k_takerBuyVol k" by (rule sums(2))
  show "let cs = c_cells (candle_of_kline st k) in
      \<bar>sum_list (map cell_volume cs) - k_volume k\<bar> \<le> real (length cs) / 20000"
    using sum_toFixed [of 4 tc_volume "tempCells st k"]
    by (simp add: c_cells_kline Let_def finalCells_simps sums(1))
qed

text \<open>
  A kline with volume has exactly one point of control: one cell is flagged, its level holds the largest share of the
  volume, and the candle's POC price is the price of that cell.
\<close>

theorem kline_has_one_poc:
  assumes "0 < st" "k_low k \<le> k_high k" "0 < k_volume k"
  shows "\<exists>i < length (tempCells st k).
           (\<forall>c \<in> set (tempCells st k). tc_volume c \<le> tc_volume (tempCells st k ! i)) \<and>
           filter isPoc (c_cells (candle_of_kline st k)) = [finalCells st k ! i] \<and>
           c_pocPrice (candle_of_kline st k) = tc_price (tempCells st k ! i)"
proof -
  note sums = tempCells_sums [OF assms]
  let ?cs = "tempCells st k" and ?fs = "finalCells st k"
  have "?cs \<noteq> []" using parsedLevels_length(1) [OF assms(1,2)] sums(4) by auto
  with sums(3) obtain i where i: "i < length ?cs" "poc_index ?cs = Some i"
    "\<forall>c \<in> set ?cs. tc_volume c \<le> tc_volume (?cs ! i)" using poc_index_Some by blast
  have len: "length ?fs = length ?cs" by (rule finalCells_simps)
  have poc: "isPoc (?fs ! j) \<longleftrightarrow> j = i" if "j < length ?cs" for j
    using that i(2) by (auto simp: finalCells_nth final_cell_def Let_def)
  have split: "?fs = take i ?fs @ ?fs ! i # drop (Suc i) ?fs" using i(1) len by (simp add: id_take_nth_drop)
  have "filter isPoc (take i ?fs) = []" "filter isPoc (drop (Suc i) ?fs) = []"
    using poc len by (auto simp: filter_empty_conv in_set_conv_nth)
  then have one: "filter isPoc ?fs = [?fs ! i]" using split poc [OF i(1)] by (metis filter.simps filter_append append_Nil)
  have "mset (filter isPoc (sort_desc cell_price ?fs)) = mset (filter isPoc ?fs)" by simp
  then have f: "filter isPoc (sort_desc cell_price ?fs) = [?fs ! i]" unfolding one by (simp only: mset.simps mset_single_iff)
  then have "find isPoc (sort_desc cell_price ?fs) = Some (?fs ! i)" by (rule find_of_filter)
  then have "c_pocPrice (candle_of_kline st k) = cell_price (?fs ! i)" by (simp add: candle_of_kline_def Let_def)
  also have "\<dots> = tc_price (?cs ! i)" using i(1) by (simp add: finalCells_nth final_cell_def Let_def)
  finally show ?thesis using i f by (auto simp: c_cells_kline)
qed

section \<open>Lemmas on depth\<close>

lemma sum_update_snd:
  fixes v :: number
  shows "sum_list (map snd (AList.update k v m)) =
    sum_list (map snd m) - (case map_of m k of None \<Rightarrow> 0 | Some e \<Rightarrow> e) + v"
  by (induction m) auto

lemma add_level_simps:
  "sum_list (map snd (add_level b it agg)) = sum_list (map snd agg) + snd it"
  "fst ` set (add_level b it agg) = insert (b (fst it)) (fst ` set agg)"
  "distinct (map fst (add_level b it agg)) = distinct (map fst agg)"
  by (auto simp: add_level_def Let_def or_else_def sum_update_snd split: option.splits)

lemma aggregate_levels_fold:
  "sum_list (map snd (fold (add_level b) its agg)) = sum_list (map snd agg) + sum_list (map snd its)"
  "fst ` set (fold (add_level b) its agg) = b ` fst ` set its \<union> fst ` set agg"
  "distinct (map fst (fold (add_level b) its agg)) = distinct (map fst agg)"
  by (induction its arbitrary: agg) (auto simp: add_level_simps)

lemma aggregate_levels_facts:
  "sum_list (map snd (aggregate_levels b its)) = sum_list (map snd its)"
  "fst ` set (aggregate_levels b its) = b ` fst ` set its"
  "distinct (map fst (aggregate_levels b its))"
  by (simp_all add: aggregate_levels_def aggregate_levels_fold)

lemma add_level_pos:
  assumes "\<forall>kv \<in> set agg. 0 < snd kv" "0 < snd it"
  shows "\<forall>kv \<in> set (add_level b it agg). 0 < snd kv"
proof -
  have upd: "\<forall>kv \<in> set (AList.update k v agg). 0 < snd kv" if "0 < v" for k and v :: number
    using assms(1) that by (induction agg) auto
  show ?thesis
  proof (cases "map_of agg (b (fst it))")
    case None
    then show ?thesis using upd assms(2) by (simp add: add_level_def Let_def)
  next
    case (Some v)
    then have "0 < v" using assms(1) map_of_SomeD by fastforce
    then have "0 < v + snd it" using assms(2) by simp
    then show ?thesis using upd \<open>0 < v\<close> Some by (simp add: add_level_def Let_def or_else_def)
  qed
qed

lemma aggregate_levels_pos:
  assumes "\<forall>it \<in> set its. 0 < snd it"
  shows "\<forall>kv \<in> set (aggregate_levels b its). 0 < snd kv"
proof -
  have "\<forall>kv \<in> set (fold (add_level b) its agg). 0 < snd kv" if "\<forall>kv \<in> set agg. 0 < snd kv" for agg
    using assms that
  proof (induction its arbitrary: agg)
    case (Cons a its)
    have "\<forall>kv \<in> set (add_level b a agg). 0 < snd kv" by (rule add_level_pos) (use Cons.prems in simp_all)
    moreover have "\<forall>it \<in> set its. 0 < snd it" using Cons.prems(1) by simp
    ultimately show ?case using Cons.IH [of "add_level b a agg"] unfolding fold_simps by blast
  qed simp
  from this [of "[]"] show ?thesis by (simp add: aggregate_levels_def)
qed

lemma cumulate_facts:
  "map row_price (cumulate f c ps) = ps"
  "length (cumulate f c ps) = length ps"
  "i < length ps \<Longrightarrow> row_amount (cumulate f c ps ! i) = f (ps ! i)"
  "i < length ps \<Longrightarrow> row_total (cumulate f c ps ! i) = c + sum_list (map f (take (Suc i) ps))"
proof (induction ps arbitrary: c i)
  case (Cons p ps)
  {
    case 3
    then show ?case using Cons.IH(3) by (cases i) auto
  next
    case 4
    then show ?case using Cons.IH(4) by (cases i) auto
  }
qed auto

lemma cumulate_last:
  assumes "ps \<noteq> []"
  shows "row_total (last (cumulate f 0 ps)) = sum_list (map f ps)"
proof -
  have len: "length (cumulate f 0 ps) = length ps" by (rule cumulate_facts(2))
  then have "cumulate f 0 ps \<noteq> []" using assms by (metis length_0_conv)
  then have "last (cumulate f 0 ps) = cumulate f 0 ps ! (length ps - 1)" by (metis last_conv_nth len)
  moreover have "take (Suc (length ps - 1)) ps = ps" using assms by (cases ps) auto
  moreover have "length ps - 1 < length ps" using assms by (cases ps) auto
  ultimately show ?thesis using cumulate_facts(4) [of "length ps - 1" ps f 0] by (simp only: add_0)
qed

text \<open>The running total never exceeds the last one when the amounts are positive.\<close>

lemma cumulate_total_bounds:
  assumes "\<forall>p \<in> set ps. 0 < f p" "i < length ps"
  shows "0 < row_total (cumulate f 0 ps ! i)"
    "row_total (cumulate f 0 ps ! i) \<le> row_total (last (cumulate f 0 ps))"
proof -
  have ne: "ps \<noteq> []" using assms(2) by auto
  have tot: "row_total (cumulate f 0 ps ! j) = sum_list (map f (take (Suc j) ps))" if "j < length ps" for j
    using cumulate_facts(4) [OF that] by simp
  have "f (hd ps) \<le> sum_list (map f (take (Suc i) ps))"
  proof (rule sum_list_member_le)
    show "hd ps \<in> set (take (Suc i) ps)" using ne by (cases ps) auto
    show "0 \<le> f y" if "y \<in> set (take (Suc i) ps)" for y
      using in_set_takeD [OF that] assms(1) by (simp add: less_imp_le)
  qed
  moreover have "0 < f (hd ps)" using assms(1) hd_in_set [OF ne] by blast
  ultimately show "0 < row_total (cumulate f 0 ps ! i)" using tot [OF assms(2)] by linarith
  have "sum_list (map f ps) = sum_list (map f (take (Suc i) ps)) + sum_list (map f (drop (Suc i) ps))"
    by (metis append_take_drop_id map_append sum_list_append)
  moreover have "0 \<le> sum_list (map f (drop (Suc i) ps))"
    by (rule sum_list_map_nonneg) (use assms in \<open>auto intro: less_imp_le dest: in_set_dropD\<close>)
  moreover have "row_total (last (cumulate f 0 ps)) = sum_list (map f ps)" by (rule cumulate_last [OF ne])
  ultimately show "row_total (cumulate f 0 ps ! i) \<le> row_total (last (cumulate f 0 ps))"
    using tot [OF assms(2)] by linarith
qed

lemma rows_prices:
  "map row_price (bid_rows agg) = take 250 (sort_desc id (object_keys agg))"
  "map row_price (ask_rows agg) = take 250 (sort (object_keys agg))"
  by (simp_all add: bid_rows_def ask_rows_def cumulate_facts)

lemma rows_positive:
  assumes "\<forall>kv \<in> set agg. 0 < snd kv" "set ps \<subseteq> fst ` set agg" "distinct (map fst agg)"
  shows "\<forall>p \<in> set ps. 0 < the (map_of agg p)"
proof
  fix p assume "p \<in> set ps"
  then obtain v where "(p, v) \<in> set agg" using assms(2) by force
  then have "map_of agg p = Some v" "0 < v" using assms(1,3) by auto
  then show "0 < the (map_of agg p)" by simp
qed

lemma with_percentage_simps [simp]:
  "row_price (with_percentage m r) = row_price r" "row_total (with_percentage m r) = row_total r"
  "row_amount (with_percentage m r) = row_amount r"
  "row_percentage (with_percentage m r) = row_total r / m * 100"
  by (simp_all add: with_percentage_def)

text \<open>All rows of a side lie within the total of its last row.\<close>

definition in_total :: "number \<Rightarrow> order_book_row list \<Rightarrow> bool" where
  "in_total m rs \<longleftrightarrow> (\<forall>r \<in> set rs. 0 < row_total r \<and> row_total r \<le> m)"

lemma within_cumulate:
  assumes "\<forall>p \<in> set ps. 0 < f p" "cumulate f 0 ps \<noteq> [] \<longrightarrow> row_total (last (cumulate f 0 ps)) \<le> m"
  shows "in_total m (cumulate f 0 ps)"
  unfolding in_total_def
proof
  fix r assume "r \<in> set (cumulate f 0 ps)"
  then obtain i where i: "i < length ps" "r = cumulate f 0 ps ! i"
    by (metis cumulate_facts(2) in_set_conv_nth)
  then have "cumulate f 0 ps \<noteq> []" by (metis cumulate_facts(2) length_0_conv not_less0)
  then show "0 < row_total r \<and> row_total r \<le> m"
    using cumulate_total_bounds [OF assms(1) i(1)] assms(2) i(2) by simp
qed

lemma rows_within:
  assumes "\<forall>kv \<in> set agg. 0 < snd kv" "distinct (map fst agg)"
  shows "bid_rows agg \<noteq> [] \<longrightarrow> row_total (last (bid_rows agg)) \<le> m \<Longrightarrow> in_total m (bid_rows agg)"
    "ask_rows agg \<noteq> [] \<longrightarrow> row_total (last (ask_rows agg)) \<le> m \<Longrightarrow> in_total m (ask_rows agg)"
proof -
  have "set (take 250 (sort_desc id (object_keys agg))) \<subseteq> fst ` set agg"
    "set (take 250 (sort (object_keys agg))) \<subseteq> fst ` set agg"
    using set_take_subset [of 250 "sort_desc id (object_keys agg)"] set_take_subset [of 250 "sort (object_keys agg)"]
    by auto
  note pos = this [THEN rows_positive [OF assms(1) _ assms(2)]]
  show "bid_rows agg \<noteq> [] \<longrightarrow> row_total (last (bid_rows agg)) \<le> m \<Longrightarrow> in_total m (bid_rows agg)"
    "ask_rows agg \<noteq> [] \<longrightarrow> row_total (last (ask_rows agg)) \<le> m \<Longrightarrow> in_total m (ask_rows agg)"
    unfolding bid_rows_def ask_rows_def
    by (rule within_cumulate [OF pos(1)], assumption) (rule within_cumulate [OF pos(2)], assumption)
qed

lemma percentage_range: "0 < t \<Longrightarrow> t \<le> m \<Longrightarrow> 0 < t / m * 100 \<and> t / m * 100 \<le> 100" for t :: number
  by (simp add: divide_le_eq)

text \<open>
  C16. The depth ladder is well formed: bids strictly descend and asks strictly ascend, there is at most one row per bucket
  and 250 rows per side, and every row's percentage of the larger side lies above 0 and at most at 100.
\<close>

theorem depth_is_well_formed:
  fixes st :: number
  assumes "\<forall>it \<in> set bids \<union> set asks. 0 < snd it"
  defines "ob \<equiv> depth_rows st bids asks"
  shows "sorted_wrt (\<lambda>r s. row_price s < row_price r) (ob_bids ob) \<and>
         sorted_wrt (\<lambda>r s. row_price r < row_price s) (ob_asks ob) \<and>
         length (ob_bids ob) \<le> 250 \<and> length (ob_asks ob) \<le> 250 \<and>
         (\<forall>r \<in> set (ob_bids ob) \<union> set (ob_asks ob). 0 < row_percentage r \<and> row_percentage r \<le> 100)"
proof (intro conjI)
  let ?B = "aggregate_levels (bucket_floor st) bids" and ?A = "aggregate_levels (bucket_ceil st) asks"
  let ?m = "max_total (bid_rows ?B) (ask_rows ?A)"
  have ob: "ob_bids ob = map (with_percentage ?m) (bid_rows ?B)" "ob_asks ob = map (with_percentage ?m) (ask_rows ?A)"
    by (simp_all add: ob_def depth_rows_def Let_def)
  have "sorted_wrt (>) (take 250 (sort_desc id (object_keys ?B)))"
    using sorted_distinct_desc [OF sorted_sort_desc [of id "object_keys ?B"]] aggregate_levels_facts(3)
    by (simp add: sorted_wrt_take sort_desc_def)
  then show "sorted_wrt (\<lambda>r s. row_price s < row_price r) (ob_bids ob)"
    unfolding rows_prices(1) [symmetric] ob by (simp add: sorted_wrt_map)
  have "sorted_wrt (<) (take 250 (sort (object_keys ?A)))"
    using aggregate_levels_facts(3) [of "bucket_ceil st" asks]
    by (simp add: sorted_wrt_take strict_sorted_iff)
  then show "sorted_wrt (\<lambda>r s. row_price r < row_price s) (ob_asks ob)"
    unfolding rows_prices(2) [symmetric] ob by (simp add: sorted_wrt_map)
  show "length (ob_bids ob) \<le> 250" "length (ob_asks ob) \<le> 250"
    by (simp_all add: ob bid_rows_def ask_rows_def cumulate_facts)
  have "in_total ?m (bid_rows ?B)" "in_total ?m (ask_rows ?A)"
    using assms(1)
    by (intro rows_within aggregate_levels_pos aggregate_levels_facts(3); simp add: max_total_def)+
  then show "\<forall>r \<in> set (ob_bids ob) \<union> set (ob_asks ob). 0 < row_percentage r \<and> row_percentage r \<le> 100"
    using percentage_range by (auto simp: ob in_total_def)
qed

text \<open>
  No quantity is lost by bucketing: when the orders of a side fall into at most 250 buckets, the total of its last
  row is the sum of all their quantities, and the rows' prices are exactly the buckets of the orders.
\<close>

theorem depth_keeps_quantity:
  fixes st :: number and asks :: "(number \<times> number) list"
  assumes "card (bucket_floor st ` fst ` set bids) \<le> 250" "bids \<noteq> []"
  defines "rows \<equiv> ob_bids (depth_rows st bids asks)"
  shows "row_total (last rows) = sum_list (map snd bids) \<and>
         row_price ` set rows = bucket_floor st ` fst ` set bids"
proof -
  let ?B = "aggregate_levels (bucket_floor st) bids"
  let ?f = "\<lambda>p. the (map_of ?B p)" and ?ps = "sort_desc id (object_keys ?B)"
  have d: "distinct (map fst ?B)" by (rule aggregate_levels_facts)
  have keys: "fst ` set ?B = bucket_floor st ` fst ` set bids" by (rule aggregate_levels_facts)
  have "length ?B = card (fst ` set ?B)" using distinct_card [OF d] by simp
  with assms(1) keys have "length ?ps \<le> 250" by simp
  then have rows0: "bid_rows ?B = cumulate ?f 0 ?ps" by (simp add: bid_rows_def)
  have ne: "?ps \<noteq> []" using keys assms(2) by (metis empty_set image_is_empty set_empty set_object_keys set_sort_desc)
  define m where "m = max_total (bid_rows ?B) (ask_rows (aggregate_levels (bucket_ceil st) asks))"
  have m: "rows = map (with_percentage m) (bid_rows ?B)"
    by (simp add: rows_def depth_rows_def Let_def m_def)
  have "row_total (last (cumulate ?f 0 ?ps)) = sum_list (map ?f ?ps)" by (rule cumulate_last [OF ne])
  also have "\<dots> = sum_list (map ?f (object_keys ?B))" by (rule sum_list_mset_cong) simp
  also have "\<dots> = sum_list (map snd bids)"
    using sum_object_keys [OF d, of id] aggregate_levels_facts(1) [of "bucket_floor st" bids] by simp
  finally have total: "row_total (last (cumulate ?f 0 ?ps)) = sum_list (map snd bids)" .
  have ne': "cumulate ?f 0 ?ps \<noteq> []" using ne by (metis cumulate_facts(2) length_0_conv)
  have "row_price ` set (bid_rows ?B) = set (map row_price (bid_rows ?B))" by simp
  also have "\<dots> = set ?ps" unfolding rows0 cumulate_facts(1) by simp
  finally have "row_price ` set (bid_rows ?B) = bucket_floor st ` fst ` set bids" using keys by simp
  then have "row_price ` set rows = bucket_floor st ` fst ` set bids" unfolding m by (simp add: image_image)
  moreover have "row_total (last rows) = row_total (last (bid_rows ?B))"
    unfolding m rows0 using ne' by (simp add: last_map)
  ultimately show ?thesis using total rows0 by simp
qed

subsection \<open>Witnesses\<close>

definition wit_trade :: "int \<Rightarrow> trade" where
  "wit_trade i = \<lparr>t_a = i, t_p = 10, t_q = 1, t_T = 0, t_m = True\<rparr>"

definition wit_history :: "nat \<Rightarrow> trade list" where
  "wit_history n = map wit_trade [1 .. int n]"

lemma wit_history_ok: "exchange_history (wit_history n)" "length (wit_history n) = n"
  by (simp_all add: exchange_history_def wit_history_def comp_def wit_trade_def)

theorem tick_pages_are_contiguous_witness:
  "all_trades (latest_page (wit_history 4001)) (id_page (wit_history 4001)) = drop 1 (wit_history 4001)"
  using tick_pages_are_contiguous [OF wit_history_ok(1), of 4001] by (simp add: wit_history_ok)

theorem short_history_counts_trades_repeatedly_witness:
  "length (all_trades (latest_page (wit_history 700)) (id_page (wit_history 700))) = 2800"
proof -
  have "wit_history 700 \<noteq> []" using wit_history_ok(2) [of 700] by fastforce
  from short_history_counts_trades_repeatedly [OF wit_history_ok(1) this] show ?thesis
    by (simp add: wit_history_ok)
qed


definition wit_kline :: kline where
  "wit_kline = \<lparr>k_time = 0, k_open = 10, k_high = 12, k_low = 9, k_close = 11, k_volume = 8, k_takerBuyVol = 5\<rparr>"

lemma wit_kline_ok: "(0::number) < 1" "k_low wit_kline \<le> k_high wit_kline" "0 < k_volume wit_kline"
  by (simp_all add: wit_kline_def)

theorem kline_cells_keep_volume_witness:
  "sum_list (map tc_volume (tempCells 1 wit_kline)) = 8"
  using kline_cells_keep_volume [OF wit_kline_ok] by (simp add: wit_kline_def)

theorem kline_has_one_poc_witness:
  "\<exists>c. filter isPoc (c_cells (candle_of_kline 1 wit_kline)) = [c]"
  using kline_has_one_poc [OF wit_kline_ok] by auto

theorem depth_is_well_formed_witness:
  "length (ob_bids (depth_rows 1 [(10, 2), (9, 3)] [(11, 1)])) \<le> 250"
  using depth_is_well_formed [of "[(10, 2), (9, 3)]" "[(11, 1)]" 1] by simp

theorem depth_keeps_quantity_witness:
  "row_total (last (ob_bids (depth_rows 1 [(10, 2), (9, 3)] [(11, 1)]))) = 5"
  using depth_keeps_quantity [of 1 "[(10, 2), (9, 3)]" "[(11, 1)]"] by (simp add: card_insert_if)

end
