(* ===== verification/DomTrading.thy ===== *)
theory DomTrading
  imports ChartTypes
begin

text \<open>
  The trading simulator of the order book sidebar (\<open>frontend-chart/src/components/DOMSidebar.tsx\<close>): a cash
  balance, one signed position with its average entry price, and working limit orders that a
  matching effect fills when the price of the active pair changes.

  The handlers run on the state of the render they belong to; of several \<open>setBalance\<close> calls in one
  handler the last plain value wins. The numbers of the two input fields are the state's
  \<open>d_size\<close> and \<open>d_limit\<close>, \<open>None\<close> for a text that does not start with a number. The messages of
  the log are constructors that carry the numbers printed in them.
\<close>

section \<open>The state\<close>

record limit_order =
  lo_id :: nat
  lo_price :: number
  lo_size :: number
  lo_side :: side
  lo_symbol :: string

datatype log_type = Log_info | Log_buy | Log_sell | Log_cancel

datatype log_message =
    RouterOnline | TipClickRow
  | FilledLimitBuy number number | RejectedLimitBuy number | FilledLimitSell number number
  | RejectedMarketBuy number number | MarketBuyFilled number number | MarketSellFilled number number
  | InvalidLimit | PlacedLimit side number number | CancelledLimit side number | CancelledAll
  | LiquidatedLong number number | LiquidatedShort number number

record dom =
  d_balance :: number
  d_position :: number
  d_entryPrice :: number
  d_limitOrders :: "limit_order list"
  d_tradeLogs :: "(log_message \<times> log_type) list"
  d_prevPrice :: number
  d_size :: "number option"
  d_limit :: "number option"

definition addLog :: "log_message \<Rightarrow> log_type \<Rightarrow> dom \<Rightarrow> dom" where
  "addLog message type d = d\<lparr>d_tradeLogs := take 30 ((message, type) # d_tradeLogs d)\<rparr>"

text \<open>The first render, from what was saved: a balance, a position, an entry price, the orders.\<close>

definition dom_init :: "number option \<Rightarrow> number option \<Rightarrow> number option \<Rightarrow> limit_order list \<Rightarrow> number \<Rightarrow> dom" where
  "dom_init savedBalance savedPosition savedEntry savedOrders price =
     addLog TipClickRow Log_info
       (addLog RouterOnline Log_info
         \<lparr>d_balance = (case savedBalance of Some b \<Rightarrow> b | None \<Rightarrow> 100000),
          d_position = (case savedPosition of Some p \<Rightarrow> p | None \<Rightarrow> 0),
          d_entryPrice = (case savedEntry of Some e \<Rightarrow> e | None \<Rightarrow> 0),
          d_limitOrders = savedOrders, d_tradeLogs = [], d_prevPrice = price,
          d_size = Some (1 / 2), d_limit = Some (toFixed 2 price)\<rparr>)"

definition tradeSize :: "dom \<Rightarrow> number" where
  "tradeSize d = (case d_size d of Some n \<Rightarrow> or_else n 0 | None \<Rightarrow> 0)"

definition limitPrice :: "dom \<Rightarrow> number" where
  "limitPrice d = (case d_limit d of Some n \<Rightarrow> or_else n 0 | None \<Rightarrow> 0)"

definition unrealizedPnL :: "number \<Rightarrow> dom \<Rightarrow> number" where
  "unrealizedPnL price d = (if d_position d \<noteq> 0 then d_position d * (price - d_entryPrice d) else 0)"

section \<open>The matching engine\<close>

record account =
  ac_balance :: number
  ac_position :: number
  ac_entryPrice :: number

definition isTriggered :: "number \<Rightarrow> number \<Rightarrow> limit_order \<Rightarrow> bool" where
  "isTriggered prevPrice currentPrice order =
     (let minPrice = min prevPrice currentPrice; maxPrice = max prevPrice currentPrice in
      case lo_side order of
        Buy_side \<Rightarrow> lo_price order \<ge> currentPrice \<or> (lo_price order \<ge> minPrice \<and> lo_price order \<le> maxPrice)
      | Sell_side \<Rightarrow> lo_price order \<le> currentPrice \<or> (lo_price order \<ge> minPrice \<and> lo_price order \<le> maxPrice))"

text \<open>The average entry price when a position of size \<open>prevSize\<close> grows.\<close>

definition averaged :: "number \<Rightarrow> number \<Rightarrow> number \<Rightarrow> number \<Rightarrow> number" where
  "averaged prevSize entry price qty =
     (let nextSize = prevSize + qty in
      if nextSize > 0 then (prevSize * entry + price * qty) / nextSize else 0)"

definition fill_buy :: "limit_order \<Rightarrow> account \<Rightarrow> account" where
  "fill_buy order a =
     (let a1 = a\<lparr>ac_balance := ac_balance a - lo_price order * lo_size order\<rparr> in
      if ac_position a1 \<ge> 0
      then a1\<lparr>ac_entryPrice := averaged (ac_position a1) (ac_entryPrice a1) (lo_price order) (lo_size order),
              ac_position := ac_position a1 + lo_size order\<rparr>
      else
        let shortCovered = min (- ac_position a1) (lo_size order);
            remainingAdd = lo_size order - shortCovered;
            shortProfit = shortCovered * (ac_entryPrice a1 - lo_price order);
            a2 = a1\<lparr>ac_balance := ac_balance a1 + shortProfit\<rparr>
        in if remainingAdd > 0
           then a2\<lparr>ac_position := remainingAdd, ac_entryPrice := lo_price order\<rparr>
           else
             let p = ac_position a2 + shortCovered
             in a2\<lparr>ac_position := p, ac_entryPrice := (if p = 0 then 0 else ac_entryPrice a2)\<rparr>)"

definition fill_sell :: "limit_order \<Rightarrow> account \<Rightarrow> account" where
  "fill_sell order a =
     (if ac_position a \<le> 0
      then a\<lparr>ac_entryPrice := averaged \<bar>ac_position a\<bar> (ac_entryPrice a) (lo_price order) (lo_size order),
             ac_position := - (\<bar>ac_position a\<bar> + lo_size order)\<rparr>
      else
        let longCovered = min (ac_position a) (lo_size order);
            remainingShort = lo_size order - longCovered;
            longProfit = longCovered * (lo_price order - ac_entryPrice a);
            a1 = a\<lparr>ac_balance := ac_balance a + longProfit + longCovered * lo_price order\<rparr>
        in if remainingShort > 0
           then a1\<lparr>ac_position := - remainingShort, ac_entryPrice := lo_price order\<rparr>
           else
             let p = ac_position a1 - longCovered
             in a1\<lparr>ac_position := p, ac_entryPrice := (if p = 0 then 0 else ac_entryPrice a1)\<rparr>)"

text \<open>One iteration of the loop: the account, the remaining orders, whether any was filled, the log.\<close>

record matching =
  mt_account :: account
  mt_remaining :: "limit_order list"
  mt_anyFilled :: bool
  mt_logs :: "(log_message \<times> log_type) list"

definition match_order :: "string \<Rightarrow> number \<Rightarrow> number \<Rightarrow> limit_order \<Rightarrow> matching \<Rightarrow> matching" where
  "match_order symbol prevPrice currentPrice order m =
     (if lo_symbol order \<noteq> symbol then m\<lparr>mt_remaining := mt_remaining m @ [order]\<rparr>
      else if \<not> isTriggered prevPrice currentPrice order then m\<lparr>mt_remaining := mt_remaining m @ [order]\<rparr>
      else let m1 = m\<lparr>mt_anyFilled := True\<rparr> in
        case lo_side order of
          Buy_side \<Rightarrow>
            if ac_balance (mt_account m1) \<ge> lo_price order * lo_size order
            then m1\<lparr>mt_account := fill_buy order (mt_account m1),
                    mt_logs := mt_logs m1 @ [(FilledLimitBuy (lo_size order) (lo_price order), Log_buy)]\<rparr>
            else m1\<lparr>mt_logs := mt_logs m1 @ [(RejectedLimitBuy (lo_price order), Log_cancel)]\<rparr>
        | Sell_side \<Rightarrow>
            m1\<lparr>mt_account := fill_sell order (mt_account m1),
               mt_logs := mt_logs m1 @ [(FilledLimitSell (lo_size order) (lo_price order), Log_sell)]\<rparr>)"

definition account_of :: "dom \<Rightarrow> account" where
  "account_of d = \<lparr>ac_balance = d_balance d, ac_position = d_position d, ac_entryPrice = d_entryPrice d\<rparr>"

definition match_all :: "string \<Rightarrow> number \<Rightarrow> dom \<Rightarrow> matching" where
  "match_all symbol currentPrice d =
     fold (match_order symbol (d_prevPrice d) currentPrice) (d_limitOrders d)
       \<lparr>mt_account = account_of d, mt_remaining = [], mt_anyFilled = False, mt_logs = []\<rparr>"

text \<open>The effect, run with the symbol and the price of the active pair.\<close>

definition match_effect :: "string \<Rightarrow> number \<Rightarrow> dom \<Rightarrow> dom" where
  "match_effect symbol currentPrice d =
     (if currentPrice = d_prevPrice d then d
      else if d_limitOrders d = [] then d\<lparr>d_prevPrice := currentPrice\<rparr>
      else
        let m = match_all symbol currentPrice d;
            d1 = fold (\<lambda>(msg, ty). addLog msg ty) (mt_logs m) d;
            d2 = (if mt_anyFilled m
                  then d1\<lparr>d_balance := toFixed 2 (ac_balance (mt_account m)),
                          d_position := toFixed 4 (ac_position (mt_account m)),
                          d_entryPrice := toFixed 4 (ac_entryPrice (mt_account m)),
                          d_limitOrders := mt_remaining m\<rparr>
                  else d1)
        in d2\<lparr>d_prevPrice := currentPrice\<rparr>)"

section \<open>The handlers\<close>

text \<open>
  The profit of a covered short is first added to the balance by a functional update; the plain
  \<open>setBalance(nextBalance)\<close> after it replaces that value.
\<close>

definition handleMarketBuy :: "number \<Rightarrow> dom \<Rightarrow> dom" where
  "handleMarketBuy price d =
     (let size = tradeSize d; orderCost = price * size in
      if size \<le> 0 then d
      else if d_balance d < orderCost then addLog (RejectedMarketBuy (d_balance d) orderCost) Log_cancel d
      else
        let nextBalance = d_balance d - orderCost;
            (d1, nextPosition, nextEntryPrice) =
              (if d_position d \<ge> 0
               then (d, d_position d + size, averaged (d_position d) (d_entryPrice d) price size)
               else
                 let shortCovered = min (- d_position d) size;
                     remainingLong = size - shortCovered;
                     profit = shortCovered * (d_entryPrice d - price);
                     d' = d\<lparr>d_balance := toFixed 2 (d_balance d + profit)\<rparr>
                 in if remainingLong > 0 then (d', remainingLong, price)
                    else let p = d_position d + shortCovered
                         in (d', p, if p = 0 then 0 else d_entryPrice d))
        in addLog (MarketBuyFilled size price) Log_buy
             (d1\<lparr>d_balance := toFixed 2 nextBalance, d_position := toFixed 4 nextPosition,
                 d_entryPrice := toFixed 4 nextEntryPrice\<rparr>))"

definition handleMarketSell :: "number \<Rightarrow> dom \<Rightarrow> dom" where
  "handleMarketSell price d =
     (let size = tradeSize d in
      if size \<le> 0 then d
      else
        let (nextBalance, nextPosition, nextEntryPrice) =
              (if d_position d \<le> 0
               then (d_balance d, - (\<bar>d_position d\<bar> + size), averaged \<bar>d_position d\<bar> (d_entryPrice d) price size)
               else
                 let longCovered = min (d_position d) size;
                     remainingShort = size - longCovered;
                     profit = longCovered * (price - d_entryPrice d);
                     b = d_balance d + profit + longCovered * price
                 in if remainingShort > 0 then (b, - remainingShort, price)
                    else let p = d_position d - longCovered
                         in (b, p, if p = 0 then 0 else d_entryPrice d))
        in addLog (MarketSellFilled size price) Log_sell
             (d\<lparr>d_balance := toFixed 2 nextBalance, d_position := toFixed 4 nextPosition,
                d_entryPrice := toFixed 4 nextEntryPrice\<rparr>))"

text \<open>\<open>newId\<close> stands for the random id of the new order.\<close>

definition handlePlaceLimit :: "nat \<Rightarrow> string \<Rightarrow> side \<Rightarrow> number option \<Rightarrow> dom \<Rightarrow> dom" where
  "handlePlaceLimit newId symbol side customPrice d =
     (let targetPrice = (case customPrice of Some p \<Rightarrow> or_else p (limitPrice d) | None \<Rightarrow> limitPrice d);
          size = tradeSize d
      in if targetPrice \<le> 0 \<or> size \<le> 0 then addLog InvalidLimit Log_cancel d
         else
           let newOrder = \<lparr>lo_id = newId, lo_price = toFixed 4 targetPrice, lo_size = size,
                           lo_side = side, lo_symbol = symbol\<rparr>
           in addLog (PlacedLimit side size targetPrice) Log_info
                (d\<lparr>d_limitOrders := sort_desc lo_price (d_limitOrders d @ [newOrder])\<rparr>))"

definition cancelLimitOrder :: "nat \<Rightarrow> dom \<Rightarrow> dom" where
  "cancelLimitOrder i d =
     (case find (\<lambda>od. lo_id od = i) (d_limitOrders d) of
        None \<Rightarrow> d
      | Some found \<Rightarrow>
          addLog (CancelledLimit (lo_side found) (lo_price found)) Log_cancel
            (d\<lparr>d_limitOrders := filter (\<lambda>order. lo_id order \<noteq> i) (d_limitOrders d)\<rparr>))"

definition handleCancelAll :: "dom \<Rightarrow> dom" where
  "handleCancelAll d =
     (if d_limitOrders d = [] then d else addLog CancelledAll Log_cancel (d\<lparr>d_limitOrders := []\<rparr>))"

definition handleClosePosition :: "number \<Rightarrow> dom \<Rightarrow> dom" where
  "handleClosePosition price d =
     (if d_position d = 0 then d
      else
        let (nextBalance, d1) =
              (if d_position d > 0
               then let profit = d_position d * (price - d_entryPrice d)
                    in (d_balance d + (profit + d_position d * price),
                        addLog (LiquidatedLong (d_position d) price) Log_sell d)
               else let shortCovered = \<bar>d_position d\<bar>;
                        profit = shortCovered * (d_entryPrice d - price)
                    in (d_balance d + profit, addLog (LiquidatedShort shortCovered price) Log_buy d))
        in d1\<lparr>d_balance := toFixed 2 nextBalance, d_position := 0, d_entryPrice := 0\<rparr>)"

definition handleRowPriceClick :: "number \<Rightarrow> dom \<Rightarrow> dom" where
  "handleRowPriceClick price d = d\<lparr>d_limit := Some (toFixed 2 price)\<rparr>"

section \<open>The view\<close>

datatype sentiment = ExtremeFear | Fear | Neutral | Greed | ExtremeGreed

definition getSentimentLabel :: "number \<Rightarrow> sentiment" where
  "getSentimentLabel val =
     (if val \<le> 25 then ExtremeFear else if val \<le> 45 then Fear else if val \<le> 54 then Neutral
      else if val \<le> 75 then Greed else ExtremeGreed)"

text \<open>The scroll position that centres the spread, and whether the idle timer moves to it.\<close>

definition scroll_midpoint :: "nat \<Rightarrow> number \<Rightarrow> number" where
  "scroll_midpoint asks clientHeight = (real (min 200 asks) * 18 + 22) - clientHeight / 2"

definition auto_center :: "number \<Rightarrow> number \<Rightarrow> nat \<Rightarrow> number \<Rightarrow> number \<Rightarrow> number option" where
  "auto_center now lastInteraction asks clientHeight scrollTop =
     (let midPoint = scroll_midpoint asks clientHeight in
      if now - lastInteraction \<ge> 1000 \<and> \<bar>scrollTop - midPoint\<bar> > 5 then Some midPoint else None)"

definition reversedAsks :: "order_book \<Rightarrow> order_book_row list" where
  "reversedAsks ob = rev (take 200 (ob_asks ob))"

definition slicedBids :: "order_book \<Rightarrow> order_book_row list" where
  "slicedBids ob = take 200 (ob_bids ob)"

definition maxAmountInBook :: "order_book \<Rightarrow> number" where
  "maxAmountInBook ob = Max (insert 1 (row_amount ` (set (ob_bids ob) \<union> set (ob_asks ob))))"

section \<open>Steps\<close>

text \<open>The price and symbol of the active pair change, and the user trades.\<close>

inductive dom_step :: "dom \<Rightarrow> dom \<Rightarrow> bool" where
  price_changed: "0 \<le> price \<Longrightarrow> dom_step d (match_effect symbol price d)"
| market_buy: "0 \<le> price \<Longrightarrow> dom_step d (handleMarketBuy price d)"
| market_sell: "0 \<le> price \<Longrightarrow> dom_step d (handleMarketSell price d)"
| place_limit: "i \<notin> lo_id ` set (d_limitOrders d) \<Longrightarrow> dom_step d (handlePlaceLimit i symbol side custom d)"
| cancel: "dom_step d (cancelLimitOrder i d)"
| cancel_all: "dom_step d (handleCancelAll d)"
| close_position: "0 \<le> price \<Longrightarrow> dom_step d (handleClosePosition price d)"
| row_click: "dom_step d (handleRowPriceClick price d)"
| inputs: "dom_step d (d\<lparr>d_size := a, d_limit := b\<rparr>)"

definition orders_inv :: "limit_order list \<Rightarrow> bool" where
  "orders_inv os \<longleftrightarrow>
     sorted_wrt (\<lambda>o1 o2. lo_price o2 \<le> lo_price o1) os \<and> distinct (map lo_id os) \<and>
     (\<forall>od \<in> set os. 0 \<le> lo_price od \<and> 0 < lo_size od)"

definition dom_inv :: "dom \<Rightarrow> bool" where
  "dom_inv d \<longleftrightarrow>
     orders_inv (d_limitOrders d) \<and> 0 \<le> d_entryPrice d \<and> length (d_tradeLogs d) \<le> 30"

section \<open>Lemmas\<close>

lemma addLog_simps [simp]:
  "d_balance (addLog m t d) = d_balance d" "d_position (addLog m t d) = d_position d"
  "d_entryPrice (addLog m t d) = d_entryPrice d" "d_limitOrders (addLog m t d) = d_limitOrders d"
  "d_prevPrice (addLog m t d) = d_prevPrice d" "d_size (addLog m t d) = d_size d"
  "d_limit (addLog m t d) = d_limit d"
  "length (d_tradeLogs (addLog m t d)) = min 30 (Suc (length (d_tradeLogs d)))"
  by (simp_all add: addLog_def)

lemma fold_addLog [simp]:
  "d_balance (fold (\<lambda>(m, t). addLog m t) ls d) = d_balance d"
  "d_position (fold (\<lambda>(m, t). addLog m t) ls d) = d_position d"
  "d_entryPrice (fold (\<lambda>(m, t). addLog m t) ls d) = d_entryPrice d"
  "d_limitOrders (fold (\<lambda>(m, t). addLog m t) ls d) = d_limitOrders d"
  "d_size (fold (\<lambda>(m, t). addLog m t) ls d) = d_size d"
  "d_limit (fold (\<lambda>(m, t). addLog m t) ls d) = d_limit d"
  "length (d_tradeLogs d) \<le> 30 \<Longrightarrow> length (d_tradeLogs (fold (\<lambda>(m, t). addLog m t) ls d)) \<le> 30"
  by (induction ls arbitrary: d) auto

lemma averaged_nonneg:
  "0 \<le> p \<Longrightarrow> 0 \<le> e \<Longrightarrow> 0 \<le> price \<Longrightarrow> 0 \<le> q \<Longrightarrow> 0 \<le> averaged p e price q"
  by (simp add: averaged_def Let_def)

lemma averaged_fresh [simp]: "0 < q \<Longrightarrow> averaged 0 e price q = price"
  by (simp add: averaged_def)

lemma fill_entry_nonneg:
  assumes "0 \<le> ac_entryPrice a" "0 \<le> lo_price od" "0 < lo_size od"
  shows "0 \<le> ac_entryPrice (fill_buy od a)" "0 \<le> ac_entryPrice (fill_sell od a)"
  using assms by (auto simp: fill_buy_def fill_sell_def Let_def intro: averaged_nonneg)

text \<open>What the loop keeps: the orders that are of another symbol or not triggered, in their order.\<close>

lemma match_orders_remaining:
  "mt_remaining (fold (match_order sy prev cur) os m) =
     mt_remaining m @ filter (\<lambda>od. \<not> (lo_symbol od = sy \<and> isTriggered prev cur od)) os"
  "mt_anyFilled (fold (match_order sy prev cur) os m) \<longleftrightarrow>
     mt_anyFilled m \<or> (\<exists>od \<in> set os. lo_symbol od = sy \<and> isTriggered prev cur od)"
  by (induction os arbitrary: m) (auto simp: match_order_def Let_def split: side.splits)

lemma match_orders_entry:
  assumes "\<forall>od \<in> set os. 0 \<le> lo_price od \<and> 0 < lo_size od" "0 \<le> ac_entryPrice (mt_account m)"
  shows "0 \<le> ac_entryPrice (mt_account (fold (match_order sy prev cur) os m))"
  using assms
proof (induction os arbitrary: m)
  case (Cons od os)
  have "0 \<le> ac_entryPrice (mt_account (match_order sy prev cur od m))"
    using Cons.prems fill_entry_nonneg [of "mt_account m" od]
    by (auto simp: match_order_def Let_def split: side.splits)
  then show ?case using Cons.IH [of "match_order sy prev cur od m"] Cons.prems(1) by simp
qed simp

lemma orders_inv_filter: "orders_inv os \<Longrightarrow> orders_inv (filter P os)"
  by (auto simp: orders_inv_def sorted_wrt_filter distinct_map_filter)

lemma orders_inv_insert:
  assumes "orders_inv os" "lo_id od \<notin> lo_id ` set os" "0 \<le> lo_price od" "0 < lo_size od"
  shows "orders_inv (sort_desc lo_price (os @ [od]))"
proof -
  have "mset (map lo_id (sort_desc lo_price (os @ [od]))) = mset (map lo_id (os @ [od]))" by simp
  then have "distinct (map lo_id (sort_desc lo_price (os @ [od]))) = distinct (map lo_id (os @ [od]))"
    by (rule mset_eq_imp_distinct_iff)
  then show ?thesis using assms sorted_sort_desc [of lo_price] by (auto simp: orders_inv_def)
qed

text \<open>The matching effect in terms of the loop.\<close>

lemma match_effect_orders:
  "d_limitOrders (match_effect sy cur d) =
     (if cur = d_prevPrice d then d_limitOrders d
      else filter (\<lambda>od. \<not> (lo_symbol od = sy \<and> isTriggered (d_prevPrice d) cur od)) (d_limitOrders d))"
proof (cases "cur = d_prevPrice d \<or> d_limitOrders d = []")
  case False
  let ?P = "\<lambda>od. lo_symbol od = sy \<and> isTriggered (d_prevPrice d) cur od"
  have "filter (\<lambda>od. \<not> ?P od) (d_limitOrders d) = d_limitOrders d" if "\<not> (\<exists>od \<in> set (d_limitOrders d). ?P od)"
    using that by (simp add: filter_id_conv)
  with False show ?thesis
    by (auto simp: match_effect_def Let_def match_all_def match_orders_remaining)
qed (auto simp: match_effect_def)

lemma dom_inv_match: "dom_inv d \<Longrightarrow> dom_inv (match_effect sy cur d)"
  using match_orders_entry [of "d_limitOrders d"
      "\<lparr>mt_account = account_of d, mt_remaining = [], mt_anyFilled = False, mt_logs = []\<rparr>" sy "d_prevPrice d" cur]
  by (auto simp: dom_inv_def match_effect_orders orders_inv_filter)
     (auto simp: match_effect_def Let_def match_all_def account_of_def orders_inv_def toFixed_nonneg)

lemma dom_inv_market_buy: "dom_inv d \<Longrightarrow> 0 \<le> price \<Longrightarrow> dom_inv (handleMarketBuy price d)"
  by (auto simp: dom_inv_def handleMarketBuy_def Let_def averaged_nonneg toFixed_nonneg)

lemma dom_inv_market_sell: "dom_inv d \<Longrightarrow> 0 \<le> price \<Longrightarrow> dom_inv (handleMarketSell price d)"
  by (auto simp: dom_inv_def handleMarketSell_def Let_def averaged_nonneg toFixed_nonneg)

lemma dom_inv_place:
  "dom_inv d \<Longrightarrow> i \<notin> lo_id ` set (d_limitOrders d) \<Longrightarrow> dom_inv (handlePlaceLimit i sy sd custom d)"
  unfolding dom_inv_def handlePlaceLimit_def Let_def
  by (cases custom) (auto intro!: orders_inv_insert toFixed_nonneg)

lemma dom_inv_cancel: "dom_inv d \<Longrightarrow> dom_inv (cancelLimitOrder i d)"
  by (auto simp: dom_inv_def cancelLimitOrder_def orders_inv_filter split: option.splits)

lemma dom_inv_rest:
  "dom_inv d \<Longrightarrow> dom_inv (handleCancelAll d)" "dom_inv d \<Longrightarrow> dom_inv (handleClosePosition price d)"
  "dom_inv d \<Longrightarrow> dom_inv (handleRowPriceClick price d)" "dom_inv d \<Longrightarrow> dom_inv (d\<lparr>d_size := a, d_limit := b\<rparr>)"
  by (auto simp: dom_inv_def handleCancelAll_def handleClosePosition_def handleRowPriceClick_def Let_def orders_inv_def)

lemma dom_step_inv: "dom_step d d' \<Longrightarrow> dom_inv d \<Longrightarrow> dom_inv d'"
  by (induction rule: dom_step.induct)
     (simp_all add: dom_inv_match dom_inv_market_buy dom_inv_market_sell dom_inv_place dom_inv_cancel dom_inv_rest)

text \<open>Trading from a flat position, with sizes and prices of at most four decimals.\<close>

definition four :: "number \<Rightarrow> bool" where
  "four x \<longleftrightarrow> toFixed 4 x = x \<and> 0 < x"

lemma buy_from_flat:
  assumes "d_position d = 0" "tradeSize d = q" "four q" "four p" "p * q \<le> d_balance d"
  shows "d_balance (handleMarketBuy p d) = toFixed 2 (d_balance d - p * q)"
    "d_position (handleMarketBuy p d) = q" "d_entryPrice (handleMarketBuy p d) = p"
    "tradeSize (handleMarketBuy p d) = q"
  using assms by (simp_all add: handleMarketBuy_def Let_def four_def tradeSize_def)

lemma sell_from_flat:
  assumes "d_position d = 0" "tradeSize d = q" "four q" "four p"
  shows "d_balance (handleMarketSell p d) = toFixed 2 (d_balance d)"
    "d_position (handleMarketSell p d) = - q" "d_entryPrice (handleMarketSell p d) = p"
    "tradeSize (handleMarketSell p d) = q"
  using assms by (simp_all add: handleMarketSell_def Let_def four_def tradeSize_def)

section \<open>Properties\<close>

text \<open>
  C14. Every operation of the simulator keeps its state well formed: the working orders stay sorted by descending
  price with distinct ids, non-negative prices and positive sizes, the average entry price stays non-negative and
  the log holds at most 30 lines.
\<close>

theorem simulator_stays_well_formed:
  assumes "dom_step\<^sup>*\<^sup>* d d'" "dom_inv d"
  shows "dom_inv d'"
  using assms by (induction rule: rtranclp_induct) (simp_all add: dom_step_inv)

text \<open>
  C5. The matching effect takes out exactly the orders of the active symbol that the price move triggers, and keeps
  all others untouched and in order; a buy order is triggered exactly when its price is at or above the lower of
  the last and the new price, a sell order exactly when it is at or below the higher of them.
\<close>

theorem matching_takes_triggered_orders:
  assumes "cur \<noteq> d_prevPrice d"
  shows "d_limitOrders (match_effect sy cur d) =
           filter (\<lambda>od. \<not> (lo_symbol od = sy \<and> isTriggered (d_prevPrice d) cur od)) (d_limitOrders d) \<and>
         (\<forall>od. lo_side od = Buy_side \<longrightarrow>
            (isTriggered prev cur od \<longleftrightarrow> min prev cur \<le> lo_price od)) \<and>
         (\<forall>od. lo_side od = Sell_side \<longrightarrow>
            (isTriggered prev cur od \<longleftrightarrow> lo_price od \<le> max prev cur))"
  using assms by (auto simp: match_effect_orders isTriggered_def Let_def)

text \<open>
  Closing a long pays its profit twice: after a market buy of \<open>q\<close> at \<open>p1\<close> from a flat position, closing it at
  \<open>p2\<close>, by the close button as well as by a market sell, leaves the balance at \<open>b + 2 q (p2 - p1)\<close>, up to a
  cent of rounding, because both the profit and the whole sale value are credited.
\<close>

theorem closing_long_pays_profit_twice:
  assumes "d_position d = 0" "tradeSize d = q" "four q" "four p1" "p1 * q \<le> d_balance d" "0 \<le> p2"
  shows "\<bar>d_balance (handleClosePosition p2 (handleMarketBuy p1 d)) - (d_balance d + 2 * q * (p2 - p1))\<bar> \<le> 1 / 100 \<and>
         \<bar>d_balance (handleMarketSell p2 (handleMarketBuy p1 d)) - (d_balance d + 2 * q * (p2 - p1))\<bar> \<le> 1 / 100 \<and>
         d_position (handleClosePosition p2 (handleMarketBuy p1 d)) = 0 \<and>
         d_position (handleMarketSell p2 (handleMarketBuy p1 d)) = 0"
proof -
  note b = buy_from_flat [OF assms(1-5)]
  have q: "0 < q" using assms(3) by (simp add: four_def)
  let ?b = "toFixed 2 (d_balance d - p1 * q)" and ?y = "q * (p2 - p1) + q * p2"
  have "d_balance (handleClosePosition p2 (handleMarketBuy p1 d)) = toFixed 2 (?b + ?y)"
    "d_balance (handleMarketSell p2 (handleMarketBuy p1 d)) = toFixed 2 (?b + ?y)"
    using b q by (simp_all add: handleClosePosition_def handleMarketSell_def Let_def add.assoc)
  moreover have "d_balance d - p1 * q + ?y = d_balance d + 2 * q * (p2 - p1)" by (simp add: algebra_simps)
  with toFixed_twice [of 2 "d_balance d - p1 * q" ?y]
  have "\<bar>toFixed 2 (?b + ?y) - (d_balance d + 2 * q * (p2 - p1))\<bar> \<le> 1 / 100" by simp
  moreover have "d_position (handleClosePosition p2 (handleMarketBuy p1 d)) = 0"
    "d_position (handleMarketSell p2 (handleMarketBuy p1 d)) = 0"
    using b q by (simp_all add: handleClosePosition_def handleMarketSell_def Let_def)
  ultimately show ?thesis by simp
qed

text \<open>
  Covering a short gives different results for the same trade: from a flat position sell \<open>q\<close> at \<open>p1\<close>, then at
  \<open>p2\<close> the close button leaves the balance at \<open>b + q (p1 - p2)\<close>, a market buy of \<open>q\<close> at \<open>b - q p2\<close> (the realised
  profit is overwritten), up to a cent of rounding.
\<close>

theorem covering_short_depends_on_button:
  assumes "d_position d = 0" "tradeSize d = q" "four q" "four p1" "0 < p2" "toFixed 2 (d_balance d) \<ge> p2 * q"
  shows "\<bar>d_balance (handleClosePosition p2 (handleMarketSell p1 d)) - (d_balance d + q * (p1 - p2))\<bar> \<le> 1 / 100 \<and>
         \<bar>d_balance (handleMarketBuy p2 (handleMarketSell p1 d)) - (d_balance d - q * p2)\<bar> \<le> 1 / 100 \<and>
         d_position (handleClosePosition p2 (handleMarketSell p1 d)) = 0 \<and>
         d_position (handleMarketBuy p2 (handleMarketSell p1 d)) = 0"
proof -
  note b = sell_from_flat [OF assms(1-4)]
  have q: "0 < q" using assms(3) by (simp add: four_def)
  have "d_balance (handleClosePosition p2 (handleMarketSell p1 d)) = toFixed 2 (toFixed 2 (d_balance d) + q * (p1 - p2))"
    "d_balance (handleMarketBuy p2 (handleMarketSell p1 d)) = toFixed 2 (toFixed 2 (d_balance d) + - (q * p2))"
    using b q assms(6) by (simp_all add: handleClosePosition_def handleMarketBuy_def Let_def mult.commute)
  then show ?thesis
    using toFixed_twice [of 2 "d_balance d" "q * (p1 - p2)"] toFixed_twice [of 2 "d_balance d" "- (q * p2)"] b q assms(6)
    by (simp add: handleClosePosition_def handleMarketBuy_def Let_def)
qed

text \<open>
  Switching the pair can fill an order the market never reached: with the last price of the previous pair above it, a
  sell limit order of the new pair is filled at its own price although the new pair trades below it.
\<close>

theorem switching_pair_fills_far_sell:
  assumes "d_limitOrders d = [od]" "lo_symbol od = sy" "lo_side od = Sell_side" "d_position d = 0"
    "price < lo_price od" "lo_price od \<le> d_prevPrice d" "four (lo_size od)" "four (lo_price od)"
  shows "d_limitOrders (match_effect sy price d) = [] \<and>
         d_position (match_effect sy price d) = - lo_size od \<and>
         d_entryPrice (match_effect sy price d) = lo_price od"
  using assms
  by (simp add: match_effect_def match_all_def match_order_def isTriggered_def Let_def fill_sell_def account_of_def
      four_def)

text \<open>
  A market or limit buy is made only with enough cash: a market buy that costs more than the balance changes nothing but
  the log, one that is made leaves a non-negative balance; and a triggered limit buy that costs more than the
  balance left by the orders before it is dropped without changing the account.
\<close>

theorem buying_needs_cash:
  assumes "0 < tradeSize d"
  shows "(d_balance d < price * tradeSize d \<longrightarrow>
            handleMarketBuy price d = addLog (RejectedMarketBuy (d_balance d) (price * tradeSize d)) Log_cancel d) \<and>
         (price * tradeSize d \<le> d_balance d \<longrightarrow> 0 \<le> d_balance (handleMarketBuy price d)) \<and>
         (\<forall>od m. lo_side od = Buy_side \<and> ac_balance (mt_account m) < lo_price od * lo_size od \<longrightarrow>
            mt_account (match_order sy prev cur od m) = mt_account m)"
  using assms by (auto simp: handleMarketBuy_def Let_def match_order_def toFixed_nonneg)

subsection \<open>Witnesses\<close>

definition wit_dom :: dom where
  "wit_dom = \<lparr>d_balance = 100000, d_position = 0, d_entryPrice = 0, d_limitOrders = [], d_tradeLogs = [],
     d_prevPrice = 60000, d_size = Some 2, d_limit = None\<rparr>"

lemma four_int: "four 2" "four 100" "four 3500"
  by (simp_all add: four_def toFixed_def fixed_nonneg_def)

lemma wit_dom_simps [simp]:
  "d_balance wit_dom = 100000" "d_position wit_dom = 0" "tradeSize wit_dom = 2" "d_prevPrice wit_dom = 60000"
  by (simp_all add: wit_dom_def tradeSize_def or_else_def)

theorem simulator_stays_well_formed_witness: "dom_inv (handleMarketSell 5 wit_dom)"
proof -
  have "dom_inv wit_dom" by (simp add: dom_inv_def wit_dom_def orders_inv_def)
  moreover have "dom_step\<^sup>*\<^sup>* wit_dom (handleMarketSell 5 wit_dom)"
    by (rule r_into_rtranclp, rule market_sell) simp
  ultimately show ?thesis using simulator_stays_well_formed by blast
qed

theorem matching_takes_triggered_orders_witness: "d_limitOrders (match_effect ''BTCUSDT'' 59000 wit_dom) = []"
  using matching_takes_triggered_orders [of 59000 wit_dom "''BTCUSDT''"] by (simp add: wit_dom_def)

theorem closing_long_pays_profit_twice_witness:
  "\<bar>d_balance (handleClosePosition 110 (handleMarketBuy 100 wit_dom)) - 100040\<bar> \<le> 1 / 100"
  using closing_long_pays_profit_twice [of wit_dom 2 100 110] four_int by simp

theorem covering_short_depends_on_button_witness:
  "\<bar>d_balance (handleClosePosition 90 (handleMarketSell 100 wit_dom)) - 100020\<bar> \<le> 1 / 100 \<and>
   \<bar>d_balance (handleMarketBuy 90 (handleMarketSell 100 wit_dom)) - 99820\<bar> \<le> 1 / 100"
proof -
  have "90 * 2 \<le> toFixed 2 (d_balance wit_dom)" by (simp add: toFixed_def fixed_nonneg_def)
  from covering_short_depends_on_button [OF _ _ four_int(1,2) _ this] show ?thesis by simp
qed

definition wit_far_sell :: limit_order where
  "wit_far_sell = \<lparr>lo_id = 0, lo_price = 3500, lo_size = 2, lo_side = Sell_side, lo_symbol = ''ETHUSDT''\<rparr>"

theorem switching_pair_fills_far_sell_witness:
  "d_position (match_effect ''ETHUSDT'' 3000 (wit_dom\<lparr>d_limitOrders := [wit_far_sell]\<rparr>)) = - 2"
proof -
  let ?d = "wit_dom\<lparr>d_limitOrders := [wit_far_sell]\<rparr>"
  have "d_limitOrders ?d = [wit_far_sell]" "d_position ?d = 0" "lo_price wit_far_sell \<le> d_prevPrice ?d"
    by (simp_all add: wit_dom_def wit_far_sell_def)
  moreover have "lo_symbol wit_far_sell = ''ETHUSDT''" "lo_side wit_far_sell = Sell_side" "3000 < lo_price wit_far_sell"
    "four (lo_size wit_far_sell)" "four (lo_price wit_far_sell)"
    using four_int by (simp_all add: wit_far_sell_def)
  ultimately have "d_position (match_effect ''ETHUSDT'' 3000 ?d) = - lo_size wit_far_sell"
    using switching_pair_fills_far_sell [of ?d wit_far_sell "''ETHUSDT''" 3000] by simp
  then show ?thesis by (simp add: wit_far_sell_def)
qed

theorem buying_needs_cash_witness: "0 \<le> d_balance (handleMarketBuy 100 wit_dom)"
  using buying_needs_cash [of wit_dom 100] by simp

end
