(* ===== verification/Viewport.thy ===== *)
theory Viewport
  imports ChartTypes
begin

text \<open>
  The coordinate system of the footprint chart (\<open>frontend-chart/src/components/ClusterChart.tsx\<close>): the layout of
  the panels, the projection of prices to pixels and back, wheel and button zoom, the initial view,
  drag panning and the drags on the price, delta, CVD and time scales.

  \<open>v_scroll\<close> is the scroll position of the container, which the browser keeps between 0 and the
  scrollable width; \<open>v_visibleScrollLeft\<close> is the state the canvas is drawn with. The two states and
  the refs the wheel handler reads (candle width, vertical scale, price offset) are written together, so
  they are one field each.
\<close>

definition margin_top :: number where "margin_top = 30"
definition margin_right :: number where "margin_right = 90"
definition margin_bottom :: number where "margin_bottom = 40"
definition margin_left :: number where "margin_left = 60"

lemmas margin_defs = margin_top_def margin_right_def margin_bottom_def margin_left_def

section \<open>Panels\<close>

record panels =
  pn_containerHeight :: number
  pn_delta :: bool
  pn_cvd :: bool
  pn_deltaPanelHeight :: number
  pn_cvdPanelHeight :: number

definition panelGap :: number where "panelGap = 24"

definition deltaHeightTotal :: "panels \<Rightarrow> number" where
  "deltaHeightTotal p = (if pn_delta p then pn_deltaPanelHeight p + panelGap else 0)"

definition cvdHeightTotal :: "panels \<Rightarrow> number" where
  "cvdHeightTotal p = (if pn_cvd p then pn_cvdPanelHeight p + panelGap else 0)"

definition chartHeight :: "panels \<Rightarrow> number" where
  "chartHeight p =
     max 150 (pn_containerHeight p - margin_top - margin_bottom - deltaHeightTotal p - cvdHeightTotal p)"

definition deltaTopY :: "panels \<Rightarrow> number" where
  "deltaTopY p = margin_top + chartHeight p + (if pn_delta p then panelGap else 0)"

definition cvdTopY :: "panels \<Rightarrow> number" where
  "cvdTopY p = deltaTopY p + (if pn_delta p then pn_deltaPanelHeight p else 0) + (if pn_cvd p then panelGap else 0)"

definition totalSvgHeight :: "panels \<Rightarrow> number" where
  "totalSvgHeight p = margin_top + chartHeight p + deltaHeightTotal p + cvdHeightTotal p + margin_bottom"

definition resize_delta :: "number \<Rightarrow> panels \<Rightarrow> panels" where
  "resize_delta relativeY p =
     p\<lparr>pn_deltaPanelHeight := max 50 (min 350 (deltaTopY p + pn_deltaPanelHeight p - relativeY))\<rparr>"

definition resize_cvd :: "number \<Rightarrow> panels \<Rightarrow> panels" where
  "resize_cvd relativeY p =
     p\<lparr>pn_cvdPanelHeight := max 50 (min 350 (cvdTopY p + pn_cvdPanelHeight p - relativeY))\<rparr>"

text \<open>The saved height of a panel: \<open>parseInt\<close> of a non-empty text, \<open>None\<close> is \<open>NaN\<close>.\<close>

definition saved_panel_height :: "string option \<Rightarrow> number option" where
  "saved_panel_height saved = (if truthy_str saved then map_option of_int (parseInt (the saved)) else Some 120)"

section \<open>Prices and pixels\<close>

record bounds =
  bd_maxPriceRaw :: number
  bd_minPriceRaw :: number
  bd_priceRange :: number
  bd_basePriceCenter :: number

definition priceBounds :: "candle list \<Rightarrow> bounds" where
  "priceBounds candles =
     (case candles of
        [] \<Rightarrow> \<lparr>bd_maxPriceRaw = 100, bd_minPriceRaw = 0, bd_priceRange = 100, bd_basePriceCenter = 50\<rparr>
      | c0 # _ \<Rightarrow>
          let mx = scan_max c_high (c_high c0) candles;
              mn = scan_min c_low (c_low c0) candles
          in \<lparr>bd_maxPriceRaw = mx, bd_minPriceRaw = mn, bd_priceRange = or_else (mx - mn) 1,
              bd_basePriceCenter = (mx + mn) / 2\<rparr>)"

text \<open>The vertical window: its range, center and ends for a scale and an offset.\<close>

definition zoomedPriceRange :: "bounds \<Rightarrow> number \<Rightarrow> number" where
  "zoomedPriceRange b verticalScale = bd_priceRange b / max (1 / 10) verticalScale"

definition priceCenter :: "bounds \<Rightarrow> number \<Rightarrow> number" where
  "priceCenter b offset = bd_basePriceCenter b + offset"

definition maxPrice :: "bounds \<Rightarrow> number \<Rightarrow> number \<Rightarrow> number" where
  "maxPrice b verticalScale offset = priceCenter b offset + zoomedPriceRange b verticalScale * (58 / 100)"

definition minPrice :: "bounds \<Rightarrow> number \<Rightarrow> number \<Rightarrow> number" where
  "minPrice b verticalScale offset = priceCenter b offset - zoomedPriceRange b verticalScale * (58 / 100)"

definition window_range :: "bounds \<Rightarrow> number \<Rightarrow> number \<Rightarrow> number" where
  "window_range b vs off = or_else (maxPrice b vs off - minPrice b vs off) 1"

definition priceToY :: "bounds \<Rightarrow> number \<Rightarrow> number \<Rightarrow> number \<Rightarrow> number \<Rightarrow> number" where
  "priceToY b vs off ch price =
     margin_top + ch * (1 - (price - minPrice b vs off) / window_range b vs off)"

definition yToPrice :: "bounds \<Rightarrow> number \<Rightarrow> number \<Rightarrow> number \<Rightarrow> number \<Rightarrow> number" where
  "yToPrice b vs off ch y =
     minPrice b vs off + (1 - (y - margin_top) / max 1 ch) * window_range b vs off"

section \<open>The view\<close>

datatype candle_type = Auto | Clusters | Footprint | Japanese

record view =
  v_candleWidth :: number
  v_verticalScale :: number
  v_priceCenterOffset :: number
  v_scroll :: number
  v_visibleScrollLeft :: number
  v_clientWidth :: number

definition spacing :: "number \<Rightarrow> number" where
  "spacing w = max 1 (if w < 30 then js_floor (w * (35 / 100)) else 12)"

definition minW :: "candle_type \<Rightarrow> number" where
  "minW ct = (if ct = Japanese \<or> ct = Auto then 2 else 8)"

definition scrollRightPadding :: "number \<Rightarrow> number" where
  "scrollRightPadding clientWidth = js_round (or_else clientWidth 800 * (85 / 100))"

definition scrollWidth :: "nat \<Rightarrow> number \<Rightarrow> number \<Rightarrow> number" where
  "scrollWidth n w clientWidth =
     real n * (w + spacing w) + margin_left + margin_right + scrollRightPadding clientWidth"

text \<open>Setting \<open>scrollLeft\<close>: the browser clamps it to the scrollable range.\<close>

definition dom_scroll :: "nat \<Rightarrow> view \<Rightarrow> number \<Rightarrow> number" where
  "dom_scroll n v x = max 0 (min (max 0 (scrollWidth n (v_candleWidth v) (v_clientWidth v) - v_clientWidth v)) x)"

section \<open>Zooming\<close>

definition vertical_wheel :: "bounds \<Rightarrow> number \<Rightarrow> number \<Rightarrow> number \<Rightarrow> view \<Rightarrow> view" where
  "vertical_wheel b ch direction relativeY v =
     (if relativeY \<ge> margin_top \<and> relativeY \<le> margin_top + ch
      then
        let mousePrice = yToPrice b (v_verticalScale v) (v_priceCenterOffset v) ch relativeY;
            multiplier = (if direction < 0 then 108 / 100 else 92 / 100);
            nextVerticalScale = min 2000 (max (1 / 10) (v_verticalScale v * multiplier));
            actualMultiplier = nextVerticalScale / v_verticalScale v
        in if actualMultiplier \<noteq> 1
           then
             let currentPriceCenter = bd_basePriceCenter b + v_priceCenterOffset v;
                 newPriceCenter = mousePrice - (mousePrice - currentPriceCenter) / actualMultiplier
             in v\<lparr>v_verticalScale := nextVerticalScale,
                  v_priceCenterOffset := newPriceCenter - bd_basePriceCenter b\<rparr>
           else v
      else v)"

definition horizontal_wheel :: "nat \<Rightarrow> candle_type \<Rightarrow> number \<Rightarrow> number \<Rightarrow> view \<Rightarrow> view" where
  "horizontal_wheel n ct direction mouseRelativeX v =
     (let multiplier = (if direction < 0 then 108 / 100 else 92 / 100);
          nextWidthClamped = min 450 (max (minW ct) (v_candleWidth v * multiplier))
      in if nextWidthClamped \<noteq> v_candleWidth v
         then
           let chartCursorX = v_scroll v + mouseRelativeX;
               activeChartX = chartCursorX - margin_left;
               ratio = (nextWidthClamped + spacing nextWidthClamped) / (v_candleWidth v + spacing (v_candleWidth v));
               newChartCursorX = margin_left + activeChartX * ratio;
               nextScrollLeft = max 0 (newChartCursorX - mouseRelativeX);
               v1 = v\<lparr>v_candleWidth := nextWidthClamped\<rparr>
           in v1\<lparr>v_scroll := dom_scroll n v1 nextScrollLeft, v_visibleScrollLeft := nextScrollLeft\<rparr>
         else v)"

text \<open>The wheel: with Shift vertically, with Ctrl or Meta horizontally, else both ways.\<close>

definition handleWheel ::
  "bounds \<Rightarrow> number \<Rightarrow> nat \<Rightarrow> candle_type \<Rightarrow> bool \<Rightarrow> bool \<Rightarrow> number \<Rightarrow> number \<Rightarrow> number \<Rightarrow> view \<Rightarrow> view" where
  "handleWheel b ch n ct isShift isCtrl deltaY mouseRelativeX relativeY v =
     (if sgn deltaY = 0 then v
      else if isShift then vertical_wheel b ch (sgn deltaY) relativeY v
      else if isCtrl then horizontal_wheel n ct (sgn deltaY) mouseRelativeX v
      else vertical_wheel b ch (sgn deltaY) relativeY (horizontal_wheel n ct (sgn deltaY) mouseRelativeX v))"

definition handleZoom :: "candle_type \<Rightarrow> number \<Rightarrow> view \<Rightarrow> view" where
  "handleZoom ct factor v = v\<lparr>v_candleWidth := min 450 (max (minW ct) (v_candleWidth v + factor))\<rparr>"

definition handleVerticalZoom :: "number \<Rightarrow> view \<Rightarrow> view" where
  "handleVerticalZoom factor v =
     v\<lparr>v_verticalScale := min 2000 (max (1 / 10) (v_verticalScale v * (if factor > 0 then 5 / 4 else 4 / 5)))\<rparr>"

text \<open>The loop \<open>for (w = 2; w < 120; w++)\<close> for the widest candle that fits.\<close>

fun best_width_loop :: "number \<Rightarrow> nat \<Rightarrow> nat list \<Rightarrow> nat" where
  "best_width_loop space best [] = best"
| "best_width_loop space best (w # ws) =
     (if real w + spacing (real w) \<le> space then best_width_loop space w ws else best)"

definition bestWidth :: "number \<Rightarrow> nat" where
  "bestWidth clientWidth =
     best_width_loop ((clientWidth - margin_left - margin_right) / 40) 10 [2 ..< 120]"

text \<open>The default vertical view: the last 40 candles, centered, on 70 percent of the height.\<close>

definition last40_bounds :: "candle list \<Rightarrow> number \<times> number" where
  "last40_bounds candles =
     (case slice_last 40 candles of
        [] \<Rightarrow> (100, 0)
      | l0 # ls \<Rightarrow> (scan_max c_high (c_high l0) (l0 # ls), scan_min c_low (c_low l0) (l0 # ls)))"

definition default_vertical :: "candle list \<Rightarrow> view \<Rightarrow> view" where
  "default_vertical candles v =
     (let b = priceBounds candles;
          (mx, mn) = last40_bounds candles;
          rangeL40 = or_else (mx - mn) 1;
          targetVerticalScale = bd_priceRange b * (812 / 1000) / rangeL40
      in v\<lparr>v_verticalScale := min 2000 (max (1 / 10) targetVerticalScale),
           v_priceCenterOffset := (mx + mn) / 2 - bd_basePriceCenter b\<rparr>)"

definition handleResetZoom :: "candle list \<Rightarrow> view \<Rightarrow> view" where
  "handleResetZoom candles v =
     default_vertical candles
       (v\<lparr>v_candleWidth := (if v_clientWidth v > 100 then real (max 2 (bestWidth (v_clientWidth v))) else 10)\<rparr>)"

text \<open>
  The auto-scroll effect, run when the symbol, the number of candles or the load changes;
  \<open>fresh\<close> says that the symbol has not been shown yet, \<open>clientWidth\<close> is the container's.
\<close>

definition auto_scroll :: "candle list \<Rightarrow> bool \<Rightarrow> number \<Rightarrow> view \<Rightarrow> view" where
  "auto_scroll candles fresh clientWidth v =
     (if candles = [] then v
      else
        let cw = or_else clientWidth 800;
            v1 = (if fresh then default_vertical candles (v\<lparr>v_candleWidth := real (max 2 (bestWidth cw))\<rparr>) else v);
            w = v_candleWidth v1;
            candlesTotalWidth = real (length candles) * (w + spacing w);
            targetScrollLeft = (margin_left + candlesTotalWidth) - (cw - margin_right - 120);
            maxScroll = candlesTotalWidth + margin_left + margin_right + js_round (cw * (85 / 100)) - cw;
            finalScrollLeft = max 0 (min maxScroll targetScrollLeft)
        in v1\<lparr>v_scroll := finalScrollLeft, v_visibleScrollLeft := finalScrollLeft, v_clientWidth := cw\<rparr>)"

section \<open>What is visible\<close>

definition candle_x :: "number \<Rightarrow> nat \<Rightarrow> number" where
  "candle_x w i = margin_left + real i * (w + spacing w)"

definition is_visible :: "view \<Rightarrow> nat \<Rightarrow> bool" where
  "is_visible v i \<longleftrightarrow>
     (let x = candle_x (v_candleWidth v) i in
      x + v_candleWidth v \<ge> v_visibleScrollLeft v \<and> x \<le> v_visibleScrollLeft v + v_clientWidth v)"

definition visibleCandlesList :: "view \<Rightarrow> candle list \<Rightarrow> candle list" where
  "visibleCandlesList v candles =
     map fst (filter (\<lambda>(c, i). is_visible v i) (zip candles [0 ..< length candles]))"

definition visibleCandleCount :: "view \<Rightarrow> number" where
  "visibleCandleCount v =
     (if v_clientWidth v > 0
      then js_floor (v_clientWidth v / max 1 (v_candleWidth v + spacing (v_candleWidth v))) else 40)"

definition autoView :: "view \<Rightarrow> candle_type" where
  "autoView v =
     (if visibleCandleCount v < 70 then Clusters
      else if visibleCandleCount v < 300 then Footprint else Japanese)"

definition effectiveCandleType :: "candle_type \<Rightarrow> view \<Rightarrow> candle_type" where
  "effectiveCandleType ct v = (if ct = Auto then autoView v else ct)"

definition isDetailedMode :: "candle_type \<Rightarrow> view \<Rightarrow> bool" where
  "isDetailedMode ct v =
     (if effectiveCandleType ct v = Japanese then False
      else effectiveCandleType ct v = Footprint \<or> effectiveCandleType ct v = Clusters)"

text \<open>
  The column under the cursor: the time axis and the hover test add the scroll offset, the value
  line of the sub-panels does not.
\<close>

definition column_at :: "view \<Rightarrow> number \<Rightarrow> number" where
  "column_at v x =
     js_floor (((x + v_visibleScrollLeft v) - margin_left) / (v_candleWidth v + spacing (v_candleWidth v)))"

definition overlay_column_at :: "view \<Rightarrow> number \<Rightarrow> number" where
  "overlay_column_at v x = js_floor ((x - margin_left) / (v_candleWidth v + spacing (v_candleWidth v)))"

section \<open>Dragging\<close>

record drag =
  dg_startX :: number
  dg_startY :: number
  dg_scrollLeft :: number
  dg_startPriceOffset :: number

definition pan_start :: "number \<Rightarrow> number \<Rightarrow> view \<Rightarrow> drag" where
  "pan_start x y v =
     \<lparr>dg_startX = x, dg_startY = y, dg_scrollLeft = v_scroll v, dg_startPriceOffset = v_priceCenterOffset v\<rparr>"

definition pan_move :: "bounds \<Rightarrow> number \<Rightarrow> nat \<Rightarrow> drag \<Rightarrow> number \<Rightarrow> number \<Rightarrow> view \<Rightarrow> view" where
  "pan_move b ch n dg x y v =
     (let nextScroll = dg_scrollLeft dg - (x - dg_startX dg);
          currentPriceRange = maxPrice b (v_verticalScale v) (v_priceCenterOffset v)
                            - minPrice b (v_verticalScale v) (v_priceCenterOffset v);
          priceChange = ((y - dg_startY dg) / max 1 ch) * currentPriceRange
      in v\<lparr>v_scroll := dom_scroll n v nextScroll, v_visibleScrollLeft := nextScroll,
           v_priceCenterOffset := dg_startPriceOffset dg + priceChange\<rparr>)"

definition drag_price_scale :: "number \<Rightarrow> number \<Rightarrow> number \<Rightarrow> view \<Rightarrow> view" where
  "drag_price_scale startScale startY y v =
     v\<lparr>v_verticalScale := min 2000 (max (1 / 10) (startScale * exp ((startY - y) / 200)))\<rparr>"

text \<open>The wheel over the price scale, which leaves the center of the window where it is.\<close>

definition scale_wheel :: "number \<Rightarrow> view \<Rightarrow> view" where
  "scale_wheel deltaY v =
     (if sgn deltaY = 0 then v
      else v\<lparr>v_verticalScale :=
             min 2000 (max (1 / 10) (v_verticalScale v * (if sgn deltaY < 0 then 115 / 100 else 85 / 100)))\<rparr>)"

text \<open>The drag on the delta and on the CVD scale: the new scale.\<close>

definition drag_panel_scale :: "number \<Rightarrow> number \<Rightarrow> number \<Rightarrow> number" where
  "drag_panel_scale startScale startY y = min 200 (max (1 / 100) (startScale * exp ((startY - y) / 200)))"

definition time_anchor :: "view \<Rightarrow> number \<Rightarrow> number" where
  "time_anchor v clickX = (v_scroll v + clickX - margin_left) / (v_candleWidth v + spacing (v_candleWidth v))"

text \<open>The drag on the time scale; the spacing is the one of the render before the move.\<close>

definition drag_time_scale ::
  "nat \<Rightarrow> candle_type \<Rightarrow> number \<Rightarrow> number \<Rightarrow> number \<Rightarrow> number \<Rightarrow> number \<Rightarrow> view \<Rightarrow> view" where
  "drag_time_scale n ct startWidth startX anchorIndex anchorClickX x v =
     (let clampedW = min 450 (max (minW ct) (startWidth + (x - startX) * 1));
          sp = spacing (v_candleWidth v);
          targetAbsoluteX = anchorIndex * (clampedW + sp) + margin_left;
          nextScrollLeft = targetAbsoluteX - anchorClickX;
          scrollWidthCalculated = real n * (clampedW + sp) + margin_left + margin_right
                                  + scrollRightPadding (v_clientWidth v);
          maxScroll = max 0 (scrollWidthCalculated - or_else (v_clientWidth v) 800);
          clampedScrollLeft = max 0 (min maxScroll nextScrollLeft)
      in v\<lparr>v_candleWidth := clampedW, v_scroll := clampedScrollLeft, v_visibleScrollLeft := clampedScrollLeft\<rparr>)"

text \<open>The (fractional) index of the candle at a position of the canvas, and back.\<close>

definition xToIndex :: "view \<Rightarrow> number \<Rightarrow> number" where
  "xToIndex v x = (x + v_visibleScrollLeft v - margin_left) / (v_candleWidth v + spacing (v_candleWidth v))"

definition indexToX :: "view \<Rightarrow> number \<Rightarrow> number" where
  "indexToX v i = margin_left + i * (v_candleWidth v + spacing (v_candleWidth v)) - v_visibleScrollLeft v"

text \<open>The container's scroll event, and the request for older candles near the left edge.\<close>

definition on_scroll :: "view \<Rightarrow> view" where
  "on_scroll v = v\<lparr>v_visibleScrollLeft := v_scroll v\<rparr>"

definition wants_more :: "bool \<Rightarrow> candle list \<Rightarrow> view \<Rightarrow> number option" where
  "wants_more isLoadingMore candles v =
     (if isLoadingMore \<or> candles = [] then None
      else if v_scroll v < 200 then Some (c_timestamp (hd candles)) else None)"

definition labelStep :: "number \<Rightarrow> number" where
  "labelStep spacingTotal =
     (case find (\<lambda>s. s * spacingTotal \<ge> 75) [1, 2, 5, 10, 15, 20, 30, 50, 100, 200, 500, 1000] of
        Some s \<Rightarrow> s | None \<Rightarrow> 1000)"

section \<open>The axes\<close>

text \<open>
  An axis maps the values of a state to positions and back. A client that keeps the value at a
  position keeps the position of that value, and the other way round.
\<close>

locale axis =
  fixes ok :: "'s \<Rightarrow> bool"
    and toPos :: "'s \<Rightarrow> number \<Rightarrow> number"
    and ofPos :: "'s \<Rightarrow> number \<Rightarrow> number"
  assumes of_to: "ok s \<Longrightarrow> ofPos s (toPos s p) = p"
    and to_of: "ok s \<Longrightarrow> toPos s (ofPos s y) = y"
begin

lemma pos_inj: "ok s \<Longrightarrow> toPos s p = toPos s q \<longleftrightarrow> p = q"
  by (metis of_to)

lemma val_inj: "ok s \<Longrightarrow> ofPos s x = ofPos s y \<longleftrightarrow> x = y"
  by (metis to_of)

lemma anchored: "ok s' \<Longrightarrow> ofPos s' y = ofPos s y \<Longrightarrow> toPos s' (ofPos s y) = y"
  by (metis to_of)

lemma value_at: "ok s \<Longrightarrow> toPos s p = y \<longleftrightarrow> p = ofPos s y"
  by (metis of_to to_of)

end

type_synonym price_window = "bounds \<times> number \<times> number \<times> number"

definition win_ok :: "price_window \<Rightarrow> bool" where
  "win_ok s = (case s of (b, vs, off, ch) \<Rightarrow> 0 < bd_priceRange b \<and> 1 \<le> ch)"

definition win_toY :: "price_window \<Rightarrow> number \<Rightarrow> number" where
  "win_toY s = (case s of (b, vs, off, ch) \<Rightarrow> priceToY b vs off ch)"

definition win_toPrice :: "price_window \<Rightarrow> number \<Rightarrow> number" where
  "win_toPrice s = (case s of (b, vs, off, ch) \<Rightarrow> yToPrice b vs off ch)"

lemma zoomedPriceRange_pos: "0 < bd_priceRange b \<Longrightarrow> 0 < zoomedPriceRange b vs"
  by (simp add: zoomedPriceRange_def max_def)

lemma window_range_eq:
  "0 < bd_priceRange b \<Longrightarrow> window_range b vs off = zoomedPriceRange b vs * (116 / 100)"
  using zoomedPriceRange_pos [of b vs] by (simp add: window_range_def maxPrice_def minPrice_def or_else_def)

lemma window_range_pos: "0 < bd_priceRange b \<Longrightarrow> 0 < window_range b vs off"
  by (simp add: window_range_eq zoomedPriceRange_pos)

interpretation price_axis: axis win_ok win_toY win_toPrice
proof
  fix s p assume ok: "win_ok s"
  obtain b vs off ch where s: "s = (b, vs, off, ch)" by (metis prod_cases4)
  have R: "0 < window_range b vs off" and ch: "1 \<le> ch" using ok s window_range_pos by (auto simp: win_ok_def)
  show "win_toPrice s (win_toY s p) = p"
    using R ch s by (simp add: win_toY_def win_toPrice_def priceToY_def yToPrice_def max_def)
  show "win_toY s (win_toPrice s p) = p"
    using R ch s by (simp add: win_toY_def win_toPrice_def priceToY_def yToPrice_def max_def)
qed

definition view_ok :: "view \<Rightarrow> bool" where
  "view_ok v \<longleftrightarrow> 0 < v_candleWidth v"

lemma spacing_ge: "1 \<le> spacing w"
  by (simp add: spacing_def)

lemma pitch_pos: "0 < w \<Longrightarrow> 0 < w + spacing w"
  using spacing_ge [of w] by linarith

interpretation time_axis: axis view_ok indexToX xToIndex
proof
  fix v :: view and p assume "view_ok v"
  then have "0 < v_candleWidth v + spacing (v_candleWidth v)" by (simp add: view_ok_def pitch_pos)
  then show "xToIndex v (indexToX v p) = p" "indexToX v (xToIndex v p) = p"
    by (simp_all add: xToIndex_def indexToX_def)
qed

section \<open>Lemmas on zooming\<close>

lemma priceBounds_pos: "0 < bd_priceRange (priceBounds candles)"
  if "\<forall>c \<in> set candles. c_low c \<le> c_high c" for candles
proof (cases candles)
  case (Cons c0 cs)
  have "c_low c0 \<le> c_high c0" using that Cons by simp
  moreover have "scan_min c_low (c_low c0) candles \<le> c_low c0" by (rule scan_min_le_init)
  moreover have "c_high c0 \<le> scan_max c_high (c_high c0) candles" by (rule scan_max_ge_init)
  ultimately have "0 \<le> scan_max c_high (c_high c0) candles - scan_min c_low (c_low c0) candles" by linarith
  then show ?thesis unfolding Cons by (auto simp: priceBounds_def Let_def or_else_def)
qed (simp add: priceBounds_def)

lemma minW_pos [simp]: "0 < minW ct"
  by (simp add: minW_def)

text \<open>The two wheels change the view in one way each, or not at all.\<close>

lemma if_unchanged: "(if P then f a b else v) = v \<or> (\<exists>x y. (if P then f a b else v) = f x y)"
  by auto

lemma if_if_unchanged:
  "(if P then if Q then f a else v else v) = v \<or> (\<exists>x. (if P then if Q then f a else v else v) = f x)"
  by auto

lemma vertical_wheel_cases:
  "vertical_wheel b ch d y v = v \<or>
   (\<exists>off. vertical_wheel b ch d y v =
      v\<lparr>v_verticalScale := min 2000 (max (1 / 10) (v_verticalScale v * (if d < 0 then 108 / 100 else 92 / 100))),
        v_priceCenterOffset := off\<rparr>)"
  unfolding vertical_wheel_def Let_def by (rule if_if_unchanged)

lemma horizontal_wheel_cases:
  "horizontal_wheel n ct d x v = v \<or>
   (\<exists>pos left. horizontal_wheel n ct d x v =
      v\<lparr>v_candleWidth := min 450 (max (minW ct) (v_candleWidth v * (if d < 0 then 108 / 100 else 92 / 100))),
        v_scroll := pos, v_visibleScrollLeft := left\<rparr>)"
  unfolding horizontal_wheel_def Let_def by (rule if_unchanged)

lemma vertical_wheel_width [simp]:
  "v_candleWidth (vertical_wheel b ch d y v) = v_candleWidth v" "v_scroll (vertical_wheel b ch d y v) = v_scroll v"
  "v_visibleScrollLeft (vertical_wheel b ch d y v) = v_visibleScrollLeft v"
  "v_clientWidth (vertical_wheel b ch d y v) = v_clientWidth v"
  using vertical_wheel_cases [of b ch d y v] by auto

lemma horizontal_wheel_vertical [simp]:
  "v_verticalScale (horizontal_wheel n ct d x v) = v_verticalScale v"
  "v_priceCenterOffset (horizontal_wheel n ct d x v) = v_priceCenterOffset v"
  "v_clientWidth (horizontal_wheel n ct d x v) = v_clientWidth v"
  using horizontal_wheel_cases [of n ct d x v] by auto

text \<open>The price at a position of the window, as an offset from the center.\<close>

lemma yToPrice_center:
  assumes "0 < bd_priceRange b" "1 / 10 \<le> vs"
  shows "yToPrice b vs off ch y =
     priceCenter b off + (1 / 2 - (y - margin_top) / max 1 ch) * (bd_priceRange b * (116 / 100) / vs)"
proof -
  define Z where "Z = bd_priceRange b / vs"
  have "zoomedPriceRange b vs = Z" using assms(2) by (simp add: zoomedPriceRange_def Z_def max_def)
  moreover have "bd_priceRange b * (116 / 100) / vs = Z * (116 / 100)" by (simp add: Z_def)
  moreover have "a - Z * (58 / 100) + (1 - u) * (Z * (116 / 100)) = a + (1 / 2 - u) * (Z * (116 / 100))" for a u
  proof -
    have "(1 - u) * W = (1 / 2 - u) * W + W / 2" for W by (simp add: left_diff_distrib)
    from this [of "Z * (116 / 100)"] show ?thesis by linarith
  qed
  ultimately show ?thesis
    by (simp only: yToPrice_def window_range_eq [OF assms(1)] minPrice_def)
qed

lemma vertical_wheel_keeps_price:
  fixes ch d y :: number
  assumes "0 < bd_priceRange b" "1 / 10 \<le> v_verticalScale v"
  defines "v' \<equiv> vertical_wheel b ch d y v"
  shows "yToPrice b (v_verticalScale v') (v_priceCenterOffset v') ch y =
         yToPrice b (v_verticalScale v) (v_priceCenterOffset v) ch y"
proof -
  define s where "s = v_verticalScale v"
  define s' where "s' = min 2000 (max (1 / 10) (s * (if d < 0 then 108 / 100 else 92 / 100)))"
  have s: "1 / 10 \<le> s" using assms(2) by (simp add: s_def)
  have s': "1 / 10 \<le> s'" by (simp add: s'_def)
  let ?P = "yToPrice b s (v_priceCenterOffset v) ch y"
  let ?c = "priceCenter b (v_priceCenterOffset v)"
  let ?k = "1 / 2 - (y - margin_top) / max 1 ch" and ?R = "bd_priceRange b * (116 / 100)"
  have P: "?P = ?c + ?k * (?R / s)" by (rule yToPrice_center [OF assms(1) s])
  show ?thesis
  proof (cases "v_verticalScale v' = s \<and> v_priceCenterOffset v' = v_priceCenterOffset v")
    case True
    then show ?thesis by (simp add: s_def)
  next
    case False
    then have "v' \<noteq> v" by (auto simp: s_def)
    then have "v' = v\<lparr>v_verticalScale := s', v_priceCenterOffset := ?P - (?P - ?c) / (s' / s) - bd_basePriceCenter b\<rparr>"
      unfolding v'_def vertical_wheel_def Let_def s'_def s_def priceCenter_def by meson
    then have v': "v_verticalScale v' = s'"
      "v_priceCenterOffset v' = ?P - (?P - ?c) / (s' / s) - bd_basePriceCenter b"
      by simp_all
    have "yToPrice b s' (v_priceCenterOffset v') ch y =
        (?P - (?P - ?c) / (s' / s)) + ?k * (?R / s')"
      unfolding yToPrice_center [OF assms(1) s'] v'(2) priceCenter_def by simp
    also have "(?P - ?c) / (s' / s) = ?k * (?R / s')" using s s' unfolding P by (simp add: field_simps)
    finally show ?thesis using v'(1) by (simp add: s_def)
  qed
qed

lemma horizontal_wheel_index:
  fixes x d :: number and n :: nat and ct :: candle_type
  assumes "0 < v_candleWidth v" "v_visibleScrollLeft v = v_scroll v"
  defines "v' \<equiv> horizontal_wheel n ct d x v"
  shows "0 < v_visibleScrollLeft v' \<or> v' = v \<Longrightarrow> xToIndex v' x = xToIndex v x"
proof (cases "v' = v")
  case False
  define w' where "w' = min 450 (max (minW ct) (v_candleWidth v * (if d < 0 then 108 / 100 else 92 / 100)))"
  let ?p = "v_candleWidth v + spacing (v_candleWidth v)" and ?p' = "w' + spacing w'"
  let ?a = "v_scroll v + x - margin_left"
  assume "0 < v_visibleScrollLeft v' \<or> v' = v"
  with False have pos: "0 < v_visibleScrollLeft v'" by simp
  have w': "0 < w'" by (simp add: w'_def less_max_iff_disj minW_pos)
  have v': "v_candleWidth v' = w'" "v_visibleScrollLeft v' = max 0 (margin_left + ?a * (?p' / ?p) - x)"
  proof -
    have "w' \<noteq> v_candleWidth v" using False unfolding v'_def horizontal_wheel_def Let_def w'_def by meson
    then have "v' = (let v1 = v\<lparr>v_candleWidth := w'\<rparr>; ns = max 0 (margin_left + ?a * (?p' / ?p) - x)
        in v1\<lparr>v_scroll := dom_scroll n v1 ns, v_visibleScrollLeft := ns\<rparr>)"
      unfolding v'_def horizontal_wheel_def Let_def w'_def by (rule if_P)
    then show "v_candleWidth v' = w'" "v_visibleScrollLeft v' = max 0 (margin_left + ?a * (?p' / ?p) - x)"
      by (simp_all add: Let_def)
  qed
  with pos have "v_visibleScrollLeft v' = margin_left + ?a * (?p' / ?p) - x" by (simp add: max_def split: if_splits)
  then have "xToIndex v' x = (?a * (?p' / ?p)) / ?p'" by (simp add: xToIndex_def v')
  also have "\<dots> = ?a / ?p" using pitch_pos [OF w'] by simp
  also have "\<dots> = xToIndex v x" using assms(2) by (simp add: xToIndex_def algebra_simps)
  finally show "xToIndex v' x = xToIndex v x" .
qed simp

section \<open>Bounds\<close>

definition scale_ok :: "number \<Rightarrow> bool" where
  "scale_ok s \<longleftrightarrow> 1 / 10 \<le> s \<and> s \<le> 2000"

lemma scale_ok_clamp [simp]: "scale_ok (min 2000 (max (1 / 10) x))"
  unfolding scale_ok_def by linarith

definition view_inv :: "candle_type \<Rightarrow> view \<Rightarrow> bool" where
  "view_inv ct v \<longleftrightarrow>
     2 \<le> v_candleWidth v \<and> v_candleWidth v \<le> 450 \<and> scale_ok (v_verticalScale v)"

text \<open>The operations that change the view, for a chart whose type stays the same.\<close>

inductive view_step :: "candle_type \<Rightarrow> view \<Rightarrow> view \<Rightarrow> bool" for ct where
  wheel: "view_step ct v (handleWheel b ch n ct sh ctrl dy x y v)"
| zoom: "view_step ct v (handleZoom ct factor v)"
| vertical_zoom: "view_step ct v (handleVerticalZoom factor v)"
| reset: "view_step ct v (handleResetZoom candles v)"
| auto_scrolled: "view_step ct v (auto_scroll candles fresh cw v)"
| panned: "view_step ct v (pan_move b ch n dg x y v)"
| price_scale: "view_step ct v (drag_price_scale sc sy y v)"
| time_scale: "view_step ct v (drag_time_scale n ct sw sx ai ac x v)"
| scrolled: "view_step ct v (on_scroll v)"
| price_wheel: "view_step ct v (scale_wheel dy v)"

lemma best_width_le: "(\<forall>w \<in> set ws. w < 120) \<Longrightarrow> best < 120 \<Longrightarrow> best_width_loop sp best ws < 120"
  by (induction ws arbitrary: best) auto

lemma bestWidth_bounds: "bestWidth cw < 120"
  unfolding bestWidth_def by (rule best_width_le) auto

lemma best_width_loop_spec:
  "best_width_loop sp best ws =
     (let fit = takeWhile (\<lambda>w. real w + spacing (real w) \<le> sp) ws in if fit = [] then best else last fit)"
  by (induction ws arbitrary: best) (auto simp: Let_def)

lemma default_vertical_bounds [simp]:
  "scale_ok (v_verticalScale (default_vertical candles v))"
  "v_candleWidth (default_vertical candles v) = v_candleWidth v"
  "v_clientWidth (default_vertical candles v) = v_clientWidth v"
  by (cases "last40_bounds candles", simp add: default_vertical_def Let_def)+

lemma minW_bounds: "2 \<le> minW ct" "minW ct \<le> 8"
  by (simp_all add: minW_def)

lemma clamp_width: "2 \<le> min 450 (max (minW ct) w) \<and> min 450 (max (minW ct) w) \<le> 450"
  using minW_bounds [of ct] by auto

lemma view_inv_wheel: "view_inv ct v \<Longrightarrow> view_inv ct (handleWheel b ch n ct sh ctrl dy x y v)"
proof -
  assume inv: "view_inv ct v"
  have vert: "view_inv ct (vertical_wheel b ch d y u)" if "view_inv ct u" for d u
    using that vertical_wheel_cases [of b ch d y u] by (auto simp: view_inv_def)
  have hor: "view_inv ct (horizontal_wheel n ct d x v)" for d
    using inv clamp_width [of ct] horizontal_wheel_cases [of n ct d x v] by (auto simp: view_inv_def)
  show ?thesis using inv vert hor by (simp add: handleWheel_def)
qed

lemma view_inv_auto: "view_inv ct v \<Longrightarrow> view_inv ct (auto_scroll candles fresh cw v)"
  using bestWidth_bounds [of "or_else cw 800"]
  by (auto simp: view_inv_def auto_scroll_def Let_def)

lemma view_inv_reset: "view_inv ct v \<Longrightarrow> view_inv ct (handleResetZoom candles v)"
  using bestWidth_bounds [of "v_clientWidth v"] by (auto simp: view_inv_def handleResetZoom_def)

lemma view_step_inv: "view_step ct v v' \<Longrightarrow> view_inv ct v \<Longrightarrow> view_inv ct v'"
proof (induction rule: view_step.induct)
  case (zoom v factor)
  then show ?case using clamp_width [of ct] by (simp add: view_inv_def handleZoom_def)
next
  case (time_scale v n sw sx ai ac x)
  then show ?case using clamp_width [of ct] by (simp add: view_inv_def drag_time_scale_def Let_def)
qed (simp_all add: view_inv_wheel view_inv_auto view_inv_reset,
     simp_all add: view_inv_def handleVerticalZoom_def pan_move_def drag_price_scale_def on_scroll_def scale_wheel_def Let_def)

section \<open>Properties\<close>

text \<open>
  C10. Prices and pixels correspond one to one: in every window of a positive price range, however it is zoomed and
  shifted, \<open>yToPrice\<close> undoes \<open>priceToY\<close> and the other way round, as long as the chart is at least a pixel high.
\<close>

theorem price_projection_inverse:
  assumes "0 < bd_priceRange b" "1 \<le> ch"
  shows "yToPrice b vs off ch (priceToY b vs off ch p) = p \<and> priceToY b vs off ch (yToPrice b vs off ch y) = y"
  using price_axis.of_to [of "(b, vs, off, ch)" p] price_axis.to_of [of "(b, vs, off, ch)" y] assms
  by (simp add: win_ok_def win_toY_def win_toPrice_def)


text \<open>
  C32. However the chart is zoomed, reset, scrolled, panned or dragged, the candle width stays between 2 and 450 pixels
  and the vertical scale between 0.1 and 2000.
\<close>

theorem zoom_stays_in_bounds:
  assumes "(view_step ct)\<^sup>*\<^sup>* v v'" "view_inv ct v"
  shows "view_inv ct v'"
  using assms by (induction rule: rtranclp_induct) (simp_all add: view_step_inv)

text \<open>
  Panning follows the mouse one to one: the price that was under the cursor when the drag began is under the cursor
  after every move, and the canvas is drawn shifted by exactly the distance the mouse moved.
\<close>

theorem panning_follows_mouse:
  fixes x y ch :: number and n :: nat
  assumes "0 < bd_priceRange b" "1 \<le> ch" "dg = pan_start x0 y0 v0" "v_verticalScale v = v_verticalScale v0"
  defines "v' \<equiv> pan_move b ch n dg x y v"
  shows "yToPrice b (v_verticalScale v') (v_priceCenterOffset v') ch y =
           yToPrice b (v_verticalScale v0) (v_priceCenterOffset v0) ch y0 \<and>
         v_scroll v0 - v_visibleScrollLeft v' = x - x0"
proof
  let ?vs = "v_verticalScale v0" and ?o = "v_priceCenterOffset v0"
  let ?R = "window_range b ?vs"
  have R: "?R off = ?R ?o" for off
    using window_range_eq [OF assms(1), of ?vs off] window_range_eq [OF assms(1), of ?vs ?o] by linarith
  have diff: "maxPrice b ?vs off - minPrice b ?vs off = ?R ?o" for off
    unfolding window_range_eq [OF assms(1)] by (simp add: maxPrice_def minPrice_def)
  have v': "v_verticalScale v' = ?vs" "v_priceCenterOffset v' = ?o + (y - y0) / ch * ?R ?o"
    using assms(2,4) by (simp_all add: v'_def pan_move_def Let_def assms(3) pan_start_def diff max_def)
  have "minPrice b ?vs (?o + d) = minPrice b ?vs ?o + d" for d by (simp add: minPrice_def priceCenter_def)
  then have "yToPrice b ?vs (?o + d) ch y = minPrice b ?vs ?o + d + (1 - (y - margin_top) / ch) * ?R ?o" for d
    using assms(2) R [of "?o + d"] by (simp add: yToPrice_def max_def)
  moreover have "d * r + (1 - (y - m) / ch) * r = (1 - (y0 - m) / ch) * r" if "d = (y - y0) / ch" for d r m
    unfolding that using assms(2) by (simp add: field_simps)
  ultimately show "yToPrice b (v_verticalScale v') (v_priceCenterOffset v') ch y = yToPrice b ?vs ?o ch y0"
    using assms(2) unfolding v' by (simp add: yToPrice_def max_def)
  show "v_scroll v0 - v_visibleScrollLeft v' = x - x0"
    by (simp add: v'_def pan_move_def Let_def assms(3) pan_start_def)
qed

text \<open>
  The panels fill the container: whenever it is high enough for a chart of 150 pixels, margins, chart and sub-panels
  together are exactly as high as the container, and the CVD panel ends at the bottom margin; in every case the
  delta panel begins below the chart and the CVD panel below the delta panel.
\<close>

theorem panels_fill_container:
  assumes "150 + margin_top + margin_bottom + deltaHeightTotal p + cvdHeightTotal p \<le> pn_containerHeight p"
  shows "totalSvgHeight p = pn_containerHeight p \<and>
         (pn_cvd p \<longrightarrow> cvdTopY p + pn_cvdPanelHeight p + margin_bottom = pn_containerHeight p) \<and>
         margin_top + chartHeight p \<le> deltaTopY p \<and>
         (pn_delta p \<longrightarrow> deltaTopY p + pn_deltaPanelHeight p \<le> cvdTopY p)"
  using assms
  by (auto simp: totalSvgHeight_def chartHeight_def deltaTopY_def cvdTopY_def deltaHeightTotal_def
      cvdHeightTotal_def panelGap_def)

definition detail :: "candle_type \<Rightarrow> nat" where
  "detail ct = (case ct of Japanese \<Rightarrow> 0 | Footprint \<Rightarrow> 1 | Clusters \<Rightarrow> 2 | Auto \<Rightarrow> 3)"

lemma spacing_mono_below:
  assumes "w \<le> w'" "w' < 30 \<or> 30 \<le> w"
  shows "spacing w \<le> spacing w'"
  using assms js_floor_mono [of "w * (35 / 100)" "w' * (35 / 100)"] by (auto simp: spacing_def)

lemma spacing_lt_30: "w < 30 \<Longrightarrow> spacing w \<le> 12"
  using js_floor_le [of "w * (35 / 100)"] by (simp add: spacing_def)

lemma pitch_mono: "w \<le> w' \<Longrightarrow> w + spacing w \<le> w' + spacing w'"
  using spacing_mono_below [of w w'] spacing_lt_30 [of w] by (cases "w' < 30 \<or> 30 \<le> w") (auto simp: spacing_def)

text \<open>
  Zooming out never makes the automatic view more detailed: for a narrower candle it goes from clusters to footprint to
  Japanese candles only in this order, the switches being at 70 and 300 visible candles.
\<close>

theorem auto_view_coarsens:
  assumes "v_candleWidth v \<le> v_candleWidth v'" "v_clientWidth v = v_clientWidth v'"
  shows "detail (autoView v) \<le> detail (autoView v') \<and>
         (autoView v = Clusters \<longleftrightarrow> visibleCandleCount v < 70) \<and>
         (autoView v = Japanese \<longleftrightarrow> 300 \<le> visibleCandleCount v)"
proof -
  have "visibleCandleCount v' \<le> visibleCandleCount v"
  proof (cases "0 < v_clientWidth v")
    case True
    have "max 1 (v_candleWidth v + spacing (v_candleWidth v)) \<le> max 1 (v_candleWidth v' + spacing (v_candleWidth v'))"
      using pitch_mono [OF assms(1)] by auto
    with True show ?thesis unfolding visibleCandleCount_def assms(2)
      by (auto intro!: js_floor_mono divide_left_mono simp: less_max_iff_disj)
  next
    case False
    then show ?thesis using assms(2) by (simp add: visibleCandleCount_def)
  qed
  then show ?thesis by (auto simp: autoView_def detail_def)
qed

text \<open>
  The default zoom fits 40 candles: if any width from 2 on fits 40 times into the plot, the chosen width is the largest
  one below 120 such that 40 candles with their spacing fit.
\<close>

theorem default_zoom_fits_40_candles:
  assumes "2 + spacing 2 \<le> (cw - margin_left - margin_right) / 40"
  defines "fits \<equiv> \<lambda>w. real w + spacing (real w) \<le> (cw - margin_left - margin_right) / 40"
  shows "2 \<le> bestWidth cw \<and> bestWidth cw < 120 \<and> fits (bestWidth cw) \<and>
         (\<forall>w < 120. fits w \<longrightarrow> w \<le> bestWidth cw)"
proof -
  let ?ws = "takeWhile fits [2 ..< 120]"
  have f2: "fits 2" using assms(1) by (simp add: fits_def)
  have "[2 ..< 120] = 2 # [Suc 2 ..< 120]" by (rule upt_conv_Cons) simp
  then have ne: "?ws \<noteq> []" using f2 by (metis list.discI takeWhile.simps(2))
  have bw: "bestWidth cw = last ?ws"
    using ne unfolding bestWidth_def best_width_loop_spec Let_def fits_def by (simp only: if_False)
  have mem: "bestWidth cw \<in> set ?ws" unfolding bw using ne by (rule last_in_set)
  from set_takeWhileD [OF mem] have b: "2 \<le> bestWidth cw" "bestWidth cw < 120" "fits (bestWidth cw)"
    by (simp_all only: set_upt atLeastLessThan_iff)
  have anti: "fits w \<Longrightarrow> u \<le> w \<Longrightarrow> fits u" for u w
    using pitch_mono [of "real u" "real w"] unfolding fits_def by linarith
  have "w \<le> bestWidth cw" if w: "w < 120" "fits w" for w
  proof (cases "2 \<le> w")
    case True
    have "w \<in> set ?ws"
    proof -
      have "[2 ..< 120] = [2 ..< w] @ w # [Suc w ..< 120]" using True w(1)
        by (metis le_add_diff_inverse less_imp_le upt_add_eq_append upt_conv_Cons)
      moreover have "\<forall>u \<in> set ([2 ..< w]). fits u" using anti [OF w(2)] by auto
      ultimately have "?ws = [2 ..< w] @ takeWhile fits (w # [Suc w ..< 120])" by (simp only: takeWhile_append2)
      then show ?thesis using w(2) by (simp only: takeWhile.simps if_True set_append list.set) blast
    qed
    moreover have "sorted ?ws" by (rule sorted_takeWhile) (rule sorted_upt)
    ultimately show ?thesis unfolding bw using sorted_le_last by blast
  next
    case False
    then show ?thesis using b(1) by simp
  qed
  with b show ?thesis by blast
qed

text \<open>
  Every change of the number of candles scrolls to the newest: the effect runs when older candles were loaded or a live
  candle was added, and its result does not depend on where the user had scrolled to. If the candles are wider than
  the plot, the last candle then ends 120 pixels left of the price scale.
\<close>

theorem loading_history_jumps_to_newest:
  assumes "candles \<noteq> []" "0 < cw" "200 \<le> cw * (85 / 100)"
  defines "v' \<equiv> \<lambda>v. auto_scroll candles False cw v"
  shows "v_visibleScrollLeft (v' (v\<lparr>v_scroll := a, v_visibleScrollLeft := b\<rparr>)) = v_visibleScrollLeft (v' v) \<and>
         (cw - margin_right - 120 \<le> margin_left + real (length candles) * (v_candleWidth v + spacing (v_candleWidth v)) \<longrightarrow>
            indexToX (v' v) (real (length candles)) = cw - margin_right - 120)"
proof -
  let ?T = "real (length candles) * (v_candleWidth v + spacing (v_candleWidth v))"
  have "cw * (85 / 100) - 1 / 2 \<le> js_round (cw * (85 / 100))" by (simp add: js_round_def) linarith
  then have "margin_left + ?T - (cw - margin_right - 120)
      \<le> ?T + margin_left + margin_right + js_round (cw * (85 / 100)) - cw"
    using assms(3) by (simp add: margin_defs)
  then show ?thesis using assms(1,2)
    by (simp add: v'_def auto_scroll_def Let_def or_else_def indexToX_def min_def max_def)
qed

text \<open>
  The values shown above the sub-panels are of another candle than the one under the cursor as soon as the chart is
  scrolled by a column: the overlay computes the column without the scroll offset, which for an offset
  of \<open>k\<close> columns is exactly \<open>k\<close> columns too far left.
\<close>

theorem overlay_ignores_scroll:
  assumes "0 < v_candleWidth v"
    "v_visibleScrollLeft v = of_int k * (v_candleWidth v + spacing (v_candleWidth v))"
  shows "column_at v x = overlay_column_at v x + of_int k"
proof -
  let ?p = "v_candleWidth v + spacing (v_candleWidth v)"
  have "(x + v_visibleScrollLeft v - margin_left) / ?p = (x - margin_left) / ?p + of_int k"
    using pitch_pos [OF assms(1)] unfolding assms(2) by (simp add: field_simps)
  then show ?thesis by (simp add: column_at_def overlay_column_at_def js_floor_def)
qed

subsection \<open>Witnesses\<close>

definition wit_bounds :: bounds where
  "wit_bounds = \<lparr>bd_maxPriceRaw = 200, bd_minPriceRaw = 100, bd_priceRange = 100, bd_basePriceCenter = 150\<rparr>"

definition wit_view :: view where
  "wit_view = \<lparr>v_candleWidth = 40, v_verticalScale = 1, v_priceCenterOffset = 0, v_scroll = 52,
     v_visibleScrollLeft = 52, v_clientWidth = 1000\<rparr>"

lemma wit_view_inv: "view_inv Clusters wit_view" "0 < bd_priceRange wit_bounds"
  by (simp_all add: view_inv_def scale_ok_def wit_view_def wit_bounds_def)

theorem price_projection_inverse_witness: "yToPrice wit_bounds 1 0 300 (priceToY wit_bounds 1 0 300 120) = 120"
  using price_projection_inverse [OF wit_view_inv(2), of 300] by simp


theorem zoom_stays_in_bounds_witness: "view_inv Clusters (handleZoom Clusters 1000 wit_view)"
  using zoom_stays_in_bounds [OF r_into_rtranclp [of "view_step Clusters", OF view_step.zoom] wit_view_inv(1)] .

theorem panning_follows_mouse_witness:
  "v_scroll wit_view - v_visibleScrollLeft (pan_move wit_bounds 300 10 (pan_start 5 6 wit_view) 15 6 wit_view) = 10"
  using panning_follows_mouse [OF wit_view_inv(2) _ refl refl, of 300] by simp

definition wit_panels :: panels where
  "wit_panels = \<lparr>pn_containerHeight = 550, pn_delta = True, pn_cvd = True, pn_deltaPanelHeight = 120, pn_cvdPanelHeight = 120\<rparr>"

theorem panels_fill_container_witness: "totalSvgHeight wit_panels = 550"
  using panels_fill_container [of wit_panels]
  by (simp add: wit_panels_def margin_defs deltaHeightTotal_def cvdHeightTotal_def panelGap_def)

theorem auto_view_coarsens_witness: "detail (autoView (wit_view\<lparr>v_candleWidth := 2\<rparr>)) \<le> detail (autoView wit_view)"
  using auto_view_coarsens [of "wit_view\<lparr>v_candleWidth := 2\<rparr>" wit_view] by (simp add: wit_view_def)

theorem default_zoom_fits_40_candles_witness: "2 \<le> bestWidth 1000 \<and> bestWidth 1000 < 120"
  using default_zoom_fits_40_candles [of 1000] by (simp add: margin_defs spacing_def js_floor_def)

definition wit_candle :: candle where
  "wit_candle = \<lparr>c_timestamp = 0, c_open = 1, c_high = 2, c_low = 1, c_close = 2, c_volume = 5, c_delta = 1,
     c_pocPrice = 1, c_cells = [], c_vah = 2, c_val = 1, c_tickCount = None\<rparr>"

theorem loading_history_jumps_to_newest_witness:
  "v_visibleScrollLeft (auto_scroll [wit_candle, wit_candle] False 1000 (wit_view\<lparr>v_scroll := 0, v_visibleScrollLeft := 0\<rparr>)) =
   v_visibleScrollLeft (auto_scroll [wit_candle, wit_candle] False 1000 wit_view)"
  using loading_history_jumps_to_newest [where candles = "[wit_candle, wit_candle]" and cw = 1000 and v = wit_view and a = 0 and b = 0] by simp

theorem overlay_ignores_scroll_witness: "column_at wit_view 100 = overlay_column_at wit_view 100 + 1"
  using overlay_ignores_scroll [of wit_view 1 100] by (simp add: wit_view_def spacing_def)

end
