(* ===== verification/Drawing.thy ===== *)
theory Drawing
  imports Viewport
begin

text \<open>
  The drawing tools of the footprint chart (\<open>frontend-chart/src/components/ClusterChart.tsx\<close>): placing, selecting,
  dragging, completing and deleting drawings, in the same mouse handlers that pan the chart and drag its time scale.

  A drawing is anchored to prices vertically and to scroll-absolute pixels horizontally. The canvas is sticky at
  the container's left edge, so the position in the canvas and in the container are the same. \<open>Date.now()\<close> is the
  argument \<open>now\<close> of the handlers that take a new id.
\<close>

datatype tool = Trend | Arrow | Channel | Horizontal | Rect | Fibonacci | Ruler | Text_note | Volume

record drawing =
  dw_id :: nat
  dw_type :: tool
  dw_startX :: number
  dw_startPrice :: number
  dw_endX :: number
  dw_endPrice :: number
  dw_stage :: "nat option"
  dw_offsetPrice :: "number option"
  dw_text :: string

datatype drag_kind = Move | Handle nat

record drag_state =
  ds_id :: nat
  ds_type :: drag_kind
  ds_initialX :: number
  ds_initialY :: number
  ds_initialStartX :: number
  ds_initialStartPrice :: number
  ds_initialEndX :: number
  ds_initialEndPrice :: number

text \<open>The state and the refs of a drag on the time scale.\<close>

record time_drag =
  td_startX :: number
  td_startWidth :: number
  td_anchorIndex :: number
  td_anchorClickX :: number

record board =
  br_tool :: "tool option"
  br_drawings :: "drawing list"
  br_inProgress :: "drawing option"
  br_selected :: "nat option"
  br_drag :: "drag_state option"
  br_dragging :: bool
  br_pan :: drag
  br_timeDrag :: "time_drag option"
  br_view :: view

text \<open>What the handlers read and do not change.\<close>

record scene =
  sc_bounds :: bounds
  sc_panels :: panels
  sc_priceStep :: number
  sc_count :: nat

text \<open>
  A mouse event: \<open>ms_x\<close>, \<open>ms_y\<close> are relative to the canvas, \<open>ms_pageX\<close>, \<open>ms_pageY\<close> page coordinates less the
  container's offset, \<open>ms_control\<close> says that the target lies in a button or a select.
\<close>

record mouse =
  ms_button :: nat
  ms_control :: bool
  ms_x :: number
  ms_y :: number
  ms_clientX :: number
  ms_pageX :: number
  ms_pageY :: number

section \<open>Positions\<close>

definition price_y :: "scene \<Rightarrow> view \<Rightarrow> number \<Rightarrow> number" where
  "price_y s v p = priceToY (sc_bounds s) (v_verticalScale v) (v_priceCenterOffset v) (chartHeight (sc_panels s)) p"

definition y_price :: "scene \<Rightarrow> view \<Rightarrow> number \<Rightarrow> number" where
  "y_price s v y = yToPrice (sc_bounds s) (v_verticalScale v) (v_priceCenterOffset v) (chartHeight (sc_panels s)) y"

definition screen_x :: "view \<Rightarrow> number \<Rightarrow> number" where
  "screen_x v x = x - v_visibleScrollLeft v"

definition in_zone :: "scene \<Rightarrow> mouse \<Rightarrow> bool" where
  "in_zone s ms \<longleftrightarrow>
     ms_y ms \<ge> margin_top \<and> ms_y ms \<le> totalSvgHeight (sc_panels s) - margin_bottom \<and> ms_x ms \<ge> margin_left"

definition offset_of :: "scene \<Rightarrow> drawing \<Rightarrow> number" where
  "offset_of s d = (case dw_offsetPrice d of Some v \<Rightarrow> v | None \<Rightarrow> or_else (sc_priceStep s) (1 / 10) * 20)"

definition handles :: "scene \<Rightarrow> view \<Rightarrow> drawing \<Rightarrow> (number \<times> number \<times> nat) list" where
  "handles s v d =
     (let y1 = price_y s v (dw_startPrice d); y2 = price_y s v (dw_endPrice d);
          x1 = screen_x v (dw_startX d); x2 = screen_x v (dw_endX d)
      in if dw_type d = Channel
         then [(x1, y1, 1), (x2, y2, 2), (x2, price_y s v (dw_endPrice d + offset_of s d), 3),
               (x1, price_y s v (dw_startPrice d + offset_of s d), 4)]
         else [(x1, y1, 1), (x2, y2, 2), (x2, y1, 3), (x1, y2, 4)])"

definition pdist :: "number \<Rightarrow> number \<Rightarrow> number \<Rightarrow> number \<Rightarrow> number" where
  "pdist x y px py = sqrt ((x - px) * (x - px) + (y - py) * (y - py))"

definition clicked_handle :: "scene \<Rightarrow> view \<Rightarrow> number \<Rightarrow> number \<Rightarrow> drawing \<Rightarrow> nat option" where
  "clicked_handle s v x y d =
     map_option (\<lambda>h. snd (snd h)) (find (\<lambda>h. pdist x y (fst h) (fst (snd h)) \<le> 10) (handles s v d))"

section \<open>Hit tests\<close>

definition checkLine :: "number \<Rightarrow> number \<Rightarrow> number \<Rightarrow> number \<Rightarrow> number \<Rightarrow> number \<Rightarrow> bool" where
  "checkLine x y px1 py1 px2 py2 =
     (let lineLen = pdist px2 py2 px1 py1 in
      if lineLen > 0
      then let u = ((x - px1) * (px2 - px1) + (y - py1) * (py2 - py1)) / (lineLen * lineLen)
           in u \<ge> 0 \<and> u \<le> 1 \<and> pdist x y (px1 + u * (px2 - px1)) (py1 + u * (py2 - py1)) \<le> 8
      else False)"

definition in_box :: "number \<Rightarrow> number \<Rightarrow> number \<Rightarrow> number \<Rightarrow> number \<Rightarrow> number \<Rightarrow> number \<Rightarrow> bool" where
  "in_box r x y x1 y1 x2 y2 \<longleftrightarrow>
     x \<ge> min x1 x2 - r \<and> x \<le> max x1 x2 + r \<and> y \<ge> min y1 y2 - r \<and> y \<le> max y1 y2 + r"

definition hits :: "scene \<Rightarrow> view \<Rightarrow> number \<Rightarrow> number \<Rightarrow> drawing \<Rightarrow> bool" where
  "hits s v x y d =
     (let y1 = price_y s v (dw_startPrice d); y2 = price_y s v (dw_endPrice d);
          x1 = screen_x v (dw_startX d); x2 = screen_x v (dw_endX d);
          line = (let y1_off = price_y s v (dw_startPrice d + offset_of s d);
                      y2_off = price_y s v (dw_endPrice d + offset_of s d)
                  in pdist x y x1 y1 \<le> 10 \<or> pdist x y x2 y2 \<le> 10 \<or> pdist x y x1 y1_off \<le> 10 \<or>
                     pdist x y x2 y2_off \<le> 10 \<or> checkLine x y x1 y1 x2 y2 \<or> checkLine x y x1 y1_off x2 y2_off)
      in case dw_type d of
           Volume \<Rightarrow> in_box 0 x y x1 y1 x2 y2
         | Rect \<Rightarrow> in_box 0 x y x1 y1 x2 y2
         | Ruler \<Rightarrow> in_box 0 x y x1 y1 x2 y2
         | Trend \<Rightarrow> line
         | Arrow \<Rightarrow> line
         | Channel \<Rightarrow> line
         | Horizontal \<Rightarrow> \<bar>y - y1\<bar> \<le> 8
         | Text_note \<Rightarrow> in_box 10 x y x1 y1 x2 y2
         | Fibonacci \<Rightarrow> in_box 10 x y x1 y1 x2 y2)"

text \<open>The id of the drawing under the cursor, with the index of its handle if one was hit.\<close>

definition found_drawing :: "scene \<Rightarrow> mouse \<Rightarrow> board \<Rightarrow> (nat \<times> nat option) option" where
  "found_drawing s ms br =
     (let v = br_view br; x = ms_x ms; y = ms_y ms;
          handle = (case br_selected br of
                      None \<Rightarrow> None
                    | Some i \<Rightarrow>
                        (case find (\<lambda>d. dw_id d = i) (br_drawings br) of
                           None \<Rightarrow> None
                         | Some d \<Rightarrow> map_option (\<lambda>k. (dw_id d, Some k)) (clicked_handle s v x y d)))
      in case handle of
           Some f \<Rightarrow> Some f
         | None \<Rightarrow> map_option (\<lambda>d. (dw_id d, None)) (find (hits s v x y) (rev (br_drawings br))))"

section \<open>Mouse handlers\<close>

text \<open>The price of the first line of a channel at a position; a vertical one counts as level.\<close>

definition baselinePriceAtX :: "drawing \<Rightarrow> number \<Rightarrow> number" where
  "baselinePriceAtX d x =
     dw_startPrice d + (dw_endPrice d - dw_startPrice d) *
       (if dw_endX d = dw_startX d then 0 else (x - dw_startX d) / (dw_endX d - dw_startX d))"

definition new_drawing :: "nat \<Rightarrow> tool \<Rightarrow> number \<Rightarrow> number \<Rightarrow> drawing" where
  "new_drawing now t x price =
     \<lparr>dw_id = now, dw_type = t, dw_startX = x, dw_startPrice = price, dw_endX = x, dw_endPrice = price,
      dw_stage = (if t = Channel then Some 1 else None),
      dw_offsetPrice = (if t = Channel then Some 0 else None), dw_text = []\<rparr>"

text \<open>A press with an active tool: it completes a channel, places a level, or starts a drawing.\<close>

definition draw_down :: "scene \<Rightarrow> nat \<Rightarrow> mouse \<Rightarrow> tool \<Rightarrow> board \<Rightarrow> board" where
  "draw_down s now ms t br =
     (let x = ms_x ms + v_visibleScrollLeft (br_view br); price = y_price s (br_view br) (ms_y ms);
          place = (if t = Horizontal
                   then br\<lparr>br_drawings := br_drawings br @ [new_drawing now Horizontal x price], br_tool := None\<rparr>
                   else br\<lparr>br_inProgress := Some (new_drawing now t x price)\<rparr>)
      in case br_inProgress br of
           None \<Rightarrow> place
         | Some d \<Rightarrow>
             if dw_type d = Channel \<and> dw_stage d = Some 2
             then br\<lparr>br_drawings := br_drawings br @
                       [d\<lparr>dw_offsetPrice := Some (price - baselinePriceAtX d x), dw_stage := None\<rparr>],
                     br_inProgress := None, br_tool := None\<rparr>
             else place)"

text \<open>The press that starts to drag the time scale or the chart.\<close>

definition pan_down :: "scene \<Rightarrow> mouse \<Rightarrow> board \<Rightarrow> board" where
  "pan_down s ms br =
     (if ms_y ms \<ge> totalSvgHeight (sc_panels s) - margin_bottom
      then br\<lparr>br_timeDrag := Some \<lparr>td_startX = ms_clientX ms, td_startWidth = v_candleWidth (br_view br),
                td_anchorIndex = time_anchor (br_view br) (ms_x ms), td_anchorClickX = ms_x ms\<rparr>\<rparr>
      else br\<lparr>br_dragging := True, br_pan := pan_start (ms_pageX ms) (ms_pageY ms) (br_view br)\<rparr>)"

definition select_down :: "scene \<Rightarrow> mouse \<Rightarrow> board \<Rightarrow> board" where
  "select_down s ms br =
     (case found_drawing s ms br of
        None \<Rightarrow> pan_down s ms (br\<lparr>br_selected := None\<rparr>)
      | Some (i, h) \<Rightarrow>
          let br1 = br\<lparr>br_selected := Some i\<rparr> in
          case find (\<lambda>d. dw_id d = i) (br_drawings br) of
            None \<Rightarrow> pan_down s ms br1
          | Some d \<Rightarrow>
              br1\<lparr>br_drag := Some
                \<lparr>ds_id = i, ds_type = (case h of Some k \<Rightarrow> Handle k | None \<Rightarrow> Move), ds_initialX = ms_x ms,
                 ds_initialY = ms_y ms, ds_initialStartX = dw_startX d, ds_initialStartPrice = dw_startPrice d,
                 ds_initialEndX = dw_endX d, ds_initialEndPrice = dw_endPrice d\<rparr>\<rparr>)"

definition handleMouseDown :: "scene \<Rightarrow> nat \<Rightarrow> mouse \<Rightarrow> board \<Rightarrow> board" where
  "handleMouseDown s now ms br =
     (if ms_button ms \<noteq> 0 \<or> ms_control ms then br
      else case br_tool br of
             Some t \<Rightarrow> if in_zone s ms then draw_down s now ms t br else pan_down s ms br
           | None \<Rightarrow> if in_zone s ms then select_down s ms br else pan_down s ms br)"

text \<open>Moving: the drawing in progress, then a dragged drawing, then the chart.\<close>

definition progress_move :: "number \<Rightarrow> number \<Rightarrow> drawing \<Rightarrow> drawing" where
  "progress_move x price d =
     (if dw_type d = Channel \<and> dw_stage d = Some 2
      then d\<lparr>dw_offsetPrice := Some (price - baselinePriceAtX d x)\<rparr>
      else d\<lparr>dw_endX := x, dw_endPrice := price\<rparr>)"

definition move_drawing :: "scene \<Rightarrow> view \<Rightarrow> drag_state \<Rightarrow> mouse \<Rightarrow> drawing \<Rightarrow> drawing" where
  "move_drawing s v ds ms d =
     (let deltaX = ms_x ms - ds_initialX ds;
          deltaPrice = y_price s v (ms_y ms) - y_price s v (ds_initialY ds)
      in d\<lparr>dw_startX := ds_initialStartX ds + deltaX, dw_endX := ds_initialEndX ds + deltaX,
           dw_startPrice := ds_initialStartPrice ds + deltaPrice,
           dw_endPrice := ds_initialEndPrice ds + deltaPrice\<rparr>)"

definition drag_handle :: "scene \<Rightarrow> view \<Rightarrow> drag_state \<Rightarrow> nat \<Rightarrow> mouse \<Rightarrow> drawing \<Rightarrow> drawing" where
  "drag_handle s v ds k ms d =
     (let deltaX = ms_x ms - ds_initialX ds; currentPrice = y_price s v (ms_y ms);
          atStart = ds_initialStartX ds + deltaX; atEnd = ds_initialEndX ds + deltaX
      in if dw_type d = Channel
         then (if k = 1 then d\<lparr>dw_startX := atStart, dw_startPrice := currentPrice\<rparr>
               else if k = 2 then d\<lparr>dw_endX := atEnd, dw_endPrice := currentPrice\<rparr>
               else if k = 3 then d\<lparr>dw_offsetPrice := Some (currentPrice - dw_endPrice d)\<rparr>
               else if k = 4 then d\<lparr>dw_offsetPrice := Some (currentPrice - dw_startPrice d)\<rparr>
               else d)
         else (if k = 1 then d\<lparr>dw_startX := atStart, dw_startPrice := currentPrice\<rparr>
               else if k = 2 then d\<lparr>dw_endX := atEnd, dw_endPrice := currentPrice\<rparr>
               else if k = 3 then d\<lparr>dw_endX := atEnd, dw_startPrice := currentPrice\<rparr>
               else if k = 4 then d\<lparr>dw_startX := atStart, dw_endPrice := currentPrice\<rparr>
               else d))"

definition drag_drawing :: "scene \<Rightarrow> view \<Rightarrow> drag_state \<Rightarrow> mouse \<Rightarrow> drawing \<Rightarrow> drawing" where
  "drag_drawing s v ds ms d =
     (if dw_id d = ds_id ds
      then case ds_type ds of Move \<Rightarrow> move_drawing s v ds ms d | Handle k \<Rightarrow> drag_handle s v ds k ms d
      else d)"

definition handleMouseMove :: "scene \<Rightarrow> mouse \<Rightarrow> board \<Rightarrow> board" where
  "handleMouseMove s ms br =
     (let v = br_view br in
      case br_inProgress br of
        Some d \<Rightarrow>
          br\<lparr>br_inProgress :=
               Some (progress_move (ms_x ms + v_visibleScrollLeft v) (y_price s v (ms_y ms)) d)\<rparr>
      | None \<Rightarrow>
          (case br_drag br of
             Some ds \<Rightarrow> br\<lparr>br_drawings := map (drag_drawing s v ds ms) (br_drawings br)\<rparr>
           | None \<Rightarrow>
               if br_dragging br
               then br\<lparr>br_view := pan_move (sc_bounds s) (chartHeight (sc_panels s)) (sc_count s) (br_pan br)
                                    (ms_pageX ms) (ms_pageY ms) v\<rparr>
               else br))"

text \<open>\<open>txt && txt.trim()\<close> for the answer of the prompt, \<open>None\<close> when it is dismissed.\<close>

definition non_blank :: "string option \<Rightarrow> bool" where
  "non_blank answer =
     (case answer of None \<Rightarrow> False
      | Some s \<Rightarrow> list_ex (\<lambda>c. c \<notin> {CHR '' '', CHR 0x09, CHR 0x0A, CHR 0x0B, CHR 0x0C, CHR 0x0D, CHR 0xA0}) s)"

definition handleMouseUpOrLeave :: "string option \<Rightarrow> board \<Rightarrow> board" where
  "handleMouseUpOrLeave answer br =
     (case br_inProgress br of
        Some d \<Rightarrow>
          if dw_type d = Channel \<and> dw_stage d = Some 1
          then br\<lparr>br_inProgress := Some (d\<lparr>dw_stage := Some 2\<rparr>)\<rparr>
          else
            let added = (if dw_type d = Text_note
                         then (if non_blank answer then [d\<lparr>dw_text := the answer\<rparr>] else [])
                         else [d])
            in br\<lparr>br_drawings := br_drawings br @ added, br_inProgress := None, br_tool := None\<rparr>
      | None \<Rightarrow>
          (case br_drag br of
             Some _ \<Rightarrow> br\<lparr>br_drag := None\<rparr>
           | None \<Rightarrow> br\<lparr>br_dragging := False\<rparr>))"

text \<open>The window's handlers while the time scale is dragged.\<close>

definition time_drag_move :: "scene \<Rightarrow> candle_type \<Rightarrow> mouse \<Rightarrow> board \<Rightarrow> board" where
  "time_drag_move s ct ms br =
     (case br_timeDrag br of
        None \<Rightarrow> br
      | Some td \<Rightarrow>
          br\<lparr>br_view := drag_time_scale (sc_count s) ct (td_startWidth td) (td_startX td) (td_anchorIndex td)
                           (td_anchorClickX td) (ms_clientX ms) (br_view br)\<rparr>)"

definition time_drag_up :: "board \<Rightarrow> board" where
  "time_drag_up br = br\<lparr>br_timeDrag := None\<rparr>"

section \<open>Tool bar and keyboard\<close>

definition toggle_tool :: "tool \<Rightarrow> board \<Rightarrow> board" where
  "toggle_tool t br = br\<lparr>br_tool := (if br_tool br = Some t then None else Some t)\<rparr>"

definition clear_drawings :: "board \<Rightarrow> board" where
  "clear_drawings br = (if br_drawings br = [] then br else br\<lparr>br_drawings := [], br_selected := None\<rparr>)"

definition handleKeyDown :: "bool \<Rightarrow> string \<Rightarrow> board \<Rightarrow> board" where
  "handleKeyDown typing key br =
     (if typing then br
      else if key = ''Delete'' \<or> key = ''Backspace''
      then (case br_selected br of
              None \<Rightarrow> br
            | Some i \<Rightarrow> br\<lparr>br_drawings := filter (\<lambda>d. dw_id d \<noteq> i) (br_drawings br), br_selected := None\<rparr>)
      else br)"

section \<open>The price axis of a scene\<close>

definition scene_ok :: "scene \<Rightarrow> bool" where
  "scene_ok s \<longleftrightarrow> 0 < bd_priceRange (sc_bounds s)"

lemma chartHeight_ge: "150 \<le> chartHeight p"
  by (simp add: chartHeight_def)

interpretation scene_axis: axis "\<lambda>sv. scene_ok (fst sv)" "\<lambda>sv. price_y (fst sv) (snd sv)"
  "\<lambda>sv. y_price (fst sv) (snd sv)"
proof
  fix sv :: "scene \<times> view" and p
  let ?w = "(sc_bounds (fst sv), v_verticalScale (snd sv), v_priceCenterOffset (snd sv), chartHeight (sc_panels (fst sv)))"
  assume "scene_ok (fst sv)"
  then have "win_ok ?w" using chartHeight_ge [of "sc_panels (fst sv)"] by (simp add: win_ok_def scene_ok_def)
  then show "y_price (fst sv) (snd sv) (price_y (fst sv) (snd sv) p) = p"
    "price_y (fst sv) (snd sv) (y_price (fst sv) (snd sv) p) = p"
    using price_axis.of_to [of ?w p] price_axis.to_of [of ?w p]
    by (simp_all add: win_toY_def win_toPrice_def price_y_def y_price_def)
qed

lemma price_y_of_y: "scene_ok s \<Longrightarrow> price_y s v (y_price s v y) = y"
  using scene_axis.to_of [of "(s, v)" y] by simp

lemma price_y_add:
  "price_y s v (p + e) = price_y s v p -
     chartHeight (sc_panels s) * e / window_range (sc_bounds s) (v_verticalScale v) (v_priceCenterOffset v)"
  by (simp add: price_y_def priceToY_def add_divide_distrib diff_divide_distrib algebra_simps)

lemma price_y_shift:
  assumes "scene_ok s"
  shows "price_y s v (p + (y_price s v y' - y_price s v y)) = price_y s v p + (y' - y)"
proof -
  let ?a = "chartHeight (sc_panels s)"
  let ?r = "window_range (sc_bounds s) (v_verticalScale v) (v_priceCenterOffset v)"
  have "price_y s v (y_price s v y + (y_price s v y' - y_price s v y)) = y'" using price_y_of_y [OF assms] by simp
  then have "y - ?a * (y_price s v y' - y_price s v y) / ?r = y'" unfolding price_y_add price_y_of_y [OF assms] .
  then show ?thesis unfolding price_y_add by linarith
qed

lemma screen_x_add: "screen_x v (x + e) = screen_x v x + e"
  by (simp add: screen_x_def)

section \<open>Lemmas on dragging\<close>

definition shift_handle :: "number \<Rightarrow> number \<Rightarrow> number \<times> number \<times> nat \<Rightarrow> number \<times> number \<times> nat" where
  "shift_handle dx dy h = (fst h + dx, fst (snd h) + dy, snd (snd h))"

definition drag_started :: "drag_state \<Rightarrow> mouse \<Rightarrow> drawing \<Rightarrow> bool" where
  "drag_started ds ms d \<longleftrightarrow>
     ds_id ds = dw_id d \<and> ds_initialX ds = ms_x ms \<and> ds_initialY ds = ms_y ms \<and>
     ds_initialStartX ds = dw_startX d \<and> ds_initialStartPrice ds = dw_startPrice d \<and>
     ds_initialEndX ds = dw_endX d \<and> ds_initialEndPrice ds = dw_endPrice d"

lemma dw_id_drag [simp]: "dw_id (drag_drawing s v ds m d) = dw_id d"
  by (simp add: drag_drawing_def move_drawing_def drag_handle_def Let_def split: drag_kind.split)

lemma drag_absorb: "drag_drawing s v ds m (drag_drawing s v ds m' d) = drag_drawing s v ds m d"
  by (cases d) (simp add: drag_drawing_def move_drawing_def drag_handle_def Let_def split: drag_kind.split)

lemma drag_moves:
  assumes "br_inProgress br = None" "br_drag br = Some ds"
  shows "br_drawings (fold (handleMouseMove s) (ms @ [m]) br) =
         map (drag_drawing s (br_view br) ds m) (br_drawings br)"
  using assms
proof (induction ms arbitrary: br)
  case (Cons m' ms)
  let ?br = "br\<lparr>br_drawings := map (drag_drawing s (br_view br) ds m') (br_drawings br)\<rparr>"
  have "handleMouseMove s m' br = ?br" using Cons.prems by (simp add: handleMouseMove_def)
  then show ?case using Cons.IH [of ?br] Cons.prems by (simp add: drag_absorb o_def)
qed (simp add: handleMouseMove_def)

lemma pan_down_simps [simp]:
  "br_drag (pan_down s ms br) = br_drag br" "br_drawings (pan_down s ms br) = br_drawings br"
  "br_inProgress (pan_down s ms br) = br_inProgress br" "br_selected (pan_down s ms br) = br_selected br"
  "br_tool (pan_down s ms br) = br_tool br" "br_view (pan_down s ms br) = br_view br"
  by (simp_all add: pan_down_def)

lemma select_down_simps [simp]:
  "br_drawings (select_down s ms br) = br_drawings br" "br_inProgress (select_down s ms br) = br_inProgress br"
  "br_tool (select_down s ms br) = br_tool br" "br_view (select_down s ms br) = br_view br"
  by (simp_all add: select_down_def Let_def split: option.split prod.split)

lemma draw_down_simps [simp]:
  "br_drag (draw_down s now ms t br) = br_drag br" "br_selected (draw_down s now ms t br) = br_selected br"
  "br_view (draw_down s now ms t br) = br_view br"
  by (simp_all add: draw_down_def Let_def split: option.split)

lemma find_id: "find (\<lambda>d. dw_id d = i) ds = Some d \<Longrightarrow> d \<in> set ds \<and> dw_id d = i"
  by (auto simp: find_Some_iff)

text \<open>A press that begins a drag remembers the drawing it hit.\<close>

lemma press_starts_drag:
  assumes "br_drag br = None" "br_drag (handleMouseDown s now m0 br) = Some ds"
  shows "br_tool br = None \<and> br_drawings (handleMouseDown s now m0 br) = br_drawings br \<and>
         br_inProgress (handleMouseDown s now m0 br) = br_inProgress br \<and>
         br_view (handleMouseDown s now m0 br) = br_view br \<and>
         (\<exists>d \<in> set (br_drawings br). drag_started ds m0 d)"
proof -
  have dm: "handleMouseDown s now m0 br = select_down s m0 br" "br_tool br = None"
    using assms by (auto simp: handleMouseDown_def split: if_splits option.splits)
  obtain i h d where f: "found_drawing s m0 br = Some (i, h)" and d: "find (\<lambda>d. dw_id d = i) (br_drawings br) = Some d"
    using assms dm by (auto simp: select_down_def Let_def split: option.splits)
  have "drag_started ds m0 d"
    using assms(2) dm f d find_id [OF d] by (auto simp: select_down_def Let_def drag_started_def)
  then show ?thesis using dm find_id [OF d] by auto
qed

lemma split_by_id:
  assumes "distinct (map dw_id ds)" "d \<in> set ds" "\<And>e. dw_id e \<noteq> dw_id d \<Longrightarrow> f e = e"
  shows "\<exists>pre post. ds = pre @ d # post \<and> map f ds = pre @ f d # post"
proof -
  obtain pre post where ds: "ds = pre @ d # post" using split_list [OF assms(2)] by blast
  have "f e = e" if "e \<in> set pre \<or> e \<in> set post" for e
  proof (rule assms(3))
    show "dw_id e \<noteq> dw_id d" using assms(1) that unfolding ds by (auto simp: image_iff)
  qed
  then have "map f pre = pre" "map f post = post" by (simp_all add: map_idI)
  then show ?thesis using ds by auto
qed

lemma handles_shift:
  assumes "scene_ok s"
  shows "handles s v (d\<lparr>dw_startX := dw_startX d + dx, dw_endX := dw_endX d + dx,
                        dw_startPrice := dw_startPrice d + (y_price s v y' - y_price s v y),
                        dw_endPrice := dw_endPrice d + (y_price s v y' - y_price s v y)\<rparr>) =
         map (shift_handle dx (y' - y)) (handles s v d)"
proof -
  let ?e = "y_price s v y' - y_price s v y"
  have "p + ?e + q = (p + q) + ?e" for p q by simp
  then have *: "price_y s v (p + ?e + q) = price_y s v (p + q) + (y' - y)" for p q
    using price_y_shift [OF assms] by presburger
  have off: "offset_of s (d\<lparr>dw_startX := a, dw_endX := b, dw_startPrice := c, dw_endPrice := e\<rparr>) = offset_of s d" for a b c e
    by (simp add: offset_of_def)
  show ?thesis
    using price_y_shift [OF assms] * by (simp add: handles_def Let_def shift_handle_def screen_x_add off)
qed

section \<open>The life of a drawing\<close>

text \<open>A finished and an unfinished drawing.\<close>

definition finished :: "drawing \<Rightarrow> bool" where
  "finished d \<longleftrightarrow> dw_stage d \<noteq> Some 1 \<and> (dw_type d = Channel \<longleftrightarrow> dw_offsetPrice d \<noteq> None)"

definition unfinished :: "drawing \<Rightarrow> bool" where
  "unfinished d \<longleftrightarrow> dw_type d \<noteq> Horizontal \<and> (dw_type d = Channel \<longleftrightarrow> dw_offsetPrice d \<noteq> None) \<and>
     dw_stage d \<in> (if dw_type d = Channel then {Some 1, Some 2} else {None})"

definition board_inv :: "nat \<Rightarrow> board \<Rightarrow> bool" where
  "board_inv t br \<longleftrightarrow>
     distinct (map dw_id (br_drawings br)) \<and>
     (\<forall>d \<in> set (br_drawings br). dw_id d < t \<and> finished d) \<and>
     (\<forall>d. br_inProgress br = Some d \<longrightarrow>
          dw_id d < t \<and> dw_id d \<notin> dw_id ` set (br_drawings br) \<and> unfinished d) \<and>
     (\<forall>i. br_selected br = Some i \<longrightarrow> i \<in> dw_id ` set (br_drawings br))"

text \<open>Every event of the chart, on a clock that no two presses share.\<close>

inductive board_step :: "scene \<Rightarrow> nat \<times> board \<Rightarrow> nat \<times> board \<Rightarrow> bool" for s where
  down: "board_step s (t, br) (Suc t, handleMouseDown s t ms br)"
| move: "board_step s (t, br) (t, handleMouseMove s ms br)"
| up: "board_step s (t, br) (t, handleMouseUpOrLeave answer br)"
| time_move: "board_step s (t, br) (t, time_drag_move s ct ms br)"
| time_up: "board_step s (t, br) (t, time_drag_up br)"
| tool: "board_step s (t, br) (t, toggle_tool tool br)"
| clear: "board_step s (t, br) (t, clear_drawings br)"
| key: "board_step s (t, br) (t, handleKeyDown typing k br)"
| viewed: "board_step s (t, br) (t, br\<lparr>br_view := v\<rparr>)"
| tick: "t \<le> t' \<Longrightarrow> board_step s (t, br) (t', br)"

named_theorems board_intros

lemma board_inv_cong [board_intros]:
  "board_inv t br \<Longrightarrow> br_drawings br' = br_drawings br \<Longrightarrow> br_inProgress br' = br_inProgress br \<Longrightarrow>
   br_selected br' = br_selected br \<Longrightarrow> board_inv t br'"
  by (simp add: board_inv_def)

lemma board_inv_later: "board_inv t br \<Longrightarrow> t \<le> t' \<Longrightarrow> board_inv t' br"
  by (auto simp: board_inv_def split: option.splits)

lemma finished_dragI: "finished d \<Longrightarrow> finished (drag_drawing s v ds m d)"
  by (auto simp: finished_def drag_drawing_def move_drawing_def drag_handle_def Let_def split: drag_kind.split)

lemma unfinished_move: "unfinished d \<Longrightarrow> unfinished (progress_move x p d)"
  by (auto simp: unfinished_def progress_move_def split: if_splits)

lemma dw_id_progress [simp]: "dw_id (progress_move x p d) = dw_id d"
  by (simp add: progress_move_def)

lemma new_drawing_simps [simp]:
  "dw_id (new_drawing t tt x p) = t" "tt \<noteq> Horizontal \<Longrightarrow> unfinished (new_drawing t tt x p)"
  "finished (new_drawing t Horizontal x p)"
  by (auto simp: new_drawing_def unfinished_def finished_def)

lemma board_inv_draw_down:
  assumes "board_inv t br"
  shows "board_inv (Suc t) (draw_down s t ms tt br)"
proof -
  let ?x = "ms_x ms + v_visibleScrollLeft (br_view br)" and ?p = "y_price s (br_view br) (ms_y ms)"
  have fresh: "t \<notin> dw_id ` set (br_drawings br)" using assms by (auto simp: board_inv_def)
  have I: "board_inv (Suc t) br" using assms board_inv_later by simp
  have A: "board_inv (Suc t) (br\<lparr>br_inProgress := Some (new_drawing t tt ?x ?p)\<rparr>)" if "tt \<noteq> Horizontal"
    using I fresh that by (simp add: board_inv_def)
  have B: "board_inv (Suc t) (br\<lparr>br_drawings := br_drawings br @ [new_drawing t Horizontal ?x ?p], br_tool := None\<rparr>)"
    using assms fresh by (auto simp: board_inv_def less_Suc_eq split: option.splits)
  have C: "board_inv (Suc t) (br\<lparr>br_drawings := br_drawings br @
      [d\<lparr>dw_offsetPrice := Some e, dw_stage := None\<rparr>], br_inProgress := None, br_tool := None\<rparr>)"
    if "br_inProgress br = Some d" "dw_type d = Channel" for d e
    using I that by (auto simp: board_inv_def finished_def split: option.splits)
  show ?thesis unfolding draw_down_def Let_def using A B C by (auto split: option.split)
qed

lemma found_in: "found_drawing s ms br = Some (i, h) \<Longrightarrow> i \<in> dw_id ` set (br_drawings br)"
proof -
  assume f: "found_drawing s ms br = Some (i, h)"
  let ?P = "hits s (br_view br) (ms_x ms) (ms_y ms)"
  have "(\<exists>d. find ?P (rev (br_drawings br)) = Some d \<and> dw_id d = i) \<or>
        (\<exists>j d. find (\<lambda>d. dw_id d = j) (br_drawings br) = Some d \<and> dw_id d = i)"
    using f unfolding found_drawing_def Let_def by (auto split: option.splits)
  then show ?thesis using find_id by (auto simp: find_Some_iff) (metis nth_mem set_rev rev_nth length_rev imageI)+
qed

lemma board_inv_select: "board_inv t br \<Longrightarrow> i \<in> dw_id ` set (br_drawings br) \<Longrightarrow> board_inv t (br\<lparr>br_selected := Some i\<rparr>)"
  by (simp add: board_inv_def)

lemma board_inv_deselect: "board_inv t br \<Longrightarrow> board_inv t (br\<lparr>br_selected := None\<rparr>)"
  by (simp add: board_inv_def)

lemma board_inv_pan: "board_inv t br \<Longrightarrow> board_inv t (pan_down s ms br)"
  by (rule board_inv_cong) simp_all

lemma board_inv_drag: "board_inv t br \<Longrightarrow> board_inv t (br\<lparr>br_drag := x\<rparr>)"
  by (rule board_inv_cong) simp_all

lemma board_inv_select_down: "board_inv t br \<Longrightarrow> board_inv t (select_down s ms br)"
  unfolding select_down_def Let_def
  by (auto split: option.split intro!: board_inv_pan board_inv_drag board_inv_select board_inv_deselect dest: found_in)

lemma board_inv_down [board_intros]: "board_inv t br \<Longrightarrow> board_inv (Suc t) (handleMouseDown s t ms br)"
  using board_inv_later [of t br "Suc t"]
  by (simp add: handleMouseDown_def board_inv_pan board_inv_select_down board_inv_draw_down split: option.split)

lemma board_inv_map:
  assumes "board_inv t br" "\<And>d. dw_id (f d) = dw_id d" "\<And>d. finished d \<Longrightarrow> finished (f d)"
  shows "board_inv t (br\<lparr>br_drawings := map f (br_drawings br)\<rparr>)"
proof -
  have "map dw_id (map f (br_drawings br)) = map dw_id (br_drawings br)" using assms(2) by simp
  moreover have "dw_id ` set (map f (br_drawings br)) = dw_id ` set (br_drawings br)"
    using assms(2) by (simp add: image_image)
  ultimately show ?thesis using assms unfolding board_inv_def by (simp del: map_map set_map) (simp add: assms)
qed

lemma board_inv_move [board_intros]: "board_inv t br \<Longrightarrow> board_inv t (handleMouseMove s ms br)"
proof -
  assume inv: "board_inv t br"
  have "board_inv t (br\<lparr>br_inProgress := Some (progress_move x p d)\<rparr>)" if "br_inProgress br = Some d" for x p d
    using inv that unfinished_move by (simp add: board_inv_def)
  moreover have "board_inv t (br\<lparr>br_view := v\<rparr>)" for v using inv by (rule board_inv_cong) simp_all
  ultimately show ?thesis using inv board_inv_map [OF inv dw_id_drag finished_dragI]
    unfolding handleMouseMove_def Let_def by (simp split: option.split)
qed

lemma board_inv_drop: "board_inv t br \<Longrightarrow> board_inv t (br\<lparr>br_inProgress := None, br_tool := x\<rparr>)"
  by (simp add: board_inv_def)

lemma board_inv_add:
  assumes "board_inv t br" "br_inProgress br = Some d" "dw_id e = dw_id d" "finished e"
  shows "board_inv t (br\<lparr>br_drawings := br_drawings br @ [e], br_inProgress := None, br_tool := x\<rparr>)"
  using assms by (auto simp: board_inv_def)

lemma board_inv_up [board_intros]: "board_inv t br \<Longrightarrow> board_inv t (handleMouseUpOrLeave answer br)"
proof (cases "br_inProgress br")
  case None
  assume "board_inv t br"
  then show ?thesis using None board_inv_drag board_inv_cong [of t br "br\<lparr>br_dragging := False\<rparr>"]
    by (simp add: handleMouseUpOrLeave_def split: option.split)
next
  case (Some d)
  assume inv: "board_inv t br"
  then have u: "unfinished d" using Some by (simp add: board_inv_def)
  show ?thesis
  proof (cases "dw_type d = Channel \<and> dw_stage d = Some 1")
    case True
    then have "unfinished (d\<lparr>dw_stage := Some 2\<rparr>)" using u by (simp add: unfinished_def)
    then have "board_inv t (br\<lparr>br_inProgress := Some (d\<lparr>dw_stage := Some 2\<rparr>)\<rparr>)"
      using inv Some by (simp add: board_inv_def)
    then show ?thesis using Some True by (simp add: handleMouseUpOrLeave_def)
  next
    case False
    then have "finished d" "finished (d\<lparr>dw_text := the answer\<rparr>)"
      using u by (auto simp: unfinished_def finished_def split: if_splits)
    then have "board_inv t (br\<lparr>br_drawings := br_drawings br @ [e], br_inProgress := None, br_tool := None\<rparr>)"
      if "e = d \<or> e = d\<lparr>dw_text := the answer\<rparr>" for e
      using board_inv_add [OF inv Some, of e] that by auto
    then show ?thesis using Some False board_inv_drop [OF inv, of None]
      unfolding handleMouseUpOrLeave_def Let_def by auto
  qed
qed

lemma board_inv_clear [board_intros]: "board_inv t br \<Longrightarrow> board_inv t (clear_drawings br)"
  by (auto simp: clear_drawings_def board_inv_def split: option.splits)

lemma distinct_map_filter: "distinct (map f xs) \<Longrightarrow> distinct (map f (filter P xs))"
  by (induction xs) auto

lemma board_inv_key [board_intros]: "board_inv t br \<Longrightarrow> board_inv t (handleKeyDown typing k br)"
  by (auto simp: handleKeyDown_def board_inv_def distinct_map_filter split: option.splits)

lemma board_step_inv: "board_step s x y \<Longrightarrow> board_inv (fst x) (snd x) \<Longrightarrow> board_inv (fst y) (snd y)"
proof (induction rule: board_step.induct)
  case (time_move t br ct ms)
  then show ?case by (auto intro: board_inv_cong simp: time_drag_move_def split: option.split)
next
  case (tick t t' br)
  then show ?case using board_inv_later by simp
qed (auto intro: board_intros simp: time_drag_up_def toggle_tool_def)

section \<open>Lemmas on hit tests\<close>

lemma pdist_self [simp]: "pdist x y x y = 0"
  by (simp add: pdist_def)

lemma pdist_pos: "0 < pdist a b c d \<longleftrightarrow> a \<noteq> c \<or> b \<noteq> d"
proof -
  have "(a - c) * (a - c) + (b - d) * (b - d) = 0 \<longleftrightarrow> a = c \<and> b = d"
    using sum_squares_eq_zero_iff [of "a - c" "b - d"] by simp
  moreover have "0 \<le> (a - c) * (a - c) + (b - d) * (b - d)" by simp
  ultimately have "0 < (a - c) * (a - c) + (b - d) * (b - d) \<longleftrightarrow> a \<noteq> c \<or> b \<noteq> d" by linarith
  then show ?thesis by (simp add: pdist_def)
qed

lemma pdist_square: "pdist a b c d * pdist a b c d = (a - c) * (a - c) + (b - d) * (b - d)"
  by (simp add: pdist_def)

text \<open>A point of a line is on the line, or at its start when the line has no length.\<close>

lemma point_on_line:
  assumes "0 \<le> u" "u \<le> 1"
  shows "checkLine (x1 + u * (x2 - x1)) (y1 + u * (y2 - y1)) x1 y1 x2 y2 \<or>
         pdist (x1 + u * (x2 - x1)) (y1 + u * (y2 - y1)) x1 y1 \<le> 10"
proof (cases "pdist x2 y2 x1 y1 > 0")
  case True
  let ?L = "pdist x2 y2 x1 y1"
  have "u * (x2 - x1) * (x2 - x1) + u * (y2 - y1) * (y2 - y1) = u * (?L * ?L)"
    unfolding pdist_square by (simp add: algebra_simps)
  then have "(u * (x2 - x1) * (x2 - x1) + u * (y2 - y1) * (y2 - y1)) / (?L * ?L) = u" using True by simp
  then show ?thesis using assms True by (simp add: checkLine_def Let_def)
next
  case False
  then show ?thesis using pdist_pos by auto
qed

lemma price_y_line: "price_y s v (a + u * (b - a) + e) =
    price_y s v (a + e) + u * (price_y s v (b + e) - price_y s v (a + e))"
  by (simp add: price_y_def priceToY_def add_divide_distrib diff_divide_distrib algebra_simps)

section \<open>Properties\<close>

text \<open>
  C8. A dragged drawing follows the mouse: when a press takes hold of a drawing as a whole, then after any moves all four of
  its handles (a channel's second line included) are where they were plus the distance the mouse moved, and no
  other drawing has changed.
\<close>

theorem drag_moves_drawing_with_mouse:
  fixes m0 m :: mouse and s :: scene and now :: nat and ms :: "mouse list"
  assumes "scene_ok s" "distinct (map dw_id (br_drawings br))" "br_inProgress br = None" "br_drag br = None"
    and "br_drag (handleMouseDown s now m0 br) = Some ds" "ds_type ds = Move"
  defines "br' \<equiv> fold (handleMouseMove s) (ms @ [m]) (handleMouseDown s now m0 br)"
  shows "\<exists>pre d post d'. br_drawings br = pre @ d # post \<and> br_drawings br' = pre @ d' # post \<and>
           handles s (br_view br) d' =
             map (shift_handle (ms_x m - ms_x m0) (ms_y m - ms_y m0)) (handles s (br_view br) d)"
proof -
  let ?v = "br_view br"
  from press_starts_drag [OF assms(4,5)] obtain d where d: "d \<in> set (br_drawings br)" "drag_started ds m0 d"
    and same: "br_drawings (handleMouseDown s now m0 br) = br_drawings br"
      "br_inProgress (handleMouseDown s now m0 br) = None" "br_view (handleMouseDown s now m0 br) = ?v"
    using assms(3) by auto
  have br': "br_drawings br' = map (drag_drawing s ?v ds m) (br_drawings br)"
    using drag_moves [OF same(2) assms(5)] same by (simp add: br'_def)
  have "drag_drawing s ?v ds m e = e" if "dw_id e \<noteq> dw_id d" for e
    using that d(2) by (simp add: drag_drawing_def drag_started_def)
  from split_by_id [OF assms(2) d(1) this] obtain pre post where split:
    "br_drawings br = pre @ d # post" "br_drawings br' = pre @ drag_drawing s ?v ds m d # post"
    using br' by auto
  have "handles s ?v (drag_drawing s ?v ds m d) =
      map (shift_handle (ms_x m - ms_x m0) (ms_y m - ms_y m0)) (handles s ?v d)"
    using handles_shift [OF assms(1), where v = ?v and d = d and dx = "ms_x m - ms_x m0" and y' = "ms_y m" and y = "ms_y m0"] d(2) assms(6)
    by (simp add: drag_drawing_def move_drawing_def drag_started_def Let_def)
  then show ?thesis using split by blast
qed

text \<open>
  A dragged handle follows the mouse, and the opposite corner stays: after any moves the handle is at the height of the
  mouse and as far to the side as the mouse moved (a channel's second line only moves up and down), while the
  handle across (for a channel's second line, the first line) and all other drawings are unchanged.
\<close>

theorem dragged_handle_follows_mouse:
  fixes m0 m :: mouse and s :: scene and now k :: nat and ms :: "mouse list"
  assumes "scene_ok s" "distinct (map dw_id (br_drawings br))" "br_inProgress br = None" "br_drag br = None"
    and "br_drag (handleMouseDown s now m0 br) = Some ds" "ds_type ds = Handle k" "k \<in> {1, 2, 3, 4}"
  defines "br' \<equiv> fold (handleMouseMove s) (ms @ [m]) (handleMouseDown s now m0 br)"
  shows "\<exists>pre d post d'. br_drawings br = pre @ d # post \<and> br_drawings br' = pre @ d' # post \<and>
           (let h = handles s (br_view br) d; h' = handles s (br_view br) d'; second = dw_type d = Channel \<and> k \<ge> 3
            in h' ! (k - 1) = (fst (h ! (k - 1)) + (if second then 0 else ms_x m - ms_x m0), ms_y m, k) \<and>
               (if second then take 2 h' = take 2 h
                else h' ! ([2, 1, 4, 3] ! (k - 1) - 1) = h ! ([2, 1, 4, 3] ! (k - 1) - 1)))"
proof -
  let ?v = "br_view br"
  from press_starts_drag [OF assms(4,5)] obtain d where d: "d \<in> set (br_drawings br)" "drag_started ds m0 d"
    and same: "br_drawings (handleMouseDown s now m0 br) = br_drawings br"
      "br_inProgress (handleMouseDown s now m0 br) = None" "br_view (handleMouseDown s now m0 br) = ?v"
    using assms(3) by auto
  have br': "br_drawings br' = map (drag_drawing s ?v ds m) (br_drawings br)"
    using drag_moves [OF same(2) assms(5)] same by (simp add: br'_def)
  have "drag_drawing s ?v ds m e = e" if "dw_id e \<noteq> dw_id d" for e
    using that d(2) by (simp add: drag_drawing_def drag_started_def)
  from split_by_id [OF assms(2) d(1) this] obtain pre post where split:
    "br_drawings br = pre @ d # post" "br_drawings br' = pre @ drag_drawing s ?v ds m d # post"
    using br' by auto
  have dd: "drag_drawing s ?v ds m d = drag_handle s ?v ds k m d"
    using d(2) assms(6) by (simp add: drag_drawing_def drag_started_def)
  have init: "ds_initialX ds = ms_x m0" "ds_initialStartX ds = dw_startX d" "ds_initialEndX ds = dw_endX d"
    using d(2) by (simp_all add: drag_started_def)
  have sx: "screen_x ?v (dw_startX d + (ms_x m - ms_x m0)) = screen_x ?v (dw_startX d) + (ms_x m - ms_x m0)"
    "screen_x ?v (dw_endX d + (ms_x m - ms_x m0)) = screen_x ?v (dw_endX d) + (ms_x m - ms_x m0)"
    by (simp_all add: screen_x_add)
  show ?thesis
    by (rule exI [of _ pre], rule exI [of _ d], rule exI [of _ post], rule exI [of _ "drag_handle s ?v ds k m d"])
      (use split dd assms(7) init sx price_y_of_y [OF assms(1)] in
        \<open>auto simp: handles_def drag_handle_def Let_def offset_of_def\<close>)
qed

text \<open>
  C15. The life of a drawing: whatever the user does, drawings have distinct ids, the selected one and the one in progress are
  accounted for, a channel always has an offset and nothing else has one, and no drawing is left in its
  first stage.
\<close>

theorem drawings_stay_well_formed:
  assumes "(board_step s)\<^sup>*\<^sup>* x y" "board_inv (fst x) (snd x)"
  shows "board_inv (fst y) (snd y)"
  using assms by (induction rule: rtranclp_induct) (blast intro: board_step_inv)+

text \<open>
  The second line of a channel passes through the cursor: a press that completes a channel adds it with an offset that puts
  its second line, at the position of the press, at the price of the press.
\<close>

theorem channel_passes_through_press:
  assumes "br_tool br = Some t" "br_inProgress br = Some d" "dw_type d = Channel" "dw_stage d = Some 2"
    and "in_zone s ms" "ms_button ms = 0" "\<not> ms_control ms"
  shows "\<exists>d'. br_drawings (handleMouseDown s now ms br) = br_drawings br @ [d'] \<and>
           br_inProgress (handleMouseDown s now ms br) = None \<and>
           baselinePriceAtX d' (ms_x ms + v_visibleScrollLeft (br_view br)) + offset_of s d' =
             y_price s (br_view br) (ms_y ms) \<and>
           dw_startPrice d' = dw_startPrice d \<and> dw_endPrice d' = dw_endPrice d"
  using assms
  by (intro exI [of _ "last (br_drawings (handleMouseDown s now ms br))"])
    (simp add: handleMouseDown_def draw_down_def Let_def offset_of_def baselinePriceAtX_def)

text \<open>
  A trend line can be selected where there is none: a press on an invisible parallel, twenty price steps above the line,
  selects the line, because the hit test gives every line the default offset of a channel. The parallel is
  away from the line by the height of twenty price steps, however many pixels that is.
\<close>

theorem trend_line_has_phantom_parallel:
  fixes s :: scene and u :: number
  assumes "br_tool br = None" "br_selected br = None" "br_drawings br = [d]" "dw_type d \<in> {Trend, Arrow}"
    and "dw_offsetPrice d = None" "sc_priceStep s \<noteq> 0" "0 \<le> u" "u \<le> 1"
    and "ms_button ms = 0" "\<not> ms_control ms" "in_zone s ms"
    and "ms_x ms = screen_x (br_view br) (dw_startX d + u * (dw_endX d - dw_startX d))"
    and "ms_y ms = price_y s (br_view br)
           (dw_startPrice d + u * (dw_endPrice d - dw_startPrice d) + 20 * sc_priceStep s)"
  shows "br_selected (handleMouseDown s now ms br) = Some (dw_id d) \<and>
         price_y s (br_view br) (dw_startPrice d + u * (dw_endPrice d - dw_startPrice d)) - ms_y ms =
           20 * (chartHeight (sc_panels s) * sc_priceStep s /
             window_range (sc_bounds s) (v_verticalScale (br_view br)) (v_priceCenterOffset (br_view br)))"
proof
  let ?v = "br_view br" and ?o = "20 * sc_priceStep s"
  have off: "offset_of s d = ?o" using assms(5,6) by (simp add: offset_of_def or_else_def)
  have x: "ms_x ms = screen_x ?v (dw_startX d) + u * (screen_x ?v (dw_endX d) - screen_x ?v (dw_startX d))"
    using assms(12) by (simp add: screen_x_def)
  have y: "ms_y ms = price_y s ?v (dw_startPrice d + ?o) +
      u * (price_y s ?v (dw_endPrice d + ?o) - price_y s ?v (dw_startPrice d + ?o))"
    using assms(13) price_y_line by simp
  have "hits s ?v (ms_x ms) (ms_y ms) d"
    using point_on_line [OF assms(7,8), of "screen_x ?v (dw_startX d)" "screen_x ?v (dw_endX d)"
        "price_y s ?v (dw_startPrice d + ?o)" "price_y s ?v (dw_endPrice d + ?o)"] assms(4)
    unfolding hits_def Let_def off x y by auto
  then have "found_drawing s ms br = Some (dw_id d, None)"
    using assms(2,3) by (simp add: found_drawing_def Let_def)
  then show "br_selected (handleMouseDown s now ms br) = Some (dw_id d)"
    using assms(1,3,9-11) by (simp add: handleMouseDown_def select_down_def Let_def)
  show "price_y s ?v (dw_startPrice d + u * (dw_endPrice d - dw_startPrice d)) - ms_y ms =
      20 * (chartHeight (sc_panels s) * sc_priceStep s /
             window_range (sc_bounds s) (v_verticalScale ?v) (v_priceCenterOffset ?v))"
    unfolding assms(13) price_y_add by simp
qed

text \<open>
  A channel finished outside the plot leaves the chart panning: with the first line drawn, a press above the
  plot or left of it begins to pan, the release adds the channel and returns before it ends the panning, and every further move
  of the mouse, with no button held, pans the chart.
\<close>

theorem channel_finished_outside_keeps_panning:
  fixes now :: nat and answer :: "string option"
  assumes "br_tool br = Some t" "br_inProgress br = Some d" "dw_type d = Channel" "dw_stage d = Some 2" "br_drag br = None"
    and "\<not> in_zone s ms" "ms_y ms < totalSvgHeight (sc_panels s) - margin_bottom" "ms_button ms = 0" "\<not> ms_control ms"
  defines "br' \<equiv> handleMouseUpOrLeave answer (handleMouseDown s now ms br)"
  shows "br_drawings br' = br_drawings br @ [d] \<and> br_dragging br' \<and>
         br_view (handleMouseMove s m br') =
           pan_move (sc_bounds s) (chartHeight (sc_panels s)) (sc_count s)
             (pan_start (ms_pageX ms) (ms_pageY ms) (br_view br)) (ms_pageX m) (ms_pageY m) (br_view br)"
  using assms(1-9) unfolding br'_def
  by (simp add: handleMouseDown_def pan_down_def handleMouseUpOrLeave_def handleMouseMove_def Let_def)

text \<open>
  Drawings do not stay with their candles: after a change of the view the end of a drawing is over the same place in
  time if and only if the candles have kept their pitch, or the end lies exactly at the left margin.
\<close>

theorem drawing_drifts_on_zoom:
  assumes "view_ok v" "view_ok v'"
  shows "xToIndex v' (screen_x v' (dw_startX d)) = xToIndex v (screen_x v (dw_startX d)) \<longleftrightarrow>
         dw_startX d = margin_left \<or>
         v_candleWidth v' + spacing (v_candleWidth v') = v_candleWidth v + spacing (v_candleWidth v)"
proof -
  have pos: "0 < v_candleWidth v + spacing (v_candleWidth v)" "0 < v_candleWidth v' + spacing (v_candleWidth v')"
    using assms by (simp_all add: view_ok_def pitch_pos)
  have idx: "xToIndex u (screen_x u (dw_startX d)) =
      (dw_startX d - margin_left) / (v_candleWidth u + spacing (v_candleWidth u))" for u
    by (simp add: xToIndex_def screen_x_def)
  have "a / q = a / p \<longleftrightarrow> a = 0 \<or> q = p" if "0 < p" "0 < q" for a p q :: real
    using that by (auto simp: field_simps)
  from this [OF pos] show ?thesis unfolding idx by simp
qed

text \<open>The Delete key removes exactly the selected drawing; while a text field has the focus it does nothing.\<close>

theorem delete_removes_selected:
  "br_drawings (handleKeyDown typing ''Delete'' br) =
     (case br_selected br of
        Some i \<Rightarrow> if typing then br_drawings br else filter (\<lambda>d. dw_id d \<noteq> i) (br_drawings br)
      | None \<Rightarrow> br_drawings br)"
  by (simp add: handleKeyDown_def split: option.split)

section \<open>Concrete scene\<close>

text \<open>A plot of 290 pixels that shows the prices from 0 to 29.\<close>

definition scene0 :: scene where
  "scene0 =
     \<lparr>sc_bounds = \<lparr>bd_maxPriceRaw = 27, bd_minPriceRaw = 2, bd_priceRange = 25, bd_basePriceCenter = 29 / 2\<rparr>,
      sc_panels = \<lparr>pn_containerHeight = 360, pn_delta = False, pn_cvd = False, pn_deltaPanelHeight = 120,
                   pn_cvdPanelHeight = 120\<rparr>,
      sc_priceStep = 1 / 2, sc_count = 10\<rparr>"

definition view0 :: view where
  "view0 = \<lparr>v_candleWidth = 50, v_verticalScale = 1, v_priceCenterOffset = 0, v_scroll = 0, v_visibleScrollLeft = 0,
            v_clientWidth = 1000\<rparr>"

definition board0 :: "tool option \<Rightarrow> drawing list \<Rightarrow> drawing option \<Rightarrow> nat option \<Rightarrow> board" where
  "board0 t ds p sel =
     \<lparr>br_tool = t, br_drawings = ds, br_inProgress = p, br_selected = sel, br_drag = None, br_dragging = False,
      br_pan = \<lparr>dg_startX = 0, dg_startY = 0, dg_scrollLeft = 0, dg_startPriceOffset = 0\<rparr>, br_timeDrag = None,
      br_view = view0\<rparr>"

definition mouse_at :: "number \<Rightarrow> number \<Rightarrow> mouse" where
  "mouse_at x y =
     \<lparr>ms_button = 0, ms_control = False, ms_x = x, ms_y = y, ms_clientX = x, ms_pageX = x, ms_pageY = y\<rparr>"

definition trend0 :: drawing where
  "trend0 = \<lparr>dw_id = 1, dw_type = Trend, dw_startX = 100, dw_startPrice = 5, dw_endX = 300, dw_endPrice = 5,
             dw_stage = None, dw_offsetPrice = None, dw_text = []\<rparr>"

lemma scene0_height [simp]: "chartHeight (sc_panels scene0) = 290" "totalSvgHeight (sc_panels scene0) = 360"
  by (simp_all add: scene0_def chartHeight_def totalSvgHeight_def deltaHeightTotal_def cvdHeightTotal_def margin_defs)

lemma scene0_ok [simp]: "scene_ok scene0"
  by (simp add: scene_ok_def scene0_def)

lemma scene0_window: "window_range (sc_bounds scene0) 1 0 = 29" "minPrice (sc_bounds scene0) 1 0 = 0"
  by (simp_all add: window_range_eq zoomedPriceRange_def scene0_def minPrice_def priceCenter_def)

lemma scene0_price [simp]: "price_y scene0 view0 p = 320 - 10 * p" "y_price scene0 view0 y = 32 - y / 10"
  by (simp_all add: price_y_def y_price_def priceToY_def yToPrice_def view0_def scene0_window margin_defs field_simps)

lemma view0_simps [simp]: "screen_x view0 x = x" "v_visibleScrollLeft view0 = 0"
  by (simp_all add: screen_x_def view0_def)

lemmas concrete = board0_def mouse_at_def trend0_def in_zone_def margin_defs

lemma trend0_press:
  "br_drag (handleMouseDown scene0 2 (mouse_at 200 270) (board0 None [trend0] None None)) =
     Some \<lparr>ds_id = 1, ds_type = Move, ds_initialX = 200, ds_initialY = 270, ds_initialStartX = 100,
           ds_initialStartPrice = 5, ds_initialEndX = 300, ds_initialEndPrice = 5\<rparr>"
proof -
  have "checkLine 200 270 100 270 300 270"
    by (simp add: checkLine_def pdist_def)
  then have "hits scene0 view0 200 270 trend0" by (simp add: hits_def Let_def trend0_def)
  then show ?thesis
    by (simp add: handleMouseDown_def select_down_def found_drawing_def Let_def concrete)
qed

lemma trend0_press_handle:
  "br_drag (handleMouseDown scene0 2 (mouse_at 302 270) (board0 None [trend0] None (Some 1))) =
     Some \<lparr>ds_id = 1, ds_type = Handle 2, ds_initialX = 302, ds_initialY = 270, ds_initialStartX = 100,
           ds_initialStartPrice = 5, ds_initialEndX = 300, ds_initialEndPrice = 5\<rparr>"
proof -
  have "clicked_handle scene0 view0 302 270 trend0 = Some 2"
    by (simp add: clicked_handle_def handles_def Let_def trend0_def pdist_def real_sqrt_abs2 [simplified])
  then show ?thesis
    by (simp add: handleMouseDown_def select_down_def found_drawing_def Let_def concrete)
qed

section \<open>Witnesses\<close>

lemma board0_simps [simp]:
  "br_drawings (board0 t ds p sel) = ds" "br_inProgress (board0 t ds p sel) = p" "br_drag (board0 t ds p sel) = None"
  "br_view (board0 t ds p sel) = view0" "br_tool (board0 t ds p sel) = t" "br_selected (board0 t ds p sel) = sel"
  by (simp_all add: board0_def)

lemma mouse_at_simps [simp]:
  "ms_x (mouse_at x y) = x" "ms_y (mouse_at x y) = y" "ms_button (mouse_at x y) = 0" "\<not> ms_control (mouse_at x y)"
  by (simp_all add: mouse_at_def)

theorem drag_moves_drawing_with_mouse_witness:
  "\<exists>pre d post d'. [trend0] = pre @ d # post \<and>
     br_drawings (fold (handleMouseMove scene0) ([mouse_at 205 200] @ [mouse_at 230 250])
       (handleMouseDown scene0 2 (mouse_at 200 270) (board0 None [trend0] None None))) = pre @ d' # post \<and>
     handles scene0 view0 d' = map (shift_handle 30 (- 20)) (handles scene0 view0 d)"
  using drag_moves_drawing_with_mouse [OF scene0_ok _ _ _ trend0_press, of "[mouse_at 205 200]" "mouse_at 230 250"]
  by simp

theorem dragged_handle_follows_mouse_witness:
  "\<exists>pre d post d'. [trend0] = pre @ d # post \<and>
     br_drawings (fold (handleMouseMove scene0) ([mouse_at 305 200] @ [mouse_at 330 250])
       (handleMouseDown scene0 2 (mouse_at 302 270) (board0 None [trend0] None (Some 1)))) = pre @ d' # post \<and>
     (let h = handles scene0 view0 d; h' = handles scene0 view0 d'; second = dw_type d = Channel \<and> 2 \<ge> (3::nat)
      in h' ! 1 = (fst (h ! 1) + (if second then 0 else 28), 250, 2) \<and>
         (if second then take 2 h' = take 2 h else h' ! ([2, 1, 4, 3] ! 1 - 1) = h ! ([2, 1, 4, 3] ! 1 - 1)))"
  using dragged_handle_follows_mouse [OF scene0_ok _ _ _ trend0_press_handle, where k = 2 and
      ms = "[mouse_at 305 200]" and m = "mouse_at 330 250"]
  by (simp add: numeral_2_eq_2 [symmetric])

theorem drawings_stay_well_formed_witness:
  "board_inv 3 (handleMouseDown scene0 2 (mouse_at 400 100) (board0 (Some Horizontal) [trend0] None None))"
proof -
  have "(board_step scene0)\<^sup>*\<^sup>* (2, board0 (Some Horizontal) [trend0] None None)
      (Suc 2, handleMouseDown scene0 2 (mouse_at 400 100) (board0 (Some Horizontal) [trend0] None None))"
    by (rule r_into_rtranclp) (rule board_step.down)
  moreover have "board_inv 2 (board0 (Some Horizontal) [trend0] None None)"
    by (simp add: board_inv_def finished_def trend0_def)
  ultimately show ?thesis using drawings_stay_well_formed by fastforce
qed

theorem channel_passes_through_press_witness:
  "\<exists>d'. br_drawings (handleMouseDown scene0 2 (mouse_at 200 100)
           (board0 (Some Channel) [] (Some (trend0\<lparr>dw_type := Channel, dw_stage := Some 2\<rparr>)) None)) = [d'] \<and>
     baselinePriceAtX d' 200 + offset_of scene0 d' = 22"
  using channel_passes_through_press [of "board0 (Some Channel) []
      (Some (trend0\<lparr>dw_type := Channel, dw_stage := Some 2\<rparr>)) None" Channel
      "trend0\<lparr>dw_type := Channel, dw_stage := Some 2\<rparr>" scene0 "mouse_at 200 100" 2]
  by (auto simp: in_zone_def margin_defs)

theorem trend_line_has_phantom_parallel_witness:
  "br_selected (handleMouseDown scene0 2 (mouse_at 200 170) (board0 None [trend0] None None)) = Some 1 \<and>
   price_y scene0 view0 5 - 170 = 100"
proof -
  have "sc_priceStep scene0 = 1 / 2" by (simp add: scene0_def)
  then show ?thesis
    using trend_line_has_phantom_parallel [of "board0 None [trend0] None None" trend0 scene0 "1 / 2" "mouse_at 200 170" 2]
    by (simp add: in_zone_def margin_defs trend0_def)
qed

theorem channel_finished_outside_keeps_panning_witness:
  "br_dragging (handleMouseUpOrLeave None (handleMouseDown scene0 2 (mouse_at 200 10)
     (board0 (Some Channel) [] (Some (trend0\<lparr>dw_type := Channel, dw_stage := Some 2\<rparr>)) None)))"
  using channel_finished_outside_keeps_panning [of "board0 (Some Channel) []
      (Some (trend0\<lparr>dw_type := Channel, dw_stage := Some 2\<rparr>)) None" Channel
      "trend0\<lparr>dw_type := Channel, dw_stage := Some 2\<rparr>" scene0 "mouse_at 200 10" None 2]
  by (simp add: in_zone_def margin_defs)

theorem drawing_drifts_on_zoom_witness:
  "xToIndex (handleZoom Clusters 10 view0) (screen_x (handleZoom Clusters 10 view0) 100) \<noteq> xToIndex view0 (screen_x view0 100)"
proof -
  have "view_ok view0" "view_ok (handleZoom Clusters 10 view0)" by (simp_all add: view_ok_def view0_def handleZoom_def minW_def)
  from drawing_drifts_on_zoom [OF this, of trend0] show ?thesis
    by (simp add: trend0_def margin_defs handleZoom_def minW_def view0_def spacing_def)
qed

end
