(* ===== verification/Profiles.thy ===== *)
theory Profiles
  imports Drawing
begin

text \<open>
  The volume profiles and the scales of the sub-panels (\<open>frontend-chart/src/components/ClusterChart.tsx\<close>,
  \<open>indicators/cvd.ts\<close>, \<open>delta.ts\<close>, \<open>volumeOnChart.ts\<close>, \<open>stackedImbalance.ts\<close>): the session profile in both its
  copies, the profile of a price and time range with its point of control and value area, the maxima the footprint
  is scaled with, and the cumulative delta with its panel.

  A candle always has its array of cells (\<open>types.ts\<close>), so the branch of the range profile for candles
  without one is not reached.
\<close>

section \<open>Session profile\<close>

definition add_volume :: "int \<Rightarrow> number \<Rightarrow> number list \<Rightarrow> number list" where
  "add_volume i vol bs = (if 0 \<le> i \<and> i < int (length bs) then bs[nat i := bs ! nat i + vol] else bs)"

definition bucketSize :: "number \<Rightarrow> number \<Rightarrow> number" where
  "bucketSize mn mx = or_else ((mx - mn) / 20) 1"

definition session_volumes :: "number \<Rightarrow> number \<Rightarrow> candle list \<Rightarrow> number list" where
  "session_volumes mn mx candles =
     fold (\<lambda>c. fold (\<lambda>cl. add_volume \<lfloor>(cell_price cl - mn) / bucketSize mn mx\<rfloor> (cell_volume cl)) (c_cells c))
       candles (replicate 20 0)"

definition bucket_prices :: "number \<Rightarrow> number \<Rightarrow> number list" where
  "bucket_prices mn mx = map (\<lambda>i. mn + real i * bucketSize mn mx + bucketSize mn mx / 2) [0 ..< 20]"

definition generateSessionProfile ::
  "number \<Rightarrow> number \<Rightarrow> candle list \<Rightarrow> (number \<times> number) list \<times> number \<times> number" where
  "generateSessionProfile mn mx candles =
     (let vols = session_volumes mn mx candles
      in (zip (bucket_prices mn mx) vols, Max (set (vols @ [1])), bucketSize mn mx))"

text \<open>The memoized copy finds the maximum with a loop that starts at 1.\<close>

definition profileBuckets ::
  "number \<Rightarrow> number \<Rightarrow> candle list \<Rightarrow> (number \<times> number) list \<times> number \<times> number" where
  "profileBuckets mn mx candles =
     (let vols = session_volumes mn mx candles
      in (zip (bucket_prices mn mx) vols, scan_max id 1 vols, bucketSize mn mx))"

section \<open>Maxima\<close>

definition maxCellVolume :: "candle list \<Rightarrow> number" where
  "maxCellVolume candles = foldl (\<lambda>m c. scan_max cell_volume m (c_cells c)) 1 candles"

definition maxCandleDelta :: "candle list \<Rightarrow> number" where
  "maxCandleDelta candles = scan_max (\<lambda>c. \<bar>c_delta c\<bar>) 1 candles"

definition zoomedMaxCandleDelta :: "number \<Rightarrow> candle list \<Rightarrow> number" where
  "zoomedMaxCandleDelta deltaScale candles = maxCandleDelta candles / max (1 / 100) deltaScale"

definition maxCellDelta :: "candle list \<Rightarrow> number" where
  "maxCellDelta candles = foldl (\<lambda>m c. scan_max (\<lambda>cl. \<bar>cell_ask cl - cell_bid cl\<bar>) m (c_cells c)) 1 candles"

definition visibleMaxSingleVol :: "candle list \<Rightarrow> number" where
  "visibleMaxSingleVol candles =
     foldl (\<lambda>m c. foldl (\<lambda>m cl. let m1 = (if cell_bid cl > m then cell_bid cl else m)
                                in if cell_ask cl > m1 then cell_ask cl else m1) m (c_cells c)) 1 candles"

section \<open>Cumulative delta\<close>

fun cvd_from :: "number \<Rightarrow> candle list \<Rightarrow> (number \<times> number) list" where
  "cvd_from runningSum [] = []"
| "cvd_from runningSum (c # cs) =
     (runningSum + c_delta c, c_timestamp c) # cvd_from (runningSum + c_delta c) cs"

definition calculateCVD :: "candle list \<Rightarrow> (number \<times> number) list" where
  "calculateCVD candles = cvd_from 0 candles"

definition cumulativeDeltaPoints :: "view \<Rightarrow> candle list \<Rightarrow> (number \<times> number) list" where
  "cumulativeDeltaPoints v candles =
     map (\<lambda>(i, item). (margin_left + real i * (v_candleWidth v + spacing (v_candleWidth v)) + v_candleWidth v / 2, fst item))
       (enumerate 0 (calculateCVD candles))"

text \<open>The indices of the visible points; the two scans start with infinities, which is \<open>None\<close>.\<close>

definition cvd_visible :: "view \<Rightarrow> (number \<times> number) list \<Rightarrow> (number \<times> number) list" where
  "cvd_visible v pts =
     (let w = v_candleWidth v; pitch = w + spacing w; viewportWidth = or_else (v_clientWidth v) 800;
          startIdx = max 0 \<lfloor>(v_visibleScrollLeft v - margin_left - w) / pitch\<rfloor>;
          endIdx = min (int (length pts) - 1) \<lceil>(v_visibleScrollLeft v + viewportWidth - margin_left) / pitch\<rceil>
      in map (\<lambda>i. pts ! nat i) [startIdx .. endIdx])"

definition scan_range :: "(number \<times> number) list \<Rightarrow> (number \<times> number) option" where
  "scan_range pts =
     foldl (\<lambda>r p. let val = snd p in
              case r of None \<Rightarrow> Some (val, val)
              | Some (mn, mx) \<Rightarrow> Some (if val < mn then val else mn, if val > mx then val else mx)) None pts"

text \<open>\<open>(minCumDeltaVal, maxCumDeltaVal, cvdDeltaRange)\<close>\<close>

definition cvd_range :: "view \<Rightarrow> (number \<times> number) list \<Rightarrow> number \<times> number \<times> number" where
  "cvd_range v pts =
     (if pts = [] then (0, 1, 1)
      else case scan_range (cvd_visible v pts) of
             Some (mn, mx) \<Rightarrow> (mn, mx, max 1 (mx - mn))
           | None \<Rightarrow> (case scan_range pts of
                         Some (mn, mx) \<Rightarrow> (mn, mx, max 1 (mx - mn)) | None \<Rightarrow> (0, 1, 1)))"

definition zoomedCvdDeltaRange :: "number \<Rightarrow> number \<times> number \<times> number \<Rightarrow> number" where
  "zoomedCvdDeltaRange cvdScale r = snd (snd r) / max (1 / 100) cvdScale"

definition zoomedCvdMin :: "number \<Rightarrow> number \<times> number \<times> number \<Rightarrow> number" where
  "zoomedCvdMin cvdScale r = (fst (snd r) + fst r) / 2 - zoomedCvdDeltaRange cvdScale r * (1 / 2)"

definition getCvdY :: "number \<Rightarrow> number \<times> number \<times> number \<Rightarrow> number \<Rightarrow> number \<Rightarrow> number" where
  "getCvdY cvdScale r val panelH =
     panelH - ((val - zoomedCvdMin cvdScale r) / zoomedCvdDeltaRange cvdScale r) * (panelH * (8 / 10)) - panelH * (1 / 10)"

section \<open>Indicator modules\<close>

datatype tone = Up | Down | Flat

definition getDeltaStyle :: "number \<Rightarrow> tone" where
  "getDeltaStyle delta = (if delta \<ge> 0 then Up else Down)"

definition volume_getStyles :: "number \<Rightarrow> number \<Rightarrow> tone" where
  "volume_getStyles candleDelta deltaThreshold =
     (if candleDelta > deltaThreshold then Up else if candleDelta < - deltaThreshold then Down else Flat)"

definition calculateBarHeight :: "number \<Rightarrow> number \<Rightarrow> number \<Rightarrow> number \<Rightarrow> number" where
  "calculateBarHeight candleVolume maxVisibleVolume ch maxHeightPercent =
     (if maxVisibleVolume > 0
      then (candleVolume / maxVisibleVolume) * (ch * (maxHeightPercent / 100)) else 0)"

definition isImbalance :: "number \<Rightarrow> number \<Rightarrow> number \<Rightarrow> bool" where
  "isImbalance primaryVolume comparativeVolume ratio \<longleftrightarrow> primaryVolume > comparativeVolume * ratio \<and> primaryVolume > 0"

section \<open>Profile of a range\<close>

text \<open>The loop that grows the value area from the point of control.\<close>

function va_grow :: "number list \<Rightarrow> number \<Rightarrow> nat \<Rightarrow> nat \<Rightarrow> number \<Rightarrow> nat \<times> nat \<times> number" where
  "va_grow bins target lowIdx highIdx vaVolume =
     (if vaVolume < target \<and> (lowIdx > 0 \<or> highIdx < length bins - 1)
      then
        let addLowVol = (if lowIdx > 0 then bins ! (lowIdx - 1) else 0);
            addHighVol = (if highIdx < length bins - 1 then bins ! (highIdx + 1) else 0)
        in if addLowVol \<ge> addHighVol \<and> lowIdx > 0
           then va_grow bins target (lowIdx - 1) highIdx (vaVolume + addLowVol)
           else if highIdx < length bins - 1
           then va_grow bins target lowIdx (highIdx + 1) (vaVolume + addHighVol)
           else if lowIdx > 0
           then va_grow bins target (lowIdx - 1) highIdx (vaVolume + addLowVol)
           else (lowIdx, highIdx, vaVolume)
      else (lowIdx, highIdx, vaVolume))"
  by pat_completeness auto

termination
  by (relation "measure (\<lambda>(bins, target, lowIdx, highIdx, vaVolume). lowIdx + (length bins - 1 - highIdx))") auto

declare va_grow.simps [simp del]

text \<open>The scan for the largest bin: its volume and index.\<close>

definition poc_bin :: "number list \<Rightarrow> number \<times> nat" where
  "poc_bin bins = foldl (\<lambda>(m, p) b. if bins ! b > m then (bins ! b, b) else (m, p)) (0, 0) [0 ..< length bins]"

record range_profile =
  rp_bins :: "number list"
  rp_total :: number
  rp_poc :: nat
  rp_low :: nat
  rp_high :: nat

definition profile_of_bins :: "number list \<Rightarrow> range_profile" where
  "profile_of_bins bins =
     (let totalVolume = sum_by id bins; (maxBinVal, pocIdx) = poc_bin bins;
          (lowIdx, highIdx, vaVolume) =
            (if totalVolume > 0 \<and> maxBinVal > 0
             then va_grow bins (totalVolume * (7 / 10)) pocIdx pocIdx (bins ! pocIdx)
             else (pocIdx, pocIdx, bins ! pocIdx))
      in \<lparr>rp_bins = bins, rp_total = totalVolume, rp_poc = pocIdx, rp_low = lowIdx, rp_high = highIdx\<rparr>)"

definition range_columns :: "view \<Rightarrow> drawing \<Rightarrow> nat \<Rightarrow> int \<times> int" where
  "range_columns v d n =
     (let minX = min (dw_startX d) (dw_endX d); maxX = max (dw_startX d) (dw_endX d);
          pitch = v_candleWidth v + spacing (v_candleWidth v)
      in (max 0 \<lfloor>(minX - margin_left) / pitch\<rfloor>, min (int n - 1) \<lfloor>(maxX - margin_left) / pitch\<rfloor>))"

definition bucketCount :: "scene \<Rightarrow> drawing \<Rightarrow> nat" where
  "bucketCount s d =
     (let priceDiff = max (dw_startPrice d) (dw_endPrice d) - min (dw_startPrice d) (dw_endPrice d)
      in nat (max 1 \<lfloor>priceDiff / or_else (sc_priceStep s) 1 + 1 / 2\<rfloor>))"

definition in_range :: "scene \<Rightarrow> view \<Rightarrow> drawing \<Rightarrow> number \<Rightarrow> bool" where
  "in_range s v d price =
     (let y1 = price_y s v (dw_startPrice d); y2 = price_y s v (dw_endPrice d); cellY = price_y s v price
      in cellY \<ge> min y1 y2 \<and> cellY \<le> max y1 y2)"

definition bin_of :: "scene \<Rightarrow> drawing \<Rightarrow> number \<Rightarrow> int" where
  "bin_of s d price =
     min (int (bucketCount s d) - 1)
       (max 0 \<lfloor>(max (dw_startPrice d) (dw_endPrice d) - price) / or_else (sc_priceStep s) 1\<rfloor>)"

definition profileBins :: "scene \<Rightarrow> view \<Rightarrow> drawing \<Rightarrow> candle list \<Rightarrow> number list" where
  "profileBins s v d cs =
     fold (\<lambda>c. fold (\<lambda>cl bs. if in_range s v d (cell_price cl)
                            then add_volume (bin_of s d (cell_price cl)) (cell_volume cl) bs else bs) (c_cells c))
       cs (replicate (bucketCount s d) 0)"

definition range_candles :: "view \<Rightarrow> drawing \<Rightarrow> candle list \<Rightarrow> candle list" where
  "range_candles v d candles =
     (let (startIndex, endIndex) = range_columns v d (length candles)
      in map (\<lambda>i. candles ! nat i) [startIndex .. endIndex])"

definition rangeProfile :: "scene \<Rightarrow> view \<Rightarrow> drawing \<Rightarrow> candle list \<Rightarrow> range_profile option" where
  "rangeProfile s v d candles =
     (let (startIndex, endIndex) = range_columns v d (length candles)
      in if startIndex \<le> endIndex
         then Some (profile_of_bins (profileBins s v d (range_candles v d candles))) else None)"

section \<open>Lemmas on the value area\<close>

definition segment :: "number list \<Rightarrow> nat \<Rightarrow> nat \<Rightarrow> number" where
  "segment bins l h = (\<Sum>i = l..h. bins ! i)"

lemma segment_low: "0 < l \<Longrightarrow> l \<le> h \<Longrightarrow> segment bins (l - 1) h = bins ! (l - 1) + segment bins l h"
  using sum.atLeast_Suc_atMost [of "l - 1" h "\<lambda>i. bins ! i"] by (simp add: segment_def)

lemma segment_high: "l \<le> h \<Longrightarrow> segment bins l (Suc h) = segment bins l h + bins ! Suc h"
  by (simp add: segment_def)

lemma segment_all: "bins \<noteq> [] \<Longrightarrow> segment bins 0 (length bins - 1) = sum_list bins"
  by (simp add: segment_def sum_list_sum_nth) (metis Suc_pred atLeastLessThanSuc_atLeastAtMost length_greater_0_conv)

definition va_ok :: "number list \<Rightarrow> number \<Rightarrow> nat \<Rightarrow> nat \<Rightarrow> nat \<times> nat \<times> number \<Rightarrow> bool" where
  "va_ok bins t lo hi r \<longleftrightarrow>
     (case r of (l, h, va) \<Rightarrow>
        l \<le> lo \<and> hi \<le> h \<and> h < length bins \<and> va = segment bins l h \<and>
        (t \<le> va \<or> l = 0 \<and> h = length bins - 1) \<and>
        (l = lo \<and> h = hi \<or> l < lo \<and> va - bins ! l < t \<or> hi < h \<and> va - bins ! h < t))"

lemma va_ok_stop:
  "lo \<le> hi \<Longrightarrow> hi < length bins \<Longrightarrow> t \<le> segment bins lo hi \<or> lo = 0 \<and> hi = length bins - 1 \<Longrightarrow>
   va_ok bins t lo hi (lo, hi, segment bins lo hi)"
  by (auto simp: va_ok_def)

lemma va_ok_low:
  assumes "va_ok bins t (lo - 1) hi r" "0 < lo" "lo \<le> hi" "segment bins lo hi < t"
  shows "va_ok bins t lo hi r"
  using assms segment_low [of lo hi bins] by (cases r) (auto simp: va_ok_def)

lemma va_ok_high:
  assumes "va_ok bins t lo (Suc hi) r" "lo \<le> hi" "segment bins lo hi < t"
  shows "va_ok bins t lo hi r"
  using assms segment_high [of lo hi bins] by (cases r) (auto simp: va_ok_def)

lemma va_grow_ok:
  "lo \<le> hi \<Longrightarrow> hi < length bins \<Longrightarrow> va = segment bins lo hi \<Longrightarrow> va_ok bins t lo hi (va_grow bins t lo hi va)"
proof (induction bins t lo hi va rule: va_grow.induct)
  case (1 bins t lo hi va)
  note prems = "1.prems"
  show ?case
  proof (cases "va < t \<and> (lo > 0 \<or> hi < length bins - 1)")
    case False
    then have "va_grow bins t lo hi va = (lo, hi, va)" by (subst va_grow.simps) simp
    moreover have "t \<le> va \<or> lo = 0 \<and> hi = length bins - 1" using False prems by auto
    ultimately show ?thesis using va_ok_stop prems by simp
  next
    case grow: True
    let ?a = "if lo > 0 then bins ! (lo - 1) else 0" and ?b = "if hi < length bins - 1 then bins ! (hi + 1) else 0"
    have lt: "segment bins lo hi < t" using grow prems by simp
    have high: "va_ok bins t lo hi (va_grow bins t lo (hi + 1) (va + ?b))"
      if "\<not> (?a \<ge> ?b \<and> lo > 0)" "hi < length bins - 1"
    proof -
      have "va_ok bins t lo (hi + 1) (va_grow bins t lo (hi + 1) (va + ?b))"
        by (rule "1.IH"(2)) (use grow that prems segment_high in auto)
      then show ?thesis using va_ok_high prems lt by simp
    qed
    show ?thesis
    proof (cases "?a \<ge> ?b \<and> lo > 0")
      case True
      have "va_ok bins t (lo - 1) hi (va_grow bins t (lo - 1) hi (va + ?a))"
        by (rule "1.IH"(1)) (use grow True prems segment_low in auto)
      then have "va_ok bins t lo hi (va_grow bins t (lo - 1) hi (va + ?a))" using va_ok_low True prems lt by blast
      then show ?thesis by (subst va_grow.simps) (use grow True in \<open>auto simp: Let_def\<close>)
    next
      case nl: False
      show ?thesis
      proof (cases "hi < length bins - 1")
        case True
        then show ?thesis using high [OF nl] by (subst va_grow.simps) (use grow nl in \<open>auto simp: Let_def\<close>)
      next
        case False
        with grow have lo: "lo > 0" by blast
        have "va_ok bins t (lo - 1) hi (va_grow bins t (lo - 1) hi (va + ?a))"
          by (rule "1.IH"(3)) (use grow nl False lo prems segment_low in auto)
        then have "va_ok bins t lo hi (va_grow bins t (lo - 1) hi (va + ?a))" using va_ok_low lo prems lt by blast
        then show ?thesis by (subst va_grow.simps) (use grow nl False lo in \<open>auto simp: Let_def\<close>)
      qed
    qed
  qed
qed

lemma poc_bin_ok:
  assumes "poc_bin bins = (m, p)"
  shows "(\<forall>b \<in> set bins. b \<le> m) \<and> 0 \<le> m \<and> (0 < m \<longrightarrow> p < length bins \<and> bins ! p = m) \<and> (m = 0 \<longrightarrow> p = 0)"
proof -
  let ?f = "\<lambda>(m, p) b. if bins ! b > m then (bins ! b, b) else (m, p)"
  have "\<And>k m p. foldl ?f (0, 0) [0 ..< k] = (m, p) \<Longrightarrow>
      (\<forall>b < k. bins ! b \<le> m) \<and> 0 \<le> m \<and> (0 < m \<longrightarrow> p < k \<and> bins ! p = m) \<and> (m = 0 \<longrightarrow> p = 0)"
  proof -
    fix k :: nat
    show "\<And>m p. foldl ?f (0, 0) [0 ..< k] = (m, p) \<Longrightarrow>
      (\<forall>b < k. bins ! b \<le> m) \<and> 0 \<le> m \<and> (0 < m \<longrightarrow> p < k \<and> bins ! p = m) \<and> (m = 0 \<longrightarrow> p = 0)"
    proof (induction k)
      case (Suc k)
      obtain m' p' where mp: "foldl ?f (0, 0) [0 ..< k] = (m', p')" by fastforce
      note IH = Suc.IH [OF this]
      have "(m, p) = (if bins ! k > m' then (bins ! k, k) else (m', p'))" using Suc.prems mp by simp
      then show ?case using IH by (auto simp: less_Suc_eq split: if_splits)
    qed simp
  qed
  from this [of "length bins" m p] assms show ?thesis by (auto simp: poc_bin_def in_set_conv_nth)
qed

section \<open>Lemmas on bins\<close>

lemma length_add_volume [simp]: "length (add_volume i vol bs) = length bs"
  by (simp add: add_volume_def)

lemma sum_list_add_at: "k < length bs \<Longrightarrow> sum_list (bs[k := bs ! k + v]) = sum_list bs + v" for v :: real
proof -
  assume k: "k < length bs"
  have "sum_list bs = sum_list (take k bs @ bs ! k # drop (Suc k) bs)" using id_take_nth_drop [OF k] by simp
  then show ?thesis by (simp add: upd_conv_take_nth_drop [OF k])
qed

lemma sum_add_volume:
  "sum_list (add_volume i vol bs) = sum_list bs + (if 0 \<le> i \<and> i < int (length bs) then vol else 0)"
proof (cases "0 \<le> i \<and> i < int (length bs)")
  case True
  then have "nat i < length bs" by linarith
  then show ?thesis using True by (simp add: add_volume_def sum_list_add_at)
qed (auto simp: add_volume_def)

text \<open>A fold that adds the volume of each element to some bin, or drops it.\<close>

lemma fold_bins:
  fixes h :: "'a \<Rightarrow> number"
  assumes "\<And>x bs. length (g x bs) = length bs" "\<And>x bs. length bs = n \<Longrightarrow> sum_list (g x bs) = sum_list bs + h x"
    and "length bs0 = n"
  shows "length (fold g xs bs0) = n \<and> sum_list (fold g xs bs0) = sum_list bs0 + sum_list (map h xs)"
  using assms(3)
proof (induction xs arbitrary: bs0)
  case (Cons x xs)
  then show ?case using assms(1) assms(2) [OF Cons.prems] by simp
qed simp

lemma sum_list_zeros [simp]: "sum_list (replicate n (0::real)) = 0"
  by (induction n) auto

lemma sum_list_if: "sum_list (map (\<lambda>x. if P x then f x else (0::real)) xs) = sum_list (map f (filter P xs))"
  by (induction xs) auto

lemma scan_max_Max: "scan_max id m xs = Max (set (xs @ [m]))"
  using scan_max_ge [of _ xs id m] scan_max_ge_init [of m id xs] scan_max_mem [of id m xs]
  by (intro Max_eqI [symmetric]) auto

lemma floor_in_bucket:
  assumes "0 < st"
  shows "0 \<le> \<lfloor>(p - mn) / st\<rfloor> \<and> \<lfloor>(p - mn) / st\<rfloor> < int n \<longleftrightarrow> mn \<le> p \<and> p < mn + real n * st"
proof -
  have "0 \<le> (p - mn) / st \<longleftrightarrow> mn \<le> p" using assms by (simp add: zero_le_divide_iff)
  moreover have "(p - mn) / st < real n \<longleftrightarrow> p < mn + real n * st"
    using assms by (simp add: pos_divide_less_eq algebra_simps)
  moreover have "\<lfloor>(p - mn) / st\<rfloor> < int n \<longleftrightarrow> (p - mn) / st < real n" by (simp add: floor_less_iff)
  ultimately show ?thesis by simp
qed

section \<open>Properties\<close>

text \<open>The two copies of the session profile agree.\<close>

theorem session_profiles_agree: "profileBuckets mn mx candles = generateSessionProfile mn mx candles"
  by (simp add: profileBuckets_def generateSessionProfile_def Let_def scan_max_Max)

text \<open>
  The session profile holds the volume of the window and no other: its twenty buckets together hold the volume of exactly those
  cells whose price lies in the window.
\<close>

theorem session_profile_keeps_volume:
  assumes "mn < mx"
  shows "length (fst (generateSessionProfile mn mx candles)) = 20 \<and>
         sum_list (map snd (fst (generateSessionProfile mn mx candles))) =
         sum_list (map cell_volume (filter (\<lambda>cl. mn \<le> cell_price cl \<and> cell_price cl < mx) (concat (map c_cells candles))))"
proof -
  have st: "bucketSize mn mx = (mx - mn) / 20" "0 < bucketSize mn mx" using assms by (simp_all add: bucketSize_def or_else_def)
  let ?in = "\<lambda>cl. mn \<le> cell_price cl \<and> cell_price cl < mx"
  let ?g = "\<lambda>cl. add_volume \<lfloor>(cell_price cl - mn) / bucketSize mn mx\<rfloor> (cell_volume cl)"
  have g: "sum_list (?g cl bs) = sum_list bs + (if ?in cl then cell_volume cl else 0)" if "length bs = 20" for cl bs
  proof -
    have "mn + real 20 * bucketSize mn mx = mx" by (simp add: st(1) field_simps)
    then show ?thesis using floor_in_bucket [OF st(2), of "cell_price cl" mn 20] that by (simp add: sum_add_volume)
  qed
  have inner: "length (fold ?g cls bs) = 20 \<and> sum_list (fold ?g cls bs) =
      sum_list bs + sum_list (map (\<lambda>cl. if ?in cl then cell_volume cl else 0) cls)" if "length bs = 20" for cls bs
    by (rule fold_bins) (simp_all add: g that)
  have "length (fold (\<lambda>c. fold ?g (c_cells c)) cs bs) = 20 \<and> sum_list (fold (\<lambda>c. fold ?g (c_cells c)) cs bs) =
      sum_list bs + sum_list (map (\<lambda>cl. if ?in cl then cell_volume cl else 0) (concat (map c_cells cs)))"
    if "length bs = 20" for cs bs
    using that by (induction cs arbitrary: bs) (simp_all add: inner)
  from this [of "replicate 20 0" candles]
  have "length (session_volumes mn mx candles) = 20" "sum_list (session_volumes mn mx candles) =
      sum_list (map cell_volume (filter ?in (concat (map c_cells candles))))"
    by (simp_all add: session_volumes_def sum_list_if)
  moreover have "length (bucket_prices mn mx) = 20" by (simp add: bucket_prices_def)
  ultimately show ?thesis by (simp add: generateSessionProfile_def Let_def map_snd_zip)
qed

lemma price_y_mono:
  assumes "scene_ok s"
  shows "price_y s v p \<le> price_y s v q \<longleftrightarrow> q \<le> p"
proof -
  let ?r = "chartHeight (sc_panels s) / window_range (sc_bounds s) (v_verticalScale v) (v_priceCenterOffset v)"
  have r: "0 < ?r"
    using assms chartHeight_ge [of "sc_panels s"] window_range_pos by (simp add: scene_ok_def divide_pos_pos)
  have "price_y s v p = price_y s v q - ?r * (p - q)" using price_y_add [of s v q "p - q"] by simp
  then have "price_y s v p \<le> price_y s v q \<longleftrightarrow> 0 \<le> ?r * (p - q)" by linarith
  also have "\<dots> \<longleftrightarrow> 0 \<le> p - q" using r by (simp only: zero_le_mult_iff) auto
  finally show ?thesis by simp
qed

lemma in_range_prices:
  assumes "scene_ok s"
  shows "in_range s v d p \<longleftrightarrow>
     min (dw_startPrice d) (dw_endPrice d) \<le> p \<and> p \<le> max (dw_startPrice d) (dw_endPrice d)"
  using price_y_mono [OF assms, of v p "dw_startPrice d"] price_y_mono [OF assms, of v p "dw_endPrice d"]
    price_y_mono [OF assms, of v "dw_startPrice d" p] price_y_mono [OF assms, of v "dw_endPrice d" p]
  by (auto simp: in_range_def Let_def min_le_iff_disj le_max_iff_disj)

lemma bucketCount_pos: "0 < bucketCount s d"
  by (simp add: bucketCount_def Let_def less_max_iff_disj)

lemma bin_of_range: "0 \<le> bin_of s d p \<and> bin_of s d p < int (bucketCount s d)"
  using bucketCount_pos [of s d] by (auto simp: bin_of_def)

lemma profileBins_sum:
  "length (profileBins s v d cs) = bucketCount s d \<and>
   sum_list (profileBins s v d cs) =
   sum_list (map cell_volume (filter (\<lambda>cl. in_range s v d (cell_price cl)) (concat (map c_cells cs))))"
proof -
  let ?n = "bucketCount s d" and ?in = "\<lambda>cl. in_range s v d (cell_price cl)"
  let ?g = "\<lambda>cl bs. if ?in cl then add_volume (bin_of s d (cell_price cl)) (cell_volume cl) bs else bs"
  have inner: "length (fold ?g cls bs) = ?n \<and> sum_list (fold ?g cls bs) =
      sum_list bs + sum_list (map (\<lambda>cl. if ?in cl then cell_volume cl else 0) cls)" if "length bs = ?n" for cls bs
    by (rule fold_bins) (use that bin_of_range in \<open>simp_all add: sum_add_volume\<close>)
  have "length (fold (\<lambda>c. fold ?g (c_cells c)) cs bs) = ?n \<and> sum_list (fold (\<lambda>c. fold ?g (c_cells c)) cs bs) =
      sum_list bs + sum_list (map (\<lambda>cl. if ?in cl then cell_volume cl else 0) (concat (map c_cells cs)))"
    if "length bs = ?n" for bs
    using that by (induction cs arbitrary: bs) (simp_all add: inner)
  from this [of "replicate ?n 0"] show ?thesis by (simp add: profileBins_def sum_list_if)
qed

text \<open>
  C18. The profile of a range holds its volume: the bins together hold the volume of exactly those cells of the covered
  candles whose price lies between the two prices of the drawing, each counted once.
\<close>

theorem range_profile_keeps_volume:
  assumes "scene_ok s" "rangeProfile s v d candles = Some r"
  shows "rp_total r = sum_list (map cell_volume (filter
           (\<lambda>cl. min (dw_startPrice d) (dw_endPrice d) \<le> cell_price cl \<and>
                 cell_price cl \<le> max (dw_startPrice d) (dw_endPrice d))
           (concat (map c_cells (range_candles v d candles))))) \<and>
         rp_total r = sum_list (rp_bins r) \<and> length (rp_bins r) = bucketCount s d"
proof -
  let ?bins = "profileBins s v d (range_candles v d candles)"
  have "r = profile_of_bins ?bins" using assms(2) by (auto simp: rangeProfile_def Let_def split: prod.splits if_splits)
  then have "rp_total r = sum_list ?bins" "rp_bins r = ?bins"
    by (auto simp: profile_of_bins_def Let_def split: prod.split)
  then show ?thesis using profileBins_sum [of s v d "range_candles v d candles"] by (simp add: in_range_prices [OF assms(1)])
qed

text \<open>
  C6. The value area of a range is right: whenever the range holds volume, the point of control is a bin of the largest
  volume, the value area is a range of bins around it that holds at least 70 percent of the volume, and it was not
  grown further than needed: it is the point of control alone, or without one of its end bins it would hold less.
\<close>

theorem range_value_area:
  assumes "rangeProfile s v d candles = Some r" "0 < rp_total r" "\<forall>b \<in> set (rp_bins r). 0 \<le> b"
  shows "(\<forall>b \<in> set (rp_bins r). b \<le> rp_bins r ! rp_poc r) \<and> rp_low r \<le> rp_poc r \<and> rp_poc r \<le> rp_high r \<and>
         rp_high r < length (rp_bins r) \<and>
         7 / 10 * rp_total r \<le> segment (rp_bins r) (rp_low r) (rp_high r) \<and>
         (rp_low r = rp_high r \<or>
          segment (rp_bins r) (rp_low r) (rp_high r) - rp_bins r ! rp_low r < 7 / 10 * rp_total r \<or>
          segment (rp_bins r) (rp_low r) (rp_high r) - rp_bins r ! rp_high r < 7 / 10 * rp_total r)"
proof -
  define bins where "bins = profileBins s v d (range_candles v d candles)"
  have r: "r = profile_of_bins bins"
    using assms(1) by (auto simp: rangeProfile_def Let_def bins_def split: prod.splits if_splits)
  obtain m p where mp: "poc_bin bins = (m, p)" by fastforce
  obtain l h va where g: "va_grow bins (sum_list bins * (7 / 10)) p p (bins ! p) = (l, h, va)" using prod_cases3 by blast
  have rb: "rp_bins r = bins" "rp_total r = sum_list bins" "rp_poc r = p"
    unfolding r by (auto simp: profile_of_bins_def Let_def mp split: prod.split)
  have tot: "0 < sum_list bins" using assms(2) rb by simp
  note ok = poc_bin_ok [OF mp]
  have "0 < m"
  proof (rule ccontr)
    assume "\<not> 0 < m"
    then have "\<forall>b \<in> set bins. b \<le> 0" using ok by force
    then have "sum_list bins \<le> 0" by (induction bins) auto
    then show False using tot by simp
  qed
  then have p: "p < length bins" "bins ! p = m" using ok by auto
  have lh: "rp_low r = l" "rp_high r = h"
    unfolding r using \<open>0 < m\<close> tot g by (simp_all add: profile_of_bins_def Let_def mp)
  have "va_ok bins (sum_list bins * (7 / 10)) p p (l, h, va)"
    using va_grow_ok [of p p bins "bins ! p" "sum_list bins * (7 / 10)"] p g by (simp add: segment_def)
  then have v: "l \<le> p" "p \<le> h" "h < length bins" "va = segment bins l h"
    "sum_list bins * (7 / 10) \<le> va \<or> l = 0 \<and> h = length bins - 1"
    "l = h \<or> va - bins ! l < sum_list bins * (7 / 10) \<or> va - bins ! h < sum_list bins * (7 / 10)"
    by (auto simp: va_ok_def)
  moreover have "sum_list bins * (7 / 10) \<le> va"
    using v(4,5) tot segment_all [of bins] p(1) by (cases "l = 0 \<and> h = length bins - 1") (auto, fastforce)
  ultimately show ?thesis using ok p by (simp add: rb lh algebra_simps)
qed

section \<open>Cumulative delta: lemmas\<close>

lemma length_cvd_from [simp]: "length (cvd_from x cs) = length cs"
  by (induction cs arbitrary: x) auto

lemma cvd_from_nth:
  "i < length cs \<Longrightarrow> cvd_from x cs ! i = (x + sum_list (map c_delta (take (Suc i) cs)), c_timestamp (cs ! i))"
  by (induction cs arbitrary: x i) (auto simp: nth_Cons' take_Cons' split: nat.split)

lemma scan_range_snoc:
  "scan_range (pts @ [p]) = (case scan_range pts of None \<Rightarrow> Some (snd p, snd p)
     | Some (mn, mx) \<Rightarrow> Some (if snd p < mn then snd p else mn, if snd p > mx then snd p else mx))"
  by (simp add: scan_range_def Let_def)

lemma scan_range_spec:
  "case scan_range pts of
     None \<Rightarrow> pts = []
   | Some (mn, mx) \<Rightarrow> mn \<le> mx \<and> (\<forall>p \<in> set pts. mn \<le> snd p \<and> snd p \<le> mx)"
proof (induction pts rule: rev_induct)
  case (snoc p pts)
  show ?case
  proof (cases "scan_range pts")
    case None
    then show ?thesis using snoc scan_range_snoc [of pts p] by simp
  next
    case (Some r)
    obtain mn mx where r: "r = (mn, mx)" by fastforce
    have "mn \<le> mx" "\<And>q. q \<in> set pts \<Longrightarrow> mn \<le> snd q \<and> snd q \<le> mx" using snoc Some r by auto
    then show ?thesis using Some r by (fastforce simp: scan_range_snoc)
  qed
qed (simp add: scan_range_def)

lemma cvd_range_spec:
  assumes "p \<in> set (cvd_visible v pts)" "pts \<noteq> []"
  shows "case cvd_range v pts of (mn, mx, r) \<Rightarrow> mn \<le> snd p \<and> snd p \<le> mx \<and> mx - mn \<le> r \<and> 1 \<le> r"
  using assms scan_range_spec [of "cvd_visible v pts"]
  by (cases "scan_range (cvd_visible v pts)") (auto simp: cvd_range_def max_def)

text \<open>
  The cumulative delta of a candle is the sum of the deltas up to it, at its own time, one point per candle.
\<close>

theorem cvd_is_prefix_sum:
  assumes "i < length candles"
  shows "length (calculateCVD candles) = length candles \<and>
         calculateCVD candles ! i = (sum_list (map c_delta (take (Suc i) candles)), c_timestamp (candles ! i))"
  using assms by (simp add: calculateCVD_def cvd_from_nth)

text \<open>
  The cumulative delta line stays in its panel: unless the user has stretched its scale beyond 1, every visible point
  lies between 10 and 90 percent of the panel's height, whatever the candles.
\<close>

theorem visible_cvd_stays_in_panel:
  assumes "p \<in> set (cvd_visible v (cumulativeDeltaPoints v candles))" "candles \<noteq> []" "cvdScale \<le> 1" "0 \<le> panelH"
  shows "panelH * (1 / 10) \<le> getCvdY cvdScale (cvd_range v (cumulativeDeltaPoints v candles)) (snd p) panelH \<and>
         getCvdY cvdScale (cvd_range v (cumulativeDeltaPoints v candles)) (snd p) panelH \<le> panelH * (9 / 10)"
proof -
  let ?pts = "cumulativeDeltaPoints v candles"
  have "length ?pts = length candles" by (simp add: cumulativeDeltaPoints_def calculateCVD_def)
  then have "?pts \<noteq> []" using assms(2) by auto
  obtain mn mx r where r: "cvd_range v ?pts = (mn, mx, r)" by (metis prod_cases3)
  have b: "mn \<le> snd p" "snd p \<le> mx" "mx - mn \<le> r" "1 \<le> r"
    using cvd_range_spec [OF assms(1) \<open>?pts \<noteq> []\<close>] r by auto
  define Z where "Z = r / max (1 / 100) cvdScale"
  have "max (1 / 100) cvdScale \<le> 1" "0 < max (1 / 100) cvdScale" using assms(3) by auto
  then have Z: "r \<le> Z" "0 < Z" using b(4) by (simp_all add: Z_def pos_le_divide_eq mult_left_le)
  define t where "t = (snd p - ((mx + mn) / 2 - Z * (1 / 2))) / Z"
  have t: "0 \<le> t" "t \<le> 1"
    using b Z by (simp_all add: t_def zero_le_divide_iff pos_divide_le_eq, argo+)
  have y: "getCvdY cvdScale (mn, mx, r) (snd p) panelH = panelH - t * (panelH * (8 / 10)) - panelH * (1 / 10)"
    by (simp add: getCvdY_def zoomedCvdMin_def zoomedCvdDeltaRange_def t_def Z_def)
  have "0 \<le> t * (panelH * (8 / 10))" "t * (panelH * (8 / 10)) \<le> panelH * (8 / 10)"
    using t assms(4) by (simp_all add: mult_left_le_one_le mult_left_le)
  then show ?thesis unfolding r y by linarith
qed

section \<open>Witnesses\<close>

definition cell_at :: "number \<Rightarrow> number \<Rightarrow> cell" where
  "cell_at p vol = \<lparr>cell_price = p, cell_bid = 0, cell_ask = vol, cell_volume = vol, isPoc = False,
                    isBuyImbalance = False, isSellImbalance = False\<rparr>"

definition candle0 :: candle where
  "candle0 = \<lparr>c_timestamp = 0, c_open = 5, c_high = 6, c_low = 5, c_close = 6, c_volume = 4, c_delta = 4, c_pocPrice = 5,
              c_cells = [cell_at 6 1, cell_at 5 3], c_vah = 6, c_val = 5, c_tickCount = None\<rparr>"

definition volume0 :: drawing where
  "volume0 = trend0\<lparr>dw_type := Volume, dw_startX := 60, dw_endX := 100, dw_startPrice := 5, dw_endPrice := 7\<rparr>"

lemma spacing_50 [simp]: "spacing 50 = 12"
  by (simp add: spacing_def)

lemma columns0: "range_columns view0 volume0 (Suc 0) = (0, 0)"
  by (simp add: range_columns_def volume0_def trend0_def view0_def margin_defs Let_def min_def)

lemma candles0: "range_candles view0 volume0 [candle0] = [candle0]"
  by (simp add: range_candles_def columns0)

lemma bucketCount0: "bucketCount scene0 volume0 = 4"
  by (simp add: bucketCount_def volume0_def trend0_def scene0_def or_else_def)

lemma bins0: "profileBins scene0 view0 volume0 [candle0] = [0, 0, 1, 3]"
proof -
  have r: "in_range scene0 view0 volume0 5" "in_range scene0 view0 volume0 6"
    by (simp_all add: in_range_prices volume0_def trend0_def)
  have b: "bin_of scene0 volume0 5 = 3" "bin_of scene0 volume0 6 = 2"
    by (simp_all add: bin_of_def bucketCount0) (simp_all add: volume0_def trend0_def scene0_def or_else_def)
  show ?thesis
    by (simp add: profileBins_def candle0_def cell_at_def r b bucketCount0 add_volume_def numeral_nat)
qed

lemma profile0: "rangeProfile scene0 view0 volume0 [candle0] = Some (profile_of_bins [0, 0, 1, 3])"
  by (simp add: rangeProfile_def columns0 candles0 bins0)

lemma profile0_bins: "rp_bins (profile_of_bins bs) = bs" "rp_total (profile_of_bins bs) = sum_list bs"
  by (auto simp: profile_of_bins_def Let_def split: prod.split)

lemma volume0_prices: "dw_startPrice volume0 = 5" "dw_endPrice volume0 = 7"
  by (simp_all add: volume0_def)

lemma candle0_cells: "c_cells candle0 = [cell_at 6 1, cell_at 5 3]"
  by (simp add: candle0_def)

theorem session_profile_keeps_volume_witness:
  "sum_list (map snd (fst (generateSessionProfile 0 29 [candle0]))) = 4"
  using session_profile_keeps_volume [of 0 29 "[candle0]"] by (simp add: candle0_def cell_at_def)

theorem range_profile_keeps_volume_witness:
  "rp_total (profile_of_bins [0, 0, 1, 3]) = sum_list [3, 1]"
  using range_profile_keeps_volume [OF scene0_ok profile0] volume0_prices
  by (simp add: candles0 candle0_cells cell_at_def)

theorem range_value_area_witness:
  "7 / 10 * 4 \<le> segment [0, 0, 1, 3] (rp_low (profile_of_bins [0, 0, 1, 3])) (rp_high (profile_of_bins [0, 0, 1, 3]))"
  using range_value_area [OF profile0] by (simp add: profile0_bins)

theorem cvd_is_prefix_sum_witness: "calculateCVD [candle0, candle0] ! 1 = (8, 0)"
  using cvd_is_prefix_sum [of 1 "[candle0, candle0]"] by (simp add: candle0_def)

theorem visible_cvd_stays_in_panel_witness:
  "getCvdY 1 (cvd_range view0 (cumulativeDeltaPoints view0 [candle0])) 4 100 \<le> 90"
proof -
  have "cumulativeDeltaPoints view0 [candle0] = [(85, 4)]"
    by (simp add: cumulativeDeltaPoints_def calculateCVD_def candle0_def view0_def margin_defs)
  moreover have "cvd_visible view0 [(85, 4)] = [(85, 4)]"
    by (simp add: cvd_visible_def view0_def margin_defs or_else_def Let_def)
  ultimately show ?thesis
    using visible_cvd_stays_in_panel [of "(85, 4)" view0 "[candle0]" 1 100] by simp
qed

end
