(* ===== verification/ClusterSearch.thy ===== *)
theory ClusterSearch
  imports Profiles
begin

text \<open>
  The cluster search (\<open>frontend-chart/src/components/ClusterChart.tsx\<close>, settings of \<open>indicators/clusterSearch.ts\<close>): two
  filters look for groups of neighbouring cells of a candle with enough volume and a dominant side. The code
  has the filters twice: where the shapes are drawn and where the hover test looks for the shape under the cursor.

  The number of merged levels is a whole number, as the settings form makes it.
\<close>

record filter_settings =
  fs_enabled :: bool
  fs_mergeLevels :: int
  fs_imbalancePercent :: number
  fs_minDelta :: number
  fs_location :: json
  fs_minVolume :: number
  fs_maxVolume :: "number option"
  fs_minSize :: number
  fs_maxSize :: number
  fs_colorBid :: json
  fs_colorAsk :: json
  fs_range :: number

text \<open>The settings of a filter out of the indicator's settings object.\<close>

definition med_filter :: "jobj \<Rightarrow> filter_settings" where
  "med_filter cs =
     (let num = (\<lambda>k d. num_or d (map_of cs k));
          levels = num ''csMergeLevels'' 1; imbalance = num ''csImbalancePercent'' 60;
          mn = num ''csMedMinVolume'' 100; mx = num ''csMedMaxVolume'' 500
      in \<lparr>fs_enabled = not_false (map_of cs ''csMedEnabled''),
          fs_mergeLevels = \<lfloor>num ''csMedMergeLevels'' levels\<rfloor>,
          fs_imbalancePercent = num ''csMedImbalancePercent'' imbalance,
          fs_minDelta = num ''csMedMinDelta'' 0,
          fs_location = str_prop_or ''any'' (map_of cs ''csMedLocation''),
          fs_minVolume = mn, fs_maxVolume = Some mx,
          fs_minSize = num ''csMedMinSize'' 4, fs_maxSize = num ''csMedMaxSize'' 12,
          fs_colorBid = str_prop_or ''#ef4444'' (map_of cs ''csMedColorBid''),
          fs_colorAsk = str_prop_or ''#10b981'' (map_of cs ''csMedColorAsk''),
          fs_range = mx - mn\<rparr>)"

definition large_filter :: "jobj \<Rightarrow> filter_settings" where
  "large_filter cs =
     (let num = (\<lambda>k d. num_or d (map_of cs k));
          levels = num ''csMergeLevels'' 1; imbalance = num ''csImbalancePercent'' 60;
          mn = num ''csLargeMinVolume'' 500
      in \<lparr>fs_enabled = not_false (map_of cs ''csLargeEnabled''),
          fs_mergeLevels = \<lfloor>num ''csLargeMergeLevels'' levels\<rfloor>,
          fs_imbalancePercent = num ''csLargeImbalancePercent'' imbalance,
          fs_minDelta = num ''csLargeMinDelta'' 0,
          fs_location = str_prop_or ''any'' (map_of cs ''csLargeLocation''),
          fs_minVolume = mn, fs_maxVolume = None,
          fs_minSize = num ''csLargeMinSize'' 10, fs_maxSize = num ''csLargeMaxSize'' 20,
          fs_colorBid = str_prop_or ''#f43f5e'' (map_of cs ''csLargeColorBid''),
          fs_colorAsk = str_prop_or ''#34d399'' (map_of cs ''csLargeColorAsk''),
          fs_range = mn * 2\<rparr>)"

section \<open>Matching\<close>

record cs_match =
  cm_large :: bool
  cm_sumVolume :: number
  cm_bidPercent :: number
  cm_askPercent :: number
  cm_isBidDominant :: bool
  cm_isAskDominant :: bool
  cm_price :: number
  cm_size :: number
  cm_color :: json

definition K_of :: "filter_settings \<Rightarrow> cell list \<Rightarrow> nat" where
  "K_of fs sortedCells = nat (max 1 (min (fs_mergeLevels fs) (int (length sortedCells))))"

definition location_ok :: "json \<Rightarrow> number \<Rightarrow> number \<Rightarrow> number \<Rightarrow> bool" where
  "location_ok loc midPrice minBody maxBody \<longleftrightarrow>
     \<not> (loc = JStr ''body'' \<and> \<not> (midPrice \<ge> minBody \<and> midPrice \<le> maxBody)) \<and>
     \<not> (loc = JStr ''lowerWick'' \<and> \<not> midPrice < minBody) \<and>
     \<not> (loc = JStr ''upperWick'' \<and> \<not> midPrice > maxBody)"

definition match_size :: "filter_settings \<Rightarrow> number \<Rightarrow> number" where
  "match_size fs sumVolume =
     (let ratio = (if fs_range fs > 0 then min 1 ((sumVolume - fs_minVolume fs) / fs_range fs) else 0)
      in fs_minSize fs + ratio * (fs_maxSize fs - fs_minSize fs))"

text \<open>One turn of the loop over the first index of a group; \<open>ask_pct\<close> computes the percentage of the asks.\<close>

definition match_at ::
  "(number \<Rightarrow> number \<Rightarrow> number) \<Rightarrow> bool \<Rightarrow> filter_settings \<Rightarrow> candle \<Rightarrow> cell list \<Rightarrow> nat \<Rightarrow> cs_match list" where
  "match_at ask_pct large fs c sortedCells i =
     (let K = K_of fs sortedCells; grp = take K (drop i sortedCells);
          sumVolume = sum_by cell_volume grp; sumBid = sum_by cell_bid grp; sumAsk = sum_by cell_ask grp
      in if sumVolume \<le> 0 then []
         else if sumVolume < fs_minVolume fs \<or> (case fs_maxVolume fs of Some m \<Rightarrow> sumVolume > m | None \<Rightarrow> False) then []
         else
           let bidPercent = (sumBid / sumVolume) * 100; askPercent = ask_pct sumAsk sumVolume;
               isBid = bidPercent \<ge> fs_imbalancePercent fs; isAsk = askPercent \<ge> fs_imbalancePercent fs
           in if \<not> isBid \<and> \<not> isAsk then []
              else if \<bar>sumAsk - sumBid\<bar> < fs_minDelta fs then []
              else
                let midPrice = (cell_price (sortedCells ! i) + cell_price (sortedCells ! (i + K - 1))) / 2
                in if \<not> location_ok (fs_location fs) midPrice (min (c_open c) (c_close c)) (max (c_open c) (c_close c)) then []
                   else [\<lparr>cm_large = large, cm_sumVolume = sumVolume, cm_bidPercent = bidPercent, cm_askPercent = askPercent,
                          cm_isBidDominant = isBid, cm_isAskDominant = isAsk, cm_price = midPrice,
                          cm_size = match_size fs sumVolume,
                          cm_color = (if isBid then fs_colorBid fs else fs_colorAsk fs)\<rparr>])"

definition filter_matches ::
  "(number \<Rightarrow> number \<Rightarrow> number) \<Rightarrow> bool \<Rightarrow> filter_settings \<Rightarrow> candle \<Rightarrow> cell list \<Rightarrow> cs_match list" where
  "filter_matches ask_pct large fs c sortedCells =
     (if fs_enabled fs
      then concat (map (match_at ask_pct large fs c sortedCells)
                     [0 ..< length sortedCells + 1 - K_of fs sortedCells])
      else [])"

text \<open>The hover test guards the percentage of the medium filter in its own way.\<close>

definition plain_ask :: "number \<Rightarrow> number \<Rightarrow> number" where
  "plain_ask sumAsk sumVolume = (sumAsk / sumVolume) * 100"

definition hover_ask :: "number \<Rightarrow> number \<Rightarrow> number" where
  "hover_ask sumAsk sumVolume = (if (sumAsk / sumVolume) * 105 \<noteq> 0 then (sumAsk / sumVolume) * 100 else 0)"

definition hover_matches :: "jobj \<Rightarrow> candle \<Rightarrow> cs_match list" where
  "hover_matches cs c =
     (let sortedCells = sort_desc cell_price (c_cells c) in
      if sortedCells = [] then []
      else filter_matches hover_ask False (med_filter cs) c sortedCells
           @ filter_matches plain_ask True (large_filter cs) c sortedCells)"

section \<open>Drawing\<close>

record cs_item =
  ci_price :: number
  ci_color :: json
  ci_shape :: json
  ci_opacity :: number
  ci_size :: number

definition draw_item :: "jobj \<Rightarrow> cs_match \<Rightarrow> cs_item" where
  "draw_item cs m =
     \<lparr>ci_price = cm_price m, ci_color = cm_color m,
      ci_shape = (if cm_large m then str_prop_or ''rhombus'' (map_of cs ''csLargeShape'')
                  else str_prop_or ''circle'' (map_of cs ''csMedShape'')),
      ci_opacity = (if cm_large m then num_or (9 / 10) (map_of cs ''csLargeOpacity'')
                    else num_or (7 / 10) (map_of cs ''csMedOpacity'')),
      ci_size = cm_size m\<rparr>"

definition itemsToDraw :: "jobj \<Rightarrow> candle \<Rightarrow> cs_item list" where
  "itemsToDraw cs c =
     (if c_cells c = [] then []
      else let sortedCells = sort_desc cell_price (c_cells c)
           in map (draw_item cs)
                (filter_matches plain_ask False (med_filter cs) c sortedCells
                 @ filter_matches plain_ask True (large_filter cs) c sortedCells))"

text \<open>The center of a shape on the screen; shapes are drawn with half their size as radius.\<close>

definition column_x :: "view \<Rightarrow> nat \<Rightarrow> number" where
  "column_x v col = margin_left + real col * (v_candleWidth v + spacing (v_candleWidth v))"

definition shape_center :: "scene \<Rightarrow> view \<Rightarrow> nat \<Rightarrow> number \<Rightarrow> number \<times> number" where
  "shape_center s v col price = (column_x v col + v_candleWidth v / 2 - v_visibleScrollLeft v, price_y s v price)"

section \<open>Hover\<close>

definition hits_match :: "scene \<Rightarrow> view \<Rightarrow> number \<Rightarrow> number \<Rightarrow> nat \<Rightarrow> cs_match \<Rightarrow> bool" where
  "hits_match s v x y col m =
     (let c = shape_center s v col (cm_price m)
      in pdist x y (fst c) (snd c) \<le> max 12 (cm_size m / 2 + 8))"

text \<open>The columns searched: the one under the cursor and its neighbours. The first hit counts.\<close>

definition searched_columns :: "int \<Rightarrow> nat \<Rightarrow> nat list" where
  "searched_columns colIdx n = map nat [max 0 (colIdx - 1) .. min (int n - 1) (colIdx + 1)]"

definition find_in_column :: "scene \<Rightarrow> view \<Rightarrow> jobj \<Rightarrow> candle list \<Rightarrow> number \<Rightarrow> number \<Rightarrow> nat \<Rightarrow> (nat \<times> cs_match) option" where
  "find_in_column s v cs candles x y col =
     map_option (Pair col) (find (hits_match s v x y col) (hover_matches cs (candles ! col)))"

definition foundCS :: "scene \<Rightarrow> view \<Rightarrow> bool \<Rightarrow> jobj \<Rightarrow> candle list \<Rightarrow> number \<Rightarrow> number \<Rightarrow> (nat \<times> cs_match) option" where
  "foundCS s v enabled cs candles x y =
     (let colIdx = \<lfloor>((x + v_visibleScrollLeft v) - margin_left) / (v_candleWidth v + spacing (v_candleWidth v))\<rfloor> in
      if enabled \<and> colIdx \<ge> 0 \<and> colIdx < int (length candles)
      then (case filter (\<lambda>r. r \<noteq> None)
                   (map (find_in_column s v cs candles x y) (searched_columns colIdx (length candles))) of
              [] \<Rightarrow> None | r # _ \<Rightarrow> r)
      else None)"

text \<open>The cell under the cursor: the first one within half a price step of the cursor's price.\<close>

definition hoveredCell :: "scene \<Rightarrow> view \<Rightarrow> candle list \<Rightarrow> number \<Rightarrow> number \<Rightarrow> (nat \<times> cell) option" where
  "hoveredCell s v candles x price =
     (let pitch = v_candleWidth v + spacing (v_candleWidth v); scrolledX = x + v_visibleScrollLeft v;
          colIdx = \<lfloor>(scrolledX - margin_left) / pitch\<rfloor> in
      if colIdx \<ge> 0 \<and> colIdx < int (length candles)
      then
        let col = nat colIdx; candleX = column_x v col in
        if scrolledX \<ge> candleX \<and> scrolledX \<le> candleX + v_candleWidth v
        then map_option (Pair col)
               (find (\<lambda>cl. \<bar>cell_price cl - price\<bar> \<le> sc_priceStep s / 2) (c_cells (candles ! col)))
        else None
      else None)"

record hover =
  hv_crosshair :: "(number \<times> number \<times> number) option"
  hv_cell :: "(nat \<times> cell) option"
  hv_cluster :: "(nat \<times> cs_match) option"

definition handleSvgMouseMove ::
  "scene \<Rightarrow> view \<Rightarrow> bool \<Rightarrow> jobj \<Rightarrow> candle list \<Rightarrow> number \<Rightarrow> number \<Rightarrow> hover" where
  "handleSvgMouseMove s v enabled cs candles x y =
     (let none = \<lparr>hv_crosshair = None, hv_cell = None, hv_cluster = None\<rparr>;
          total = totalSvgHeight (sc_panels s); viewportWidth = or_else (v_clientWidth v) 800 in
      if y \<ge> total - margin_bottom \<and> y \<le> total then none
      else if y \<ge> margin_top \<and> y \<le> total - margin_bottom \<and> x \<ge> margin_left \<and> x \<le> viewportWidth - margin_right
      then
        let price = y_price s v (min (margin_top + chartHeight (sc_panels s)) (max margin_top y))
        in \<lparr>hv_crosshair = Some (x, y, price), hv_cell = hoveredCell s v candles x price,
            hv_cluster = foundCS s v enabled cs candles x y\<rparr>
      else none)"

section \<open>Lemmas\<close>

lemma hover_ask_plain: "hover_ask = plain_ask"
  by (rule ext)+ (simp add: hover_ask_def plain_ask_def)

lemma draw_hover: "itemsToDraw cs c = map (draw_item cs) (hover_matches cs c)"
  by (simp add: itemsToDraw_def hover_matches_def Let_def hover_ask_plain)

lemma match_at_ok:
  "m \<in> set (match_at ask_pct large fs c cells i) \<Longrightarrow>
     cm_large m = large \<and> 0 < cm_sumVolume m \<and> fs_minVolume fs \<le> cm_sumVolume m \<and>
     (\<forall>mx. fs_maxVolume fs = Some mx \<longrightarrow> cm_sumVolume m \<le> mx) \<and>
     (fs_imbalancePercent fs \<le> cm_bidPercent m \<or> fs_imbalancePercent fs \<le> cm_askPercent m) \<and>
     cm_size m = match_size fs (cm_sumVolume m)"
  by (auto simp: match_at_def Let_def split: if_splits option.splits)

lemma match_size_bounds:
  assumes "fs_minVolume fs \<le> vol" "fs_minSize fs \<le> fs_maxSize fs"
  shows "fs_minSize fs \<le> match_size fs vol \<and> match_size fs vol \<le> fs_maxSize fs"
proof -
  define t where "t = (if fs_range fs > 0 then min 1 ((vol - fs_minVolume fs) / fs_range fs) else 0)"
  have t: "0 \<le> t" "t \<le> 1" using assms(1) by (simp_all add: t_def)
  have "0 \<le> t * (fs_maxSize fs - fs_minSize fs)" "t * (fs_maxSize fs - fs_minSize fs) \<le> 1 * (fs_maxSize fs - fs_minSize fs)"
    using t assms(2) mult_right_mono [OF t(2), of "fs_maxSize fs - fs_minSize fs"] by simp_all
  then show ?thesis by (simp add: match_size_def Let_def t_def [symmetric])
qed

lemma find_in_column_Some:
  "find_in_column s v cs candles x y col = Some (k, m) \<Longrightarrow>
     k = col \<and> m \<in> set (hover_matches cs (candles ! col)) \<and> hits_match s v x y col m"
  by (auto simp: find_in_column_def find_Some_iff)

lemma find_in_column_None:
  "find_in_column s v cs candles x y col = None \<Longrightarrow> m \<in> set (hover_matches cs (candles ! col)) \<Longrightarrow> \<not> hits_match s v x y col m"
  by (auto simp: find_in_column_def find_None_iff)

lemma found_first:
  "(if P then (case filter (\<lambda>r. r \<noteq> None) rs of [] \<Rightarrow> None | r # _ \<Rightarrow> r) else None) = Some q \<Longrightarrow>
   Some q \<in> set (filter (\<lambda>r. r \<noteq> None) rs)"
  by (cases "filter (\<lambda>r. r \<noteq> None) rs") (simp_all split: if_splits del: set_filter)

lemma searched_columns_iff: "col \<in> set (searched_columns colIdx n) \<longleftrightarrow> \<bar>int col - colIdx\<bar> \<le> 1 \<and> col < n"
  by (auto simp: searched_columns_def image_iff intro!: bexI [of _ "int col"])

text \<open>Every match comes out of one turn of the loop of its filter.\<close>

lemma match_of_filter:
  assumes "m \<in> set (hover_matches cs c)"
  shows "\<exists>i ap. m \<in> set (match_at ap (cm_large m) (if cm_large m then large_filter cs else med_filter cs) c
                      (sort_desc cell_price (c_cells c)) i) \<and>
                fs_enabled (if cm_large m then large_filter cs else med_filter cs)"
proof -
  let ?cells = "sort_desc cell_price (c_cells c)"
  from assms consider "m \<in> set (filter_matches hover_ask False (med_filter cs) c ?cells)"
    | "m \<in> set (filter_matches plain_ask True (large_filter cs) c ?cells)"
    by (auto simp: hover_matches_def Let_def split: if_splits)
  then show ?thesis
  proof cases
    case 1
    then obtain i where i: "m \<in> set (match_at hover_ask False (med_filter cs) c ?cells i)" "fs_enabled (med_filter cs)"
      by (auto simp: filter_matches_def split: if_splits)
    then show ?thesis using match_at_ok [OF i(1)] by auto
  next
    case 2
    then obtain i where i: "m \<in> set (match_at plain_ask True (large_filter cs) c ?cells i)" "fs_enabled (large_filter cs)"
      by (auto simp: filter_matches_def split: if_splits)
    then show ?thesis using match_at_ok [OF i(1)] by auto
  qed
qed

text \<open>A match under the cursor in one of the columns searched is not missed.\<close>

lemma hover_in_reach:
  fixes x y :: number and s :: scene and v :: view
  defines "colIdx \<equiv> \<lfloor>((x + v_visibleScrollLeft v) - margin_left) / (v_candleWidth v + spacing (v_candleWidth v))\<rfloor>"
  assumes reach: "0 \<le> colIdx" "colIdx < int (length candles)" "\<bar>int col - colIdx\<bar> \<le> 1" "col < length candles"
    and m: "m \<in> set (hover_matches cs (candles ! col))" "hits_match s v x y col m"
  shows "foundCS s v True cs candles x y \<noteq> None"
proof -
  let ?rs = "filter (\<lambda>r. r \<noteq> None) (map (find_in_column s v cs candles x y) (searched_columns colIdx (length candles)))"
  have "find_in_column s v cs candles x y col \<noteq> None" using find_in_column_None m by blast
  moreover have "col \<in> set (searched_columns colIdx (length candles))" using reach by (simp add: searched_columns_iff)
  ultimately have "?rs \<noteq> []" by (auto simp: filter_empty_conv)
  then obtain r rs where "?rs = r # rs" by (cases ?rs) auto
  moreover from this have "r \<noteq> None" using filter_eq_ConsD by fastforce
  ultimately show ?thesis using reach by (simp add: foundCS_def colIdx_def [symmetric] Let_def)
qed

section \<open>Properties\<close>

text \<open>
  The two copies of the cluster search agree: what is drawn for a candle is exactly what the hover test searches there, in
  spite of the different guard of the ask percentage, in the same order, with the same prices, sizes and colors.
\<close>

theorem drawn_clusters_are_searched:
  "map (\<lambda>i. (ci_price i, ci_size i, ci_color i)) (itemsToDraw cs c) =
   map (\<lambda>m. (cm_price m, cm_size m, cm_color m)) (hover_matches cs c)"
  by (simp add: draw_hover draw_item_def)



section \<open>Witnesses\<close>

definition candle1 :: candle where
  "candle1 = candle0\<lparr>c_cells := [cell_at 5 200]\<rparr>"

definition match1 :: cs_match where
  "match1 = \<lparr>cm_large = False, cm_sumVolume = 200, cm_bidPercent = 0, cm_askPercent = 100, cm_isBidDominant = False,
             cm_isAskDominant = True, cm_price = 5, cm_size = 6, cm_color = JStr ''#10b981''\<rparr>"

lemma matches1: "hover_matches [] candle1 = [match1]"
proof -
  have med: "med_filter [] = \<lparr>fs_enabled = True, fs_mergeLevels = 1, fs_imbalancePercent = 60, fs_minDelta = 0,
      fs_location = JStr ''any'', fs_minVolume = 100, fs_maxVolume = Some 500, fs_minSize = 4, fs_maxSize = 12,
      fs_colorBid = JStr ''#ef4444'', fs_colorAsk = JStr ''#10b981'', fs_range = 400\<rparr>"
    by (simp add: med_filter_def not_false_def str_prop_or_def)
  have large: "fs_mergeLevels (large_filter []) = 1" "fs_minVolume (large_filter []) = 500"
    by (simp_all add: large_filter_def Let_def)
  have s: "sort_desc cell_price (c_cells candle1) = [cell_at 5 200]"
    by (simp add: candle1_def candle0_def sort_desc_def)
  have "match_at hover_ask False (med_filter []) candle1 [cell_at 5 200] 0 = [match1]"
    by (simp add: match_at_def med K_of_def cell_at_def hover_ask_def location_ok_def match_size_def match1_def Let_def)
  moreover have "match_at plain_ask True (large_filter []) candle1 [cell_at 5 200] 0 = []"
    by (simp add: match_at_def large K_of_def cell_at_def Let_def)
  ultimately show ?thesis
    unfolding hover_matches_def s by (simp add: filter_matches_def K_of_def med large Let_def)
qed



end
