(* ===== verification/AppState.thy ===== *)
theory AppState
  imports TierLimits ChartTypes
begin

text \<open>
  The persistent state of the application (\<open>frontend-chart/src/App.tsx\<close>, \<open>lib/symbols.ts\<close>): theme and
  language, the saved pairs and their sanitation, favorites, the splitter, the settings of the two charts with
  the effects that run when the active chart's setting changes, the user's role, and the
  indicators read back from storage.

  React runs an effect after a render in which one of its dependencies differs from the previous render, in the order of the
  source; an update queued with a function runs when the next render begins. Both are written out.
\<close>

section \<open>Theme, language, splitter\<close>

definition saved_or :: "local_storage \<Rightarrow> string list \<Rightarrow> string \<Rightarrow> string" where
  "saved_or ls keys d = foldr (\<lambda>k r. str_or (storage_get ls k) r) keys d"

definition init_theme :: "local_storage \<Rightarrow> string" where
  "init_theme ls = saved_or ls [''procluster_theme''] ''dark''"

definition init_language :: "local_storage \<Rightarrow> string" where
  "init_language ls = saved_or ls [''procluster_lang''] ''RU''"

definition handleLanguageChange :: "string \<Rightarrow> local_storage \<Rightarrow> string \<times> local_storage" where
  "handleLanguageChange lang ls = (lang, storage_set ''procluster_lang'' lang ls)"

definition toggleTheme :: "string \<times> local_storage \<Rightarrow> string \<times> local_storage" where
  "toggleTheme s =
     (let next = (if fst s = ''dark'' then ''light'' else ''dark'')
      in (next, storage_set ''procluster_theme'' next (snd s)))"

datatype layout = Single | Split_h | Split_v

text \<open>The container's rectangle: its position and extent along the split.\<close>

definition splitter_move :: "layout \<Rightarrow> number \<times> number \<Rightarrow> number \<times> number \<Rightarrow> number \<times> number \<Rightarrow> number" where
  "splitter_move l horizontal vertical pos =
     (let percentage = (case l of
            Split_h \<Rightarrow> ((fst pos - fst horizontal) / snd horizontal) * 100
          | Split_v \<Rightarrow> ((snd pos - fst vertical) / snd vertical) * 100
          | Single \<Rightarrow> 50)
      in max 15 (min 85 percentage))"

definition getWhaleThreshold :: "string \<Rightarrow> number" where
  "getWhaleThreshold symbol =
     (if startsWith symbol ''BTC'' then 1 / 2
      else if startsWith symbol ''ETH'' then 5
      else if startsWith symbol ''SOL'' then 100
      else if startsWith symbol ''BNB'' then 30
      else 20000)"

definition getBaseTickSize :: "string \<Rightarrow> number" where
  "getBaseTickSize symbol =
     (let norm = remove_slash (toUpperCase symbol) in
      if str_includes norm ''BTC'' then 1 / 10
      else if str_includes norm ''ETH'' then 1 / 100
      else if str_includes norm ''SOL'' then 1 / 100
      else if str_includes norm ''BNB'' then 1 / 100
      else if str_includes norm ''XRP'' then 1 / 10000
      else 1 / 100)"

section \<open>Saved pairs\<close>

text \<open>
  A saved pair is a JSON object. The number a property stands for in a comparison: \<open>None\<close> is \<open>NaN\<close>. A price
  saved as a text is outside the model and counts as \<open>NaN\<close>.
\<close>

definition to_number :: "json option \<Rightarrow> number option" where
  "to_number v =
     (case v of Some (JNum n) \<Rightarrow> Some n | Some JNull \<Rightarrow> Some 0 | Some (JBool b) \<Rightarrow> Some (if b then 1 else 0)
      | _ \<Rightarrow> None)"

definition num_prop :: "jobj \<Rightarrow> string \<Rightarrow> number option" where
  "num_prop p k = (case map_of p k of Some (JNum n) \<Rightarrow> Some n | _ \<Rightarrow> None)"

definition original_of :: "crypto_pair list \<Rightarrow> jobj \<Rightarrow> crypto_pair option" where
  "original_of known p =
     find (\<lambda>ap. map_of p ''symbol'' = Some (JStr (pair_symbol ap))) known"

definition sanitize_pair :: "crypto_pair list \<Rightarrow> jobj \<Rightarrow> jobj" where
  "sanitize_pair known p =
     (case original_of known p of
        None \<Rightarrow> p
      | Some original \<Rightarrow>
          let isReasonablePrice =
                (case to_number (map_of p ''price'') of
                   Some x \<Rightarrow> x > pair_price original * (1 / 10) \<and> x < pair_price original * 10
                 | None \<Rightarrow> False);
              isReasonableStep = (case num_prop p ''priceStep'' of Some x \<Rightarrow> x > 0 | None \<Rightarrow> False);
              p1 = (if isReasonablePrice then p else obj_set ''price'' (JNum (pair_price original)) p)
          in if isReasonableStep then p1 else obj_set ''priceStep'' (JNum (pair_priceStep original)) p1)"

definition pair_json :: "crypto_pair \<Rightarrow> jobj" where
  "pair_json p =
     [(''symbol'', JStr (pair_symbol p)), (''name'', JStr (pair_name p)), (''price'', JNum (pair_price p)),
      (''change24h'', JNum (pair_change24h p)), (''volume24h'', JNum (pair_volume24h p)),
      (''delta24h'', JNum (pair_delta24h p)), (''priceStep'', JNum (pair_priceStep p))]"

text \<open>Reading a property of null throws, and the surrounding \<open>catch\<close> falls back to the known pairs.\<close>

definition load_pairs :: "crypto_pair list \<Rightarrow> json \<Rightarrow> jobj list" where
  "load_pairs known parsed =
     (case parsed of
        JArr ps \<Rightarrow>
          if JNull \<in> set ps then map pair_json known
          else
            let sanitized = map (sanitize_pair known) (filter (\<lambda>p. original_of known p \<noteq> None) (map obj_of ps))
            in if sanitized \<noteq> [] then sanitized else map pair_json known
      | _ \<Rightarrow> map pair_json known)"

section \<open>Favorites\<close>

datatype market = SPOT | FUTURES

record favorites =
  fav_SPOT :: "json list"
  fav_FUTURES :: "json list"

definition init_favorites :: "json \<Rightarrow> favorites" where
  "init_favorites parsed =
     (let arr = (\<lambda>k. case jprop parsed k of Some (JArr xs) \<Rightarrow> xs | _ \<Rightarrow> [])
      in \<lparr>fav_SPOT = arr ''SPOT'', fav_FUTURES = arr ''FUTURES''\<rparr>)"

definition fav_list :: "market \<Rightarrow> favorites \<Rightarrow> json list" where
  "fav_list m f = (case m of SPOT \<Rightarrow> fav_SPOT f | FUTURES \<Rightarrow> fav_FUTURES f)"

definition toggle_list :: "string \<Rightarrow> json list \<Rightarrow> json list" where
  "toggle_list symbol l = (if JStr symbol \<in> set l then filter (\<lambda>s. s \<noteq> JStr symbol) l else l @ [JStr symbol])"

definition favorites_json :: "favorites \<Rightarrow> json" where
  "favorites_json f = JObj [(''SPOT'', JArr (fav_SPOT f)), (''FUTURES'', JArr (fav_FUTURES f))]"

definition toggleFavorite ::
  "codec \<Rightarrow> string \<Rightarrow> market \<Rightarrow> favorites \<times> local_storage \<Rightarrow> favorites \<times> local_storage" where
  "toggleFavorite cd symbol m s =
     (let updated = (case m of
            SPOT \<Rightarrow> (fst s)\<lparr>fav_SPOT := toggle_list symbol (fav_SPOT (fst s))\<rparr>
          | FUTURES \<Rightarrow> (fst s)\<lparr>fav_FUTURES := toggle_list symbol (fav_FUTURES (fst s))\<rparr>)
      in (updated, storage_setJson cd ''procluster_favorites'' (favorites_json updated) (snd s)))"

section \<open>The settings of the two charts\<close>

record config =
  cf_symbol :: string
  cf_interval :: string
  cf_market :: market
  cf_candleType :: string
  cf_candleDataType :: string
  cf_candlePalette :: string
  cf_compression :: number

text \<open>A saved market is taken as it is; the texts other than \<open>FUTURES\<close> stand for SPOT here.\<close>

definition market_of_string :: "string \<Rightarrow> market" where
  "market_of_string s = (if s = ''FUTURES'' then FUTURES else SPOT)"

definition market_string :: "market \<Rightarrow> string" where
  "market_string m = (case m of SPOT \<Rightarrow> ''SPOT'' | FUTURES \<Rightarrow> ''FUTURES'')"

definition saved_symbol :: "string \<Rightarrow> string \<Rightarrow> string" where
  "saved_symbol saved d =
     (case find (\<lambda>p. pair_symbol p = saved) EMPTY_PAIRS of Some p \<Rightarrow> pair_symbol p | None \<Rightarrow> d)"

definition saved_multiplier :: "local_storage \<Rightarrow> string list \<Rightarrow> number" where
  "saved_multiplier ls keys =
     (let saved = saved_or ls keys [] in
      if saved \<noteq> [] then (case parseInt saved of Some i \<Rightarrow> or_else (of_int i) 1 | None \<Rightarrow> 1) else 1)"

definition init_config0 :: "local_storage \<Rightarrow> config" where
  "init_config0 ls =
     \<lparr>cf_symbol = saved_symbol (saved_or ls [''procluster_active_symbol_0'', ''procluster_active_symbol''] [])
                    (pair_symbol (hd EMPTY_PAIRS)),
      cf_interval = saved_or ls [''procluster_interval_0'', ''procluster_interval''] ''15m'',
      cf_market = market_of_string
        (saved_or ls [''procluster_market_type_0'', ''procluster_market_type''] ''SPOT''),
      cf_candleType = saved_or ls [''procluster_candle_type_0'', ''procluster_candle_type''] ''auto'',
      cf_candleDataType = saved_or ls [''procluster_candle_data_type_0'', ''procluster_candle_data_type''] ''bid_ask'',
      cf_candlePalette = saved_or ls [''procluster_candle_palette_0'', ''procluster_candle_palette''] ''default'',
      cf_compression = saved_multiplier ls
        [''procluster_compression_multiplier_0'', ''procluster_compression_multiplier'']\<rparr>"

definition init_config1 :: "local_storage \<Rightarrow> config" where
  "init_config1 ls =
     \<lparr>cf_symbol = saved_symbol (saved_or ls [''procluster_active_symbol_1''] []) (pair_symbol (hd EMPTY_PAIRS)),
      cf_interval = saved_or ls [''procluster_interval_1''] ''15m'',
      cf_market = market_of_string (saved_or ls [''procluster_market_type_1''] ''SPOT''),
      cf_candleType = saved_or ls [''procluster_candle_type_1''] ''auto'',
      cf_candleDataType = saved_or ls [''procluster_candle_data_type_1''] ''bid_ask'',
      cf_candlePalette = saved_or ls [''procluster_candle_palette_1''] ''default'',
      cf_compression = saved_multiplier ls [''procluster_compression_multiplier_1'']\<rparr>"

record app =
  ap_config0 :: config
  ap_config1 :: config
  ap_active :: nat
  ap_store :: local_storage

definition active_config :: "app \<Rightarrow> config" where
  "active_config a = (if ap_active a = 0 then ap_config0 a else ap_config1 a)"

text \<open>The setters of the active chart (\<open>setInterval\<close>, \<open>setMarketType\<close>, \<open>setCompressionMultiplier\<close>, ...).\<close>

definition set_active_config :: "(config \<Rightarrow> config) \<Rightarrow> app \<Rightarrow> app" where
  "set_active_config f a =
     (if ap_active a = 0 then a\<lparr>ap_config0 := f (ap_config0 a)\<rparr> else a\<lparr>ap_config1 := f (ap_config1 a)\<rparr>)"

definition setCompressionMultiplier :: "number \<Rightarrow> app \<Rightarrow> app" where
  "setCompressionMultiplier val = set_active_config (\<lambda>c. c\<lparr>cf_compression := val\<rparr>)"

definition setInterval :: "string \<Rightarrow> app \<Rightarrow> app" where
  "setInterval val = set_active_config (\<lambda>c. c\<lparr>cf_interval := val\<rparr>)"

definition setMarketType :: "market \<Rightarrow> app \<Rightarrow> app" where
  "setMarketType val = set_active_config (\<lambda>c. c\<lparr>cf_market := val\<rparr>)"

definition setActivePair :: "string \<Rightarrow> app \<Rightarrow> app" where
  "setActivePair val = set_active_config (\<lambda>c. c\<lparr>cf_symbol := val\<rparr>)"

definition setActiveChartIndex :: "nat \<Rightarrow> app \<Rightarrow> app" where
  "setActiveChartIndex i a = a\<lparr>ap_active := i\<rparr>"

definition loadDefaultCompressionForPair :: "json \<Rightarrow> string \<Rightarrow> string \<Rightarrow> market \<Rightarrow> number" where
  "loadDefaultCompressionForPair parsed pairSymbol currentInterval currentMarketType =
     (let fallback = (if currentMarketType = SPOT then 1 else 5) in
      case (if truthy parsed then jprop parsed pairSymbol else None) of
        None \<Rightarrow> fallback
      | Some tickerData \<Rightarrow>
          if \<not> truthy tickerData then fallback
          else
            let legacy = num_or fallback (jprop tickerData currentInterval) in
            case jprop tickerData (market_string currentMarketType) of
              None \<Rightarrow> legacy
            | Some marketData \<Rightarrow> if truthy marketData then num_or legacy (jprop marketData currentInterval) else legacy)"

definition default_compression :: "codec \<Rightarrow> app \<Rightarrow> number" where
  "default_compression cd a =
     (let c = active_config a in
      loadDefaultCompressionForPair (storage_getJson cd (ap_store a) ''procluster_default_compressions'' JNull)
        (cf_symbol c) (cf_interval c) (cf_market c))"

section \<open>Effects of a render\<close>

definition store :: "string \<Rightarrow> string \<Rightarrow> app \<Rightarrow> app" where
  "store k v a = a\<lparr>ap_store := storage_set k v (ap_store a)\<rparr>"

text \<open>
  An effect with its dependencies: \<open>on_change prev cur f e\<close> runs \<open>e\<close> in the first render (\<open>prev = None\<close>) and
  when \<open>f\<close> differs. The closures of the effects see the rendered state \<open>cur\<close>, the setters act on the
  queued state.
\<close>

definition on_change :: "app option \<Rightarrow> app \<Rightarrow> (app \<Rightarrow> 'v) \<Rightarrow> (app \<Rightarrow> app) \<Rightarrow> app \<Rightarrow> app" where
  "on_change prev cur f e a = (case prev of None \<Rightarrow> e a | Some p \<Rightarrow> if f p = f cur then a else e a)"

definition sync_effects :: "app option \<Rightarrow> app \<Rightarrow> (config \<Rightarrow> string) \<Rightarrow> string \<Rightarrow> app \<Rightarrow> app" where
  "sync_effects prev cur f key a =
     on_change prev cur (f \<circ> ap_config1) (store (key @ ''_1'') (f (ap_config1 cur)))
       (on_change prev cur (f \<circ> ap_config0) (store (key @ ''_0'') (f (ap_config0 cur))) a)"

definition setting_key :: "app \<Rightarrow> string \<times> string \<times> market" where
  "setting_key a = (let c = active_config a in (cf_symbol c, cf_interval c, cf_market c))"

definition compression_effect :: "codec \<Rightarrow> app \<Rightarrow> app \<Rightarrow> app" where
  "compression_effect cd cur a = setCompressionMultiplier (default_compression cd (cur\<lparr>ap_store := ap_store a\<rparr>)) a"

text \<open>The listener of the event that a default compression was saved in the settings.\<close>

definition handleCompChange :: "codec \<Rightarrow> app \<Rightarrow> app" where
  "handleCompChange cd a = compression_effect cd a a"

text \<open>An interval that the spot market does not have.\<close>

definition corrected :: "config \<Rightarrow> bool" where
  "corrected c \<longleftrightarrow> cf_market c = SPOT \<and> (cf_interval c = ''1m'' \<or> cf_interval c = ''5m'')"

definition market_effect :: "codec \<Rightarrow> app \<Rightarrow> app \<Rightarrow> app" where
  "market_effect cd cur a =
     (let c = active_config cur;
          a1 = store ''procluster_market_type'' (market_string (cf_market c)) a;
          a2 = compression_effect cd cur a1
      in if corrected c then setInterval ''15m'' a2 else a2)"

text \<open>The text of a multiplier, \<open>compressionMultiplier0.toString()\<close>, is the argument \<open>pr\<close>.\<close>

definition run_effects :: "codec \<Rightarrow> (number \<Rightarrow> string) \<Rightarrow> app option \<Rightarrow> app \<Rightarrow> app" where
  "run_effects cd pr prev cur =
     (let a1 = sync_effects prev cur (pr \<circ> cf_compression) ''procluster_compression_multiplier'' cur;
          a2 = sync_effects prev cur cf_interval ''procluster_interval'' a1;
          a3 = sync_effects prev cur (market_string \<circ> cf_market) ''procluster_market_type'' a2;
          a4 = sync_effects prev cur cf_candleType ''procluster_candle_type'' a3;
          a5 = sync_effects prev cur cf_candleDataType ''procluster_candle_data_type'' a4;
          a6 = sync_effects prev cur cf_candlePalette ''procluster_candle_palette'' a5;
          a7 = sync_effects prev cur cf_symbol ''procluster_active_symbol'' a6;
          a8 = on_change prev cur setting_key (compression_effect cd cur) a7;
          a9 = on_change prev cur (cf_symbol \<circ> active_config)
                 (store ''procluster_active_symbol'' (cf_symbol (active_config cur))) a8;
          a10 = on_change prev cur (cf_interval \<circ> active_config)
                 (store ''procluster_interval'' (cf_interval (active_config cur))) a9;
          a11 = on_change prev cur (cf_market \<circ> active_config) (market_effect cd cur) a10;
          a12 = on_change prev cur (cf_candleType \<circ> active_config)
                 (store ''procluster_candle_type'' (cf_candleType (active_config cur))) a11;
          a13 = on_change prev cur (cf_candleDataType \<circ> active_config)
                 (store ''procluster_candle_data_type'' (cf_candleDataType (active_config cur))) a12
      in on_change prev cur (cf_candlePalette \<circ> active_config)
           (store ''procluster_candle_palette'' (cf_candlePalette (active_config cur))) a13)"

text \<open>
  The renders that follow a change: the effects of the changed state, then those of the state they leave, whose setting may
  differ once more because the interval was corrected.
\<close>

definition settle :: "codec \<Rightarrow> (number \<Rightarrow> string) \<Rightarrow> app option \<Rightarrow> app \<Rightarrow> app" where
  "settle cd pr prev cur =
     (let a = run_effects cd pr prev cur; b = run_effects cd pr (Some cur) a
      in run_effects cd pr (Some a) b)"

definition mount :: "codec \<Rightarrow> (number \<Rightarrow> string) \<Rightarrow> local_storage \<Rightarrow> app" where
  "mount cd pr ls =
     settle cd pr None \<lparr>ap_config0 = init_config0 ls, ap_config1 = init_config1 ls, ap_active = 0, ap_store = ls\<rparr>"

section \<open>Lemmas on effects\<close>

text \<open>What the setters and the default compression depend on: all but the stored copies of the settings.\<close>

definition same_settings :: "codec \<Rightarrow> app \<Rightarrow> app \<Rightarrow> bool" where
  "same_settings cd a b \<longleftrightarrow>
     ap_config0 a = ap_config0 b \<and> ap_config1 a = ap_config1 b \<and> ap_active a = ap_active b \<and>
     storage_getJson cd (ap_store a) ''procluster_default_compressions'' JNull =
     storage_getJson cd (ap_store b) ''procluster_default_compressions'' JNull"

lemma same_refl [simp]: "same_settings cd a a"
  by (simp add: same_settings_def)

lemma same_trans: "same_settings cd a b \<Longrightarrow> same_settings cd b c \<Longrightarrow> same_settings cd a c"
  by (simp add: same_settings_def)

lemma same_sym: "same_settings cd a b \<Longrightarrow> same_settings cd b a"
  by (simp add: same_settings_def)

lemma same_store: "k \<noteq> ''procluster_default_compressions'' \<Longrightarrow> same_settings cd (store k v a) a"
  by (simp add: same_settings_def store_def storage_getJson_set_other)

lemma same_on_change: "(\<And>x. same_settings cd (e x) x) \<Longrightarrow> same_settings cd (on_change prev cur f e a) a"
  by (simp add: on_change_def split: option.split)

lemma same_sync:
  assumes "key @ ''_0'' \<noteq> ''procluster_default_compressions''" "key @ ''_1'' \<noteq> ''procluster_default_compressions''"
  shows "same_settings cd (sync_effects prev cur f key a) a"
  unfolding sync_effects_def
  by (rule same_trans, (rule same_on_change, rule same_store, rule assms)+)

lemma same_set_active:
  "same_settings cd a b \<Longrightarrow> same_settings cd (set_active_config f a) (set_active_config f b)"
  by (simp add: same_settings_def set_active_config_def)

lemma same_default:
  "same_settings cd a b \<Longrightarrow> default_compression cd a = default_compression cd b"
  by (simp add: same_settings_def default_compression_def active_config_def Let_def)

lemma same_active: "same_settings cd a b \<Longrightarrow> active_config a = active_config b"
  by (simp add: same_settings_def active_config_def)

text \<open>The effect of a render on the settings, without the copies in the storage.\<close>

definition settings_effect :: "codec \<Rightarrow> app option \<Rightarrow> app \<Rightarrow> app" where
  "settings_effect cd prev cur =
     on_change prev cur (cf_market \<circ> active_config)
       (\<lambda>a. let a2 = setCompressionMultiplier (default_compression cd cur) a
            in if corrected (active_config cur) then setInterval ''15m'' a2 else a2)
       (on_change prev cur setting_key (setCompressionMultiplier (default_compression cd cur)) cur)"

lemma same_compression_effect:
  assumes "same_settings cd a b"
    and "storage_getJson cd (ap_store a) ''procluster_default_compressions'' JNull =
         storage_getJson cd (ap_store cur) ''procluster_default_compressions'' JNull"
  shows "same_settings cd (compression_effect cd cur a) (setCompressionMultiplier (default_compression cd cur) b)"
proof -
  have "same_settings cd (cur\<lparr>ap_store := ap_store a\<rparr>) cur" using assms(2) by (simp add: same_settings_def)
  then have "default_compression cd (cur\<lparr>ap_store := ap_store a\<rparr>) = default_compression cd cur" by (rule same_default)
  then show ?thesis
    unfolding compression_effect_def setCompressionMultiplier_def by (simp add: same_set_active assms(1))
qed

lemma same_on_change2:
  assumes "same_settings cd a b" "same_settings cd (e a) (e' b)"
  shows "same_settings cd (on_change prev cur f e a) (on_change prev cur f e' b)"
  using assms by (simp add: on_change_def split: option.split)

lemma set_active_store [simp]: "ap_store (set_active_config f a) = ap_store a"
  by (simp add: set_active_config_def)

text \<open>A step that only stores copies, put in front of a settled difference.\<close>

lemma same_on_change_store:
  "same_settings cd a b \<Longrightarrow> k \<noteq> ''procluster_default_compressions'' \<Longrightarrow>
   same_settings cd (on_change prev cur f (store k v) a) b"
  by (erule same_trans [rotated]) (rule same_on_change, erule same_store)

lemma same_sync_store:
  "same_settings cd a b \<Longrightarrow> key @ ''_0'' \<noteq> ''procluster_default_compressions'' \<Longrightarrow>
   key @ ''_1'' \<noteq> ''procluster_default_compressions'' \<Longrightarrow> same_settings cd (sync_effects prev cur f key a) b"
  by (erule same_trans [rotated]) (erule same_sync, assumption)

lemma same_market_effect:
  assumes "same_settings cd a b"
    and "storage_getJson cd (ap_store a) ''procluster_default_compressions'' JNull =
         storage_getJson cd (ap_store cur) ''procluster_default_compressions'' JNull"
  shows "same_settings cd (market_effect cd cur a)
     (let a2 = setCompressionMultiplier (default_compression cd cur) b
      in if corrected (active_config cur) then setInterval ''15m'' a2 else a2)"
proof -
  let ?a1 = "store ''procluster_market_type'' (market_string (cf_market (active_config cur))) a"
  have "same_settings cd ?a1 a" by (rule same_store) simp
  then have s1: "same_settings cd ?a1 b"
    and d1: "storage_getJson cd (ap_store ?a1) ''procluster_default_compressions'' JNull =
             storage_getJson cd (ap_store cur) ''procluster_default_compressions'' JNull"
    using assms same_trans by (auto simp: same_settings_def)
  note s2 = same_compression_effect [OF s1 d1]
  show ?thesis
  proof (cases "corrected (active_config cur)")
    case True
    then show ?thesis using same_set_active [OF s2, of "\<lambda>c. c\<lparr>cf_interval := ''15m''\<rparr>"]
      by (simp only: market_effect_def Let_def setInterval_def if_True)
  next
    case False
    then show ?thesis using s2 by (simp only: market_effect_def Let_def if_False)
  qed
qed

lemma run_effects_settings: "same_settings cd (run_effects cd pr prev cur) (settings_effect cd prev cur)"
proof -
  let ?dc = "\<lambda>a. storage_getJson cd (ap_store a) ''procluster_default_compressions'' JNull"
  have dc: "same_settings cd a b \<Longrightarrow> ?dc b = ?dc cur \<Longrightarrow> ?dc a = ?dc cur" for a b by (simp add: same_settings_def)
  define a1 where "a1 = sync_effects prev cur (pr \<circ> cf_compression) ''procluster_compression_multiplier'' cur"
  define a2 where "a2 = sync_effects prev cur cf_interval ''procluster_interval'' a1"
  define a3 where "a3 = sync_effects prev cur (market_string \<circ> cf_market) ''procluster_market_type'' a2"
  define a4 where "a4 = sync_effects prev cur cf_candleType ''procluster_candle_type'' a3"
  define a5 where "a5 = sync_effects prev cur cf_candleDataType ''procluster_candle_data_type'' a4"
  define a6 where "a6 = sync_effects prev cur cf_candlePalette ''procluster_candle_palette'' a5"
  define a7 where "a7 = sync_effects prev cur cf_symbol ''procluster_active_symbol'' a6"
  have a7: "same_settings cd a7 cur"
    unfolding a7_def a6_def a5_def a4_def a3_def a2_def a1_def
    by (intro same_sync_store same_refl) simp_all
  define b8 where "b8 = on_change prev cur setting_key (setCompressionMultiplier (default_compression cd cur)) cur"
  define a8 where "a8 = on_change prev cur setting_key (compression_effect cd cur) a7"
  have "same_settings cd a8 b8" unfolding a8_def b8_def
    by (rule same_on_change2, rule a7, rule same_compression_effect, rule a7, rule dc [OF a7 refl])
  moreover have b8: "?dc b8 = ?dc cur" by (simp add: b8_def on_change_def setCompressionMultiplier_def split: option.split)
  moreover define a10 where "a10 = on_change prev cur (cf_interval \<circ> active_config)
                 (store ''procluster_interval'' (cf_interval (active_config cur)))
       (on_change prev cur (cf_symbol \<circ> active_config)
                 (store ''procluster_active_symbol'' (cf_symbol (active_config cur))) a8)"
  ultimately have a10: "same_settings cd a10 b8" by (simp add: same_on_change_store)
  have a11: "same_settings cd (on_change prev cur (cf_market \<circ> active_config) (market_effect cd cur) a10)
      (settings_effect cd prev cur)"
    unfolding settings_effect_def b8_def [symmetric]
    by (rule same_on_change2, rule a10, rule same_market_effect, rule a10, rule dc [OF a10 b8])
  have "run_effects cd pr prev cur =
      on_change prev cur (cf_candlePalette \<circ> active_config)
           (store ''procluster_candle_palette'' (cf_candlePalette (active_config cur)))
      (on_change prev cur (cf_candleDataType \<circ> active_config)
                 (store ''procluster_candle_data_type'' (cf_candleDataType (active_config cur)))
      (on_change prev cur (cf_candleType \<circ> active_config)
                 (store ''procluster_candle_type'' (cf_candleType (active_config cur)))
      (on_change prev cur (cf_market \<circ> active_config) (market_effect cd cur) a10)))"
    by (simp only: run_effects_def Let_def a1_def a2_def a3_def a4_def a5_def a6_def a7_def a8_def a10_def)
  then show ?thesis using a11 by (simp add: same_on_change_store)
qed

lemma active_set_active [simp]:
  "active_config (set_active_config f a) = f (active_config a)" "ap_active (set_active_config f a) = ap_active a"
  by (simp_all add: set_active_config_def active_config_def)

text \<open>The other chart's settings.\<close>

definition idle_config :: "app \<Rightarrow> config" where
  "idle_config a = (if ap_active a = 0 then ap_config1 a else ap_config0 a)"

lemma idle_set_active [simp]: "idle_config (set_active_config f a) = idle_config a"
  by (simp add: set_active_config_def idle_config_def)

definition unchanged :: "app option \<Rightarrow> app \<Rightarrow> (app \<Rightarrow> 'v) \<Rightarrow> bool" where
  "unchanged prev cur f = (case prev of None \<Rightarrow> False | Some p \<Rightarrow> f p = f cur)"

lemma on_change_unchanged: "on_change prev cur f e a = (if unchanged prev cur f then a else e a)"
  by (simp add: on_change_def unchanged_def split: option.split)

lemma settings_effect_frame [simp]:
  "ap_active (settings_effect cd prev cur) = ap_active cur" "idle_config (settings_effect cd prev cur) = idle_config cur"
  "ap_store (settings_effect cd prev cur) = ap_store cur"
  by (simp_all add: settings_effect_def on_change_unchanged setCompressionMultiplier_def setInterval_def Let_def)

lemma market_of_key: "unchanged prev cur setting_key \<Longrightarrow> unchanged prev cur (cf_market \<circ> active_config)"
  by (auto simp: unchanged_def setting_key_def Let_def split: option.splits)

lemma settings_effect_active:
  "active_config (settings_effect cd prev cur) =
     (let c = active_config cur; c1 = c\<lparr>cf_compression := default_compression cd cur\<rparr> in
      if unchanged prev cur setting_key then c
      else if unchanged prev cur (cf_market \<circ> active_config) then c1
      else if corrected c then c1\<lparr>cf_interval := ''15m''\<rparr> else c1)"
  using market_of_key [of prev cur]
  by (auto simp: settings_effect_def on_change_unchanged setCompressionMultiplier_def setInterval_def Let_def)

lemma settings_effect_market [simp]:
  "cf_market (active_config (settings_effect cd prev cur)) = cf_market (active_config cur)"
  "cf_symbol (active_config (settings_effect cd prev cur)) = cf_symbol (active_config cur)"
  by (simp_all add: settings_effect_active Let_def)

lemma market_settled [simp]: "unchanged (Some cur) (settings_effect cd prev cur) (cf_market \<circ> active_config)"
  by (simp add: unchanged_def)

lemma same_idle: "same_settings cd a b \<Longrightarrow> idle_config a = idle_config b"
  by (simp add: same_settings_def idle_config_def)

lemma setting_key_effect:
  "unchanged prev cur (cf_market \<circ> active_config) \<Longrightarrow> setting_key (settings_effect cd prev cur) = setting_key cur"
  by (simp add: setting_key_def settings_effect_active Let_def)

lemma default_compression_key:
  "setting_key a = setting_key b \<Longrightarrow> ap_store a = ap_store b \<Longrightarrow> default_compression cd a = default_compression cd b"
  by (simp add: default_compression_def setting_key_def Let_def)

lemma settings_effect_cong:
  assumes "same_settings cd p p'" "same_settings cd q q'"
  shows "same_settings cd (settings_effect cd (Some p) q) (settings_effect cd (Some p') q')"
proof -
  have "setting_key p = setting_key p'" "setting_key q = setting_key q'"
    "active_config p = active_config p'" "active_config q = active_config q'"
    using same_active [OF assms(1)] same_active [OF assms(2)] by (simp_all add: setting_key_def)
  moreover have "default_compression cd q = default_compression cd q'" by (rule same_default [OF assms(2)])
  ultimately show ?thesis using assms(2) same_set_active
    unfolding settings_effect_def on_change_unchanged unchanged_def setCompressionMultiplier_def setInterval_def Let_def
    by (simp add: same_set_active)
qed

text \<open>Three passes are enough, and the second does something only when an interval was corrected.\<close>

lemma settle_settings:
  fixes prev cur and cd :: codec
  defines "S1 \<equiv> settings_effect cd prev cur"
  defines "S2 \<equiv> settings_effect cd (Some cur) S1"
  shows "same_settings cd (settle cd pr prev cur) S2"
proof -
  let ?a = "run_effects cd pr prev cur"
  let ?b = "run_effects cd pr (Some cur) ?a"
  have a: "same_settings cd ?a S1" unfolding S1_def by (rule run_effects_settings)
  have b: "same_settings cd ?b S2"
    using same_trans [OF run_effects_settings settings_effect_cong [OF same_refl a]] unfolding S2_def .
  have "same_settings cd (settle cd pr prev cur) (settings_effect cd (Some S1) S2)"
    unfolding settle_def Let_def
    using same_trans [OF run_effects_settings settings_effect_cong [OF a b]] .
  moreover have "setting_key S2 = setting_key S1" unfolding S2_def S1_def by (rule setting_key_effect) simp
  then have "settings_effect cd (Some S1) S2 = S2"
    using market_of_key [of "Some S1" S2] by (simp add: settings_effect_def on_change_unchanged unchanged_def)
  ultimately show ?thesis by simp
qed

lemma settle_active:
  fixes prev cur and cd :: codec and pr :: "number \<Rightarrow> string"
  defines "s \<equiv> settle cd pr prev cur"
  shows "ap_active s = ap_active cur" "idle_config s = idle_config cur"
    and "unchanged prev cur setting_key \<Longrightarrow> active_config s = active_config cur"
    and "\<not> unchanged prev cur setting_key \<Longrightarrow> cf_compression (active_config s) = default_compression cd s"
    and "\<not> unchanged prev cur (cf_market \<circ> active_config) \<Longrightarrow> \<not> corrected (active_config s)"
    and "cf_market (active_config s) = cf_market (active_config cur) \<and> cf_symbol (active_config s) = cf_symbol (active_config cur)"
proof -
  define S1 where "S1 = settings_effect cd prev cur"
  define S2 where "S2 = settings_effect cd (Some cur) S1"
  have s: "same_settings cd s S2" unfolding s_def S2_def S1_def by (rule settle_settings)
  then have sa: "active_config s = active_config S2" "default_compression cd s = default_compression cd S2"
    by (rule same_active, rule same_default)
  show "ap_active s = ap_active cur" "idle_config s = idle_config cur"
    using s same_idle [OF s] by (simp_all add: S2_def S1_def same_settings_def)
  show "active_config s = active_config cur" if "unchanged prev cur setting_key"
  proof -
    have "active_config S1 = active_config cur" using that by (simp add: S1_def settings_effect_active Let_def)
    moreover from this have "unchanged (Some cur) S1 setting_key" by (simp add: unchanged_def setting_key_def)
    ultimately show ?thesis unfolding sa S2_def settings_effect_active by (simp add: Let_def)
  qed
  show "cf_market (active_config s) = cf_market (active_config cur) \<and> cf_symbol (active_config s) = cf_symbol (active_config cur)"
    unfolding sa S2_def S1_def settings_effect_active by (simp add: Let_def)
  show "\<not> corrected (active_config s)" if "\<not> unchanged prev cur (cf_market \<circ> active_config)"
    using that market_of_key [of prev cur] unfolding sa S2_def S1_def settings_effect_active
    by (auto simp: Let_def corrected_def)
  show "cf_compression (active_config s) = default_compression cd s" if ch: "\<not> unchanged prev cur setting_key"
  proof (cases "setting_key cur = setting_key S1")
    case True
    then have "S2 = S1" using market_of_key [of "Some cur" S1]
      by (simp add: S2_def settings_effect_def on_change_unchanged unchanged_def)
    moreover have "default_compression cd S1 = default_compression cd cur"
      using default_compression_key [OF True] by (simp add: S1_def)
    ultimately show ?thesis using ch by (simp add: sa S1_def settings_effect_active Let_def)
  next
    case False
    have "cf_compression (active_config S2) = default_compression cd S1"
      using False unfolding S2_def settings_effect_active by (simp add: Let_def unchanged_def)
    moreover have "default_compression cd S2 = default_compression cd S1"
    proof (rule default_compression_key)
      show "ap_store S2 = ap_store S1" by (simp add: S2_def)
      show "setting_key S2 = setting_key S1" unfolding S2_def S1_def by (rule setting_key_effect) simp
    qed
    ultimately show ?thesis by (simp add: sa)
  qed
qed

section \<open>The user's role\<close>

definition roles :: "string list" where
  "roles = [''Guest'', ''Free'', ''Pro'', ''VIP'', ''Admin'']"

text \<open>The role of a saved user; \<open>None\<close> when \<open>toLowerCase\<close> is called on a tier that is no text.\<close>

definition role_of_user :: "json \<Rightarrow> string option" where
  "role_of_user u =
     (case tier_lower u of
        None \<Rightarrow> None
      | Some tier \<Rightarrow> Some
         (if tier = ''admin'' \<or> prop_is u ''role'' ''Admin'' \<or> prop_is u ''subscriptionLevel'' ''Admin'' then ''Admin''
          else if tier = ''vip'' \<or> prop_is u ''subscriptionLevel'' ''VIP'' then ''VIP''
          else if tier = ''pro'' \<or> prop_is u ''subscriptionLevel'' ''Pro'' then ''Pro''
          else if tier = ''free'' \<or> prop_is u ''subscriptionLevel'' ''Free'' then ''Free''
          else ''Guest''))"

definition init_role :: "codec \<Rightarrow> local_storage \<Rightarrow> string" where
  "init_role cd ls =
     (let savedRole = saved_or ls [''procluster_role''] [] in
      if savedRole \<in> set roles then savedRole
      else let savedUser = storage_getJson cd ls ''procluster_user'' JNull in
        if truthy savedUser then (case role_of_user savedUser of Some r \<Rightarrow> r | None \<Rightarrow> ''Admin'') else ''Admin'')"

definition init_profileUser :: "codec \<Rightarrow> string \<Rightarrow> local_storage \<Rightarrow> json" where
  "init_profileUser cd avatar ls =
     (let saved = storage_getJson cd ls ''procluster_user'' JNull in
      if truthy saved then saved
      else let savedRole = saved_or ls [''procluster_role''] ''Admin'' in
        JObj [(''name'', JStr savedRole),
              (''email'', JStr (if savedRole = ''Guest'' then ''guest@procluster.io''
                                else toLowerCase savedRole @ ''@procluster.io'')),
              (''avatar'', JStr avatar), (''regDate'', JStr ''2026-05-29''),
              (''tier'', JStr (if savedRole \<in> set roles then savedRole else ''Admin''))])"

record account_state =
  ac_role :: string
  ac_profile :: json
  ac_store :: local_storage

text \<open>
  The update handler, run by an event: what it writes at once, and the updates it queues. A queued update is
  a function on the state that runs when the next render begins.
\<close>

definition user_handleUpdate ::
  "codec \<Rightarrow> local_storage \<Rightarrow> local_storage \<times> (account_state \<Rightarrow> account_state) list" where
  "user_handleUpdate cd ls =
     (let saved = storage_getJson cd ls ''procluster_user'' JNull in
      if truthy saved
      then (case role_of_user saved of
              None \<Rightarrow> (ls, [\<lambda>s. s\<lparr>ac_profile := saved\<rparr>])
            | Some nextRole \<Rightarrow>
                (storage_set ''procluster_role'' nextRole ls,
                 [\<lambda>s. s\<lparr>ac_profile := saved\<rparr>, \<lambda>s. s\<lparr>ac_role := nextRole\<rparr>]))
      else (ls, [\<lambda>s. s\<lparr>ac_profile := JNull\<rparr>]))"

definition updated_user :: "string \<Rightarrow> string \<Rightarrow> json \<Rightarrow> json" where
  "updated_user avatar role prev =
     (let newTier = (if role \<in> set roles then role else ''Free'');
          fields = [(''tier'', JStr newTier), (''role'', JStr role), (''subscriptionLevel'', JStr role)]
      in if truthy prev then JObj (spread (obj_of prev) fields)
         else JObj ([(''name'', JStr role),
                     (''email'', JStr (if role = ''Guest'' then ''guest@procluster.io''
                                       else toLowerCase role @ ''@procluster.io'')),
                     (''avatar'', JStr avatar), (''regDate'', JStr ''2026-05-29'')] @ fields))"

text \<open>
  Changing the role: the role is queued and stored, the new profile is queued as a function that also stores it,
  and the event runs its handler before any queued update.
\<close>

definition handleUserRoleChange :: "codec \<Rightarrow> string \<Rightarrow> string \<Rightarrow> account_state \<Rightarrow> account_state" where
  "handleUserRoleChange cd avatar role s =
     (let ls1 = storage_set ''procluster_role'' role (ac_store s);
          (ls2, queued) = user_handleUpdate cd ls1;
          set_profile = (\<lambda>s. let updated = updated_user avatar role (ac_profile s)
                             in s\<lparr>ac_profile := updated, ac_store := storage_setJson cd ''procluster_user'' updated (ac_store s)\<rparr>)
      in fold (\<lambda>u s. u s) ([\<lambda>s. s\<lparr>ac_role := role\<rparr>, set_profile] @ queued) (s\<lparr>ac_store := ls2\<rparr>))"

section \<open>Indicators\<close>

record indicator_module =
  im_id :: string
  im_label :: string
  im_isActiveDefault :: "bool option"
  im_defaultSettings :: jobj

text \<open>An indicator with the values read back from storage, which may be any JSON; \<open>None\<close> is undefined.\<close>

record loaded_indicator =
  li_id :: string
  li_label :: string
  li_isActive :: "json option"
  li_isFavorite :: "json option"
  li_settings :: jobj

definition default_indicator :: "indicator_module \<Rightarrow> loaded_indicator" where
  "default_indicator m =
     \<lparr>li_id = im_id m, li_label = im_label m,
      li_isActive = Some (JBool (case im_isActiveDefault m of Some b \<Rightarrow> b | None \<Rightarrow> False)),
      li_isFavorite = Some (JBool True), li_settings = im_defaultSettings m\<rparr>"

definition restore_indicator :: "json list \<Rightarrow> loaded_indicator \<Rightarrow> loaded_indicator" where
  "restore_indicator parsed defl =
     (case find (\<lambda>item. truthy item \<and> jprop item ''id'' = Some (JStr (li_id defl))) parsed of
        None \<Rightarrow> defl
      | Some matched \<Rightarrow>
          defl\<lparr>li_isActive := jprop matched ''isActive'',
               li_isFavorite := (case jprop matched ''isFavorite'' of None \<Rightarrow> li_isFavorite defl | Some v \<Rightarrow> Some v),
               li_settings := (if truthy_opt (jprop matched ''settings'')
                               then spread (li_settings defl) (obj_of (the (jprop matched ''settings'')))
                               else li_settings defl)\<rparr>)"

definition init_indicators :: "indicator_module list \<Rightarrow> json \<Rightarrow> loaded_indicator list" where
  "init_indicators modules parsed =
     (case parsed of
        JArr items \<Rightarrow> map (restore_indicator items \<circ> default_indicator) modules
      | _ \<Rightarrow> map default_indicator modules)"

section \<open>Lemmas on roles\<close>

lemma lower_roles:
  "toLowerCase ''Guest'' = ''guest''" "toLowerCase ''Free'' = ''free''" "toLowerCase ''Pro'' = ''pro''"
  "toLowerCase ''VIP'' = ''vip''" "toLowerCase ''Admin'' = ''admin''"
  by code_simp+

lemma updated_user_props:
  "jprop (updated_user avatar role prev) ''tier'' = Some (JStr (if role \<in> set roles then role else ''Free''))"
  "jprop (updated_user avatar role prev) ''role'' = Some (JStr role)"
  "jprop (updated_user avatar role prev) ''subscriptionLevel'' = Some (JStr role)"
  by (simp_all add: updated_user_def Let_def)

lemma truthy_updated_user [simp]: "truthy (updated_user avatar role prev)"
  by (simp add: updated_user_def Let_def)

lemma role_of_fields:
  assumes "jprop u ''tier'' = Some (JStr r)" "jprop u ''role'' = Some (JStr r)" "jprop u ''subscriptionLevel'' = Some (JStr r)"
    and "r = ''Guest'' \<or> r = ''Free'' \<or> r = ''Pro'' \<or> r = ''VIP'' \<or> r = ''Admin''"
  shows "role_of_user u = Some r"
proof -
  have "tier_lower u = Some (toLowerCase r)" using assms by (auto simp: tier_lower_def str_prop_or_def)
  moreover have "prop_is u ''role'' t \<longleftrightarrow> r = t" "prop_is u ''subscriptionLevel'' t \<longleftrightarrow> r = t" for t
    using assms by (simp_all add: prop_is_def)
  ultimately show ?thesis using assms(4) by (elim disjE) (simp_all add: role_of_user_def lower_roles)
qed

lemma role_of_updated_user: "role \<in> set roles \<Longrightarrow> role_of_user (updated_user avatar role prev) = Some role"
  by (rule role_of_fields) (simp_all only: updated_user_props if_True, simp add: roles_def)

text \<open>A change of role with and without a saved user.\<close>

lemma role_change_unsaved:
  assumes "storage_getJson cd (ac_store s) ''procluster_user'' JNull = JNull"
  shows "handleUserRoleChange cd avatar role s =
     s\<lparr>ac_role := role, ac_profile := JNull,
       ac_store := storage_setJson cd ''procluster_user'' (updated_user avatar role (ac_profile s))
                     (storage_set ''procluster_role'' role (ac_store s))\<rparr>"
  using assms
  by (simp add: handleUserRoleChange_def user_handleUpdate_def Let_def storage_getJson_set_other)

lemma role_change_saved:
  assumes "storage_getJson cd (ac_store s) ''procluster_user'' JNull = u" "truthy u" "role_of_user u = Some r"
  shows "ac_role (handleUserRoleChange cd avatar role s) = r"
    "ac_profile (handleUserRoleChange cd avatar role s) = u"
    "ac_store (handleUserRoleChange cd avatar role s) =
       storage_setJson cd ''procluster_user'' (updated_user avatar role (ac_profile s))
         (storage_set ''procluster_role'' r (storage_set ''procluster_role'' role (ac_store s)))"
  using assms
  by (simp_all add: handleUserRoleChange_def user_handleUpdate_def Let_def storage_getJson_set_other)

text \<open>A storage that accepts every write stays one.\<close>

definition accepting :: "local_storage \<Rightarrow> bool" where
  "accepting ls \<longleftrightarrow> \<not> ls_denied ls \<and> (\<forall>k v. \<not> ls_quota ls k v)"

lemma accepting_set [simp]: "accepting ls \<Longrightarrow> accepting (storage_set k v ls)"
  by (simp add: accepting_def storage_set_def setItem_def)

lemma accepting_setJson [simp]: "accepting ls \<Longrightarrow> accepting (storage_setJson cd k v ls)"
  by (simp add: storage_setJson_def split: option.split)

lemma accepting_writable: "accepting ls \<Longrightarrow> writable ls k v"
  by (simp add: accepting_def writable_def)

definition saved_back :: "codec \<Rightarrow> json \<Rightarrow> bool" where
  "saved_back cd v \<longleftrightarrow>
     (case json_stringify cd v of None \<Rightarrow> False | Some raw \<Rightarrow> json_parse cd raw = Some v)"

lemma getJson_saved_back: "accepting ls \<Longrightarrow> saved_back cd v \<Longrightarrow> storage_getJson cd (storage_setJson cd k v ls) k d = v"
  by (auto simp: saved_back_def intro: storage_getJson_setJson accepting_writable split: option.splits)

section \<open>Properties\<close>


text \<open>
  A saved compression does not survive a reload of the first chart: after the page has loaded, its compression is the
  default of its setting, whatever multiplier was stored, while the second chart gets its stored one.
\<close>

theorem reload_forgets_compression:
  fixes ls :: local_storage and cd :: codec and pr :: "number \<Rightarrow> string"
  defines "s \<equiv> mount cd pr ls"
  shows "cf_compression (ap_config0 s) = default_compression cd s \<and>
         cf_compression (ap_config1 s) = saved_multiplier ls [''procluster_compression_multiplier_1''] \<and>
         \<not> corrected (ap_config0 s)"
proof -
  let ?i = "\<lparr>ap_config0 = init_config0 ls, ap_config1 = init_config1 ls, ap_active = 0, ap_store = ls\<rparr>"
  note st = settle_active [where prev = None and cur = ?i and cd = cd and pr = pr]
  have "ap_active s = 0" using st(1) by (simp add: s_def mount_def)
  then have "active_config s = ap_config0 s" "idle_config s = ap_config1 s" by (simp_all add: active_config_def idle_config_def)
  moreover have "idle_config s = init_config1 ls" using st(2) by (simp add: s_def mount_def idle_config_def)
  ultimately show ?thesis using st(4,5)
    by (simp add: s_def mount_def unchanged_def init_config1_def)
qed

text \<open>
  The role lags one change behind: with no saved user, the first change takes effect, but loses the profile; from then on
  every change puts the role of the previous one in force, because the event handler reads the saved user before
  the queued update that stores the new one has run.
\<close>

theorem role_change_lags_behind:
  fixes s :: account_state and avatar r1 r2 r3 :: string
  assumes "storage_getJson cd (ac_store s) ''procluster_user'' JNull = JNull" "accepting (ac_store s)"
    and "{r1, r2, r3} \<subseteq> set roles"
    and "saved_back cd (updated_user avatar r1 (ac_profile s))" "saved_back cd (updated_user avatar r2 JNull)"
  defines "s1 \<equiv> handleUserRoleChange cd avatar r1 s"
  defines "s2 \<equiv> handleUserRoleChange cd avatar r2 s1"
  defines "s3 \<equiv> handleUserRoleChange cd avatar r3 s2"
  shows "ac_role s1 = r1 \<and> ac_profile s1 = JNull \<and> ac_role s2 = r1 \<and> ac_role s3 = r2 \<and>
         storage_get (ac_store s3) ''procluster_role'' = Some r2"
proof -
  let ?u1 = "updated_user avatar r1 (ac_profile s)" and ?u2 = "updated_user avatar r2 JNull"
  have s1: "s1 = s\<lparr>ac_role := r1, ac_profile := JNull,
      ac_store := storage_setJson cd ''procluster_user'' ?u1 (storage_set ''procluster_role'' r1 (ac_store s))\<rparr>"
    unfolding s1_def by (rule role_change_unsaved [OF assms(1)])
  have g1: "storage_getJson cd (ac_store s1) ''procluster_user'' JNull = ?u1"
    using assms(2,4) by (simp add: s1 getJson_saved_back)
  have acc1: "accepting (ac_store s1)" using assms(2) by (simp add: s1)
  note c2 = role_change_saved [OF g1 truthy_updated_user role_of_updated_user, of avatar r2]
  have s2: "ac_role s2 = r1" "ac_store s2 = storage_setJson cd ''procluster_user'' ?u2
      (storage_set ''procluster_role'' r1 (storage_set ''procluster_role'' r2 (ac_store s1)))"
    using c2 assms(3) by (simp_all add: s2_def) (simp add: s1)
  have g2: "storage_getJson cd (ac_store s2) ''procluster_user'' JNull = ?u2" and acc2: "accepting (ac_store s2)"
    using acc1 assms(5) by (simp_all add: s2 getJson_saved_back)
  note c3 = role_change_saved [OF g2 truthy_updated_user role_of_updated_user, of avatar r3]
  have "ac_role s3 = r2" "storage_get (ac_store s3) ''procluster_role'' = Some r2"
    using c3 assms(3) accepting_writable [of "storage_set ''procluster_role'' r3 (ac_store s2)"] acc2
    by (simp_all add: s3_def storage_get_setJson_other ls.get_put)
  then show ?thesis using s2(1) by (simp add: s1)
qed

text \<open>
  Restoring keeps the list of indicators complete: whatever was saved, there is exactly one entry per module, in the
  order of the modules, and every default setting is still there, with the saved value where one was saved under its name.
\<close>

theorem restored_indicators_complete:
  "map li_id (init_indicators modules parsed) = map im_id modules \<and>
   (\<forall>i < length modules. \<forall>k. k \<in> dom (map_of (im_defaultSettings (modules ! i))) \<longrightarrow>
      k \<in> dom (map_of (li_settings (init_indicators modules parsed ! i))))"
proof -
  have d: "li_id (default_indicator m) = im_id m" "li_settings (default_indicator m) = im_defaultSettings m" for m
    by (simp_all add: default_indicator_def)
  have i: "li_id (restore_indicator ps x) = li_id x" for ps x
    by (simp add: restore_indicator_def split: option.split)
  have r: "k \<in> dom (map_of (li_settings (restore_indicator ps (default_indicator m))))"
    if "k \<in> dom (map_of (im_defaultSettings m))" for ps m k
    using that d(2) [of m] by (auto simp: restore_indicator_def split: option.split)
  show ?thesis
  proof (cases "\<exists>ps. parsed = JArr ps")
    case True
    then obtain ps where "parsed = JArr ps" by blast
    then show ?thesis using r by (simp add: init_indicators_def comp_def i d)
  next
    case False
    then have "init_indicators modules parsed = map default_indicator modules"
      by (simp add: init_indicators_def split: json.split)
    then show ?thesis by (simp add: comp_def d)
  qed
qed

lemma sanitize_pair_fields:
  assumes "original_of known q = Some k"
  defines "q' \<equiv> sanitize_pair known q"
  shows "k' \<noteq> ''price'' \<Longrightarrow> k' \<noteq> ''priceStep'' \<Longrightarrow> map_of q' k' = map_of q k'"
    "\<exists>x. to_number (map_of q' ''price'') = Some x \<and>
         (x = pair_price k \<or> pair_price k / 10 < x \<and> x < pair_price k * 10)"
    "\<exists>x. map_of q' ''priceStep'' = Some (JNum x) \<and> (0 < x \<or> x = pair_priceStep k)"
proof -
  define A where "A \<longleftrightarrow> (case to_number (map_of q ''price'') of
                   Some x \<Rightarrow> x > pair_price k * (1 / 10) \<and> x < pair_price k * 10 | None \<Rightarrow> False)"
  define B where "B \<longleftrightarrow> (case num_prop q ''priceStep'' of Some x \<Rightarrow> x > 0 | None \<Rightarrow> False)"
  define q1 where "q1 = (if A then q else obj_set ''price'' (JNum (pair_price k)) q)"
  have q': "q' = (if B then q1 else obj_set ''priceStep'' (JNum (pair_priceStep k)) q1)"
    by (simp add: q'_def sanitize_pair_def assms(1) Let_def A_def B_def q1_def)
  show "map_of q' k' = map_of q k'" if "k' \<noteq> ''price''" "k' \<noteq> ''priceStep''"
    using that by (simp add: q' q1_def)
  show "\<exists>x. to_number (map_of q' ''price'') = Some x \<and>
         (x = pair_price k \<or> pair_price k / 10 < x \<and> x < pair_price k * 10)"
  proof (cases A)
    case True
    then have "map_of q' ''price'' = map_of q ''price''" by (simp add: q' q1_def)
    then show ?thesis using True by (auto simp: A_def split: option.splits)
  next
    case False
    then have "map_of q' ''price'' = Some (JNum (pair_price k))" by (simp add: q' q1_def)
    then show ?thesis by (simp add: to_number_def)
  qed
  show "\<exists>x. map_of q' ''priceStep'' = Some (JNum x) \<and> (0 < x \<or> x = pair_priceStep k)"
    by (cases B) (auto simp: q' q1_def B_def num_prop_def split: option.splits json.splits)
qed

text \<open>
  Loaded pairs are known and sane: whatever JSON was saved, at least one pair is loaded, each carries the symbol of a known
  pair, a positive price step, and a price that is that pair's own or within a factor of ten of it.
\<close>

theorem loaded_pairs_are_sane:
  assumes "known \<noteq> []" "\<forall>k \<in> set known. 0 < pair_priceStep k" "p \<in> set (load_pairs known parsed)"
  shows "\<exists>k \<in> set known. map_of p ''symbol'' = Some (JStr (pair_symbol k)) \<and>
           (\<exists>st. map_of p ''priceStep'' = Some (JNum st) \<and> 0 < st) \<and>
           (\<exists>x. to_number (map_of p ''price'') = Some x \<and>
              (x = pair_price k \<or> pair_price k / 10 < x \<and> x < pair_price k * 10))"
proof -
  have own: ?thesis if "p \<in> set (map pair_json known)"
    using that assms(2) by (force simp: pair_json_def to_number_def)
  have san: "\<exists>k \<in> set known. map_of (sanitize_pair known q) ''symbol'' = Some (JStr (pair_symbol k)) \<and>
           (\<exists>st. map_of (sanitize_pair known q) ''priceStep'' = Some (JNum st) \<and> 0 < st) \<and>
           (\<exists>x. to_number (map_of (sanitize_pair known q) ''price'') = Some x \<and>
              (x = pair_price k \<or> pair_price k / 10 < x \<and> x < pair_price k * 10))"
    if "original_of known q \<noteq> None" for q
  proof -
    obtain k where k: "original_of known q = Some k" using \<open>original_of known q \<noteq> None\<close> by auto
    then have kin: "k \<in> set known" "map_of q ''symbol'' = Some (JStr (pair_symbol k))"
      by (auto simp: original_of_def find_Some_iff)
    have "0 < pair_priceStep k" using assms(2) kin by blast
    have "map_of (sanitize_pair known q) ''symbol'' = Some (JStr (pair_symbol k))"
      using sanitize_pair_fields(1) [OF k, of "''symbol''"] kin(2) by simp
    moreover have "\<exists>st. map_of (sanitize_pair known q) ''priceStep'' = Some (JNum st) \<and> 0 < st"
      using sanitize_pair_fields(3) [OF k] \<open>0 < pair_priceStep k\<close> by blast
    ultimately show ?thesis using sanitize_pair_fields(2) [OF k] kin(1) by blast
  qed
  show ?thesis
    using assms(3) own san by (auto simp: load_pairs_def Let_def split: json.splits if_splits)
qed

text \<open>
  Saved prices are never used: the known pairs carry the price 0, so no saved price counts as reasonable, and every
  loaded pair has the price 0 again.
\<close>

theorem saved_prices_are_dropped:
  "\<forall>p \<in> set (load_pairs EMPTY_PAIRS parsed). map_of p ''price'' = Some (JNum 0)"
proof -
  have k: "pair_price k = 0" if "original_of EMPTY_PAIRS q = Some k" for q k
    using that by (auto simp: original_of_def EMPTY_PAIRS_def split: if_splits)
  have "map_of (sanitize_pair EMPTY_PAIRS q) ''price'' = Some (JNum 0)" if q: "original_of EMPTY_PAIRS q = Some k" for q k
    using k [OF q] q by (auto simp: sanitize_pair_def Let_def split: option.splits)
  moreover have "\<forall>p \<in> set (map pair_json EMPTY_PAIRS). map_of p ''price'' = Some (JNum 0)"
    by (simp add: EMPTY_PAIRS_def pair_json_def)
  ultimately show ?thesis by (auto simp: load_pairs_def Let_def split: json.splits if_splits)
qed

text \<open>
  Toggling a favorite changes its membership and nothing else: the symbol is in the list if and only if it was not, every
  other entry of both markets stays, and toggling twice gives the same set.
\<close>

theorem favorite_toggles_membership:
  fixes f :: favorites and cd :: codec and ls :: local_storage and m :: market and symbol :: string
  defines "f' \<equiv> fst (toggleFavorite cd symbol m (f, ls))"
  shows "(JStr symbol \<in> set (fav_list m f')) = (JStr symbol \<notin> set (fav_list m f)) \<and>
         filter (\<lambda>x. x \<noteq> JStr symbol) (fav_list m f') = filter (\<lambda>x. x \<noteq> JStr symbol) (fav_list m f) \<and>
         (\<forall>m'. m' \<noteq> m \<longrightarrow> fav_list m' f' = fav_list m' f) \<and>
         set (fav_list m (fst (toggleFavorite cd symbol m (f', ls)))) = set (fav_list m f)"
  by (cases m) (auto simp: f'_def toggleFavorite_def fav_list_def toggle_list_def Let_def split: market.split)

section \<open>Witnesses\<close>

definition wit_config :: "string \<Rightarrow> number \<Rightarrow> config" where
  "wit_config i n = \<lparr>cf_symbol = ''BTCUSDT'', cf_interval = i, cf_market = SPOT, cf_candleType = ''auto'',
     cf_candleDataType = ''bid_ask'', cf_candlePalette = ''default'', cf_compression = n\<rparr>"

definition wit_store0 :: local_storage where
  "wit_store0 = \<lparr>ls_items = Map.empty, ls_denied = False, ls_quota = (\<lambda>_ _. False)\<rparr>"

definition wit_app :: app where
  "wit_app = \<lparr>ap_config0 = wit_config ''15m'' 1, ap_config1 = wit_config ''1h'' 4, ap_active = 0, ap_store = wit_store0\<rparr>"

definition wit_no_json :: codec where
  "wit_no_json = \<lparr>json_stringify = (\<lambda>_. None), json_parse = (\<lambda>_. None)\<rparr>"

lemma wit_default_compression:
  "cf_market (active_config a) = SPOT \<Longrightarrow> default_compression wit_no_json a = 1"
  by (simp add: default_compression_def storage_getJson_def wit_no_json_def loadDefaultCompressionForPair_def
      Let_def split: option.split)


definition wit_u1 :: json where "wit_u1 = updated_user [] ''Pro'' JNull"
definition wit_u2 :: json where "wit_u2 = updated_user [] ''VIP'' JNull"

definition wit_user_codec :: codec where
  "wit_user_codec =
     \<lparr>json_stringify = (\<lambda>v. if v = wit_u1 then Some ''1'' else if v = wit_u2 then Some ''2'' else None),
      json_parse = (\<lambda>t. if t = ''1'' then Some wit_u1 else if t = ''2'' then Some wit_u2 else None)\<rparr>"

definition wit_account :: account_state where
  "wit_account = \<lparr>ac_role = ''Admin'', ac_profile = JNull, ac_store = wit_store0\<rparr>"

theorem role_change_lags_behind_witness:
  "ac_role (handleUserRoleChange wit_user_codec [] ''VIP'' (handleUserRoleChange wit_user_codec [] ''Pro'' wit_account)) = ''Pro''"
proof -
  have "storage_getJson wit_user_codec (ac_store wit_account) ''procluster_user'' JNull = JNull"
    by (simp add: wit_account_def wit_store0_def storage_getJson_def storage_get_def getItem_def)
  moreover have "accepting (ac_store wit_account)" by (simp add: wit_account_def wit_store0_def accepting_def)
  moreover have "{''Pro'', ''VIP'', ''Free''} \<subseteq> set roles" by (simp add: roles_def)
  moreover have "wit_u1 \<noteq> wit_u2" by (simp add: wit_u1_def wit_u2_def updated_user_def)
  then have "saved_back wit_user_codec (updated_user [] ''Pro'' (ac_profile wit_account))"
    "saved_back wit_user_codec (updated_user [] ''VIP'' JNull)"
    by (simp_all add: saved_back_def wit_user_codec_def wit_account_def wit_u1_def [symmetric] wit_u2_def [symmetric])
  ultimately show ?thesis using role_change_lags_behind [of wit_user_codec wit_account "''Pro''" "''VIP''" "''Free''" "[]"] by simp
qed

definition wit_module :: indicator_module where
  "wit_module = \<lparr>im_id = ''cvd'', im_label = [], im_isActiveDefault = Some True, im_defaultSettings = [(''smoothing'', JNum 10)]\<rparr>"

theorem restored_indicators_complete_witness:
  "''smoothing'' \<in> dom (map_of (li_settings (init_indicators [wit_module]
     (JArr [JObj [(''id'', JStr ''cvd''), (''settings'', JObj [(''x'', JNull)])]]) ! 0)))"
  using restored_indicators_complete [of "[wit_module]" "JArr [JObj [(''id'', JStr ''cvd''), (''settings'', JObj [(''x'', JNull)])]]"]
  by (simp add: wit_module_def)

definition wit_saved_pair :: jobj where
  "wit_saved_pair = [(''symbol'', JStr ''BTCUSDT''), (''price'', JNum 64000), (''priceStep'', JNum 0)]"

lemma wit_loaded_pair:
  "load_pairs EMPTY_PAIRS (JArr [JObj wit_saved_pair]) = [sanitize_pair EMPTY_PAIRS wit_saved_pair]"
  by (simp add: load_pairs_def original_of_def EMPTY_PAIRS_def wit_saved_pair_def)

theorem loaded_pairs_are_sane_witness:
  "\<exists>st. map_of (sanitize_pair EMPTY_PAIRS wit_saved_pair) ''priceStep'' = Some (JNum st) \<and> 0 < st"
proof -
  have "EMPTY_PAIRS \<noteq> []" "\<forall>k \<in> set EMPTY_PAIRS. 0 < pair_priceStep k"
    by (simp_all add: EMPTY_PAIRS_def)
  from loaded_pairs_are_sane [OF this, of "sanitize_pair EMPTY_PAIRS wit_saved_pair" "JArr [JObj wit_saved_pair]"]
  show ?thesis by (auto simp: wit_loaded_pair)
qed

theorem saved_prices_are_dropped_witness:
  "map_of (sanitize_pair EMPTY_PAIRS wit_saved_pair) ''price'' = Some (JNum 0)"
  using saved_prices_are_dropped [of "JArr [JObj wit_saved_pair]"] by (simp add: wit_loaded_pair)

theorem favorite_toggles_membership_witness:
  "JStr ''A'' \<in> set (fav_list SPOT (fst (toggleFavorite wit_no_json ''A'' SPOT (\<lparr>fav_SPOT = [], fav_FUTURES = []\<rparr>, wit_store0))))"
  using favorite_toggles_membership [of "''A''" SPOT wit_no_json "\<lparr>fav_SPOT = [], fav_FUTURES = []\<rparr>" wit_store0]
  by (simp add: fav_list_def)

end
