(* ===== verification/IndicatorDialog.thy ===== *)
theory IndicatorDialog
  imports AppState ClusterSearch
begin

text \<open>
  The indicator dialog (\<open>frontend-chart/src/components/IndicatorsModal.tsx\<close>) with the part of
  \<open>App.tsx\<close> it works for: the list of indicators, what the charts show of it and the buttons of the
  charts that change it.

  The dialog edits a draft, a copy of the list that its opening effect makes; \<open>handleApply\<close> hands the draft
  back. The window is dragged and resized by listeners that the effects attach while the flag of the gesture is
  set, so a mouse event is handled by the listeners of the flags that are set.
\<close>

section \<open>State\<close>

type_synonym point = "number \<times> number"

record dialog =
  dg_isOpen :: bool
  dg_indicators :: "indicator list"
  dg_draft :: "indicator list"
  dg_searchQuery :: string
  dg_selectedId :: string
  dg_expandedTabs :: "category \<Rightarrow> bool"
  dg_size :: point
  dg_offset :: point
  dg_resizing :: bool
  dg_resizeStart :: point
  dg_sizeStart :: point
  dg_resizeOffsetStart :: point
  dg_dragging :: bool
  dg_dragStart :: point
  dg_modalOffset :: point

definition init_dialog :: "indicator list \<Rightarrow> dialog" where
  "init_dialog inds =
     \<lparr>dg_isOpen = False, dg_indicators = inds, dg_draft = [], dg_searchQuery = [],
      dg_selectedId = ''clusterSearch'', dg_expandedTabs = (\<lambda>tab. tab = AllIndicators),
      dg_size = (855, 580), dg_offset = (0, 0), dg_resizing = False, dg_resizeStart = (0, 0),
      dg_sizeStart = (855, 580), dg_resizeOffsetStart = (0, 0), dg_dragging = False, dg_dragStart = (0, 0),
      dg_modalOffset = (0, 0)\<rparr>"

section \<open>Opening, the draft and the host\<close>

text \<open>The effect of a change of \<open>isOpen\<close> or of the list of indicators.\<close>

definition open_effect :: "dialog \<Rightarrow> dialog" where
  "open_effect d =
     (if dg_isOpen d then d\<lparr>dg_draft := dg_indicators d, dg_offset := (0, 0), dg_size := (855, 580)\<rparr> else d)"

definition show_dialog :: "dialog \<Rightarrow> dialog" where
  "show_dialog d = (if dg_isOpen d then d else open_effect (d\<lparr>dg_isOpen := True\<rparr>))"

definition close_dialog :: "dialog \<Rightarrow> dialog" where
  "close_dialog d = d\<lparr>dg_isOpen := False\<rparr>"

definition handleApply :: "dialog \<Rightarrow> dialog" where
  "handleApply d = open_effect (close_dialog (d\<lparr>dg_indicators := dg_draft d\<rparr>))"

text \<open>What a chart shows: the first indicator with one of the identifiers is active and not hidden.\<close>

definition shown_on_chart :: "string list \<Rightarrow> indicator list \<Rightarrow> bool" where
  "shown_on_chart ids inds =
     (case find (\<lambda>i. ind_id i \<in> set ids) inds of
        None \<Rightarrow> False
      | Some i \<Rightarrow> ind_isActive i \<and> ind_isVisible i \<noteq> Some False)"

text \<open>The buttons of a panel of the chart, which act on the list at once.\<close>

definition map_id :: "string \<Rightarrow> (indicator \<Rightarrow> indicator) \<Rightarrow> indicator list \<Rightarrow> indicator list" where
  "map_id k f = map (\<lambda>i. if ind_id i = k then f i else i)"

definition onToggleIndicator :: "string \<Rightarrow> dialog \<Rightarrow> dialog" where
  "onToggleIndicator k d =
     open_effect (d\<lparr>dg_indicators := map_id k (\<lambda>i. i\<lparr>ind_isActive := \<not> ind_isActive i\<rparr>) (dg_indicators d)\<rparr>)"

definition onRemoveIndicator :: "string \<Rightarrow> dialog \<Rightarrow> dialog" where
  "onRemoveIndicator k d =
     open_effect (d\<lparr>dg_indicators := map_id k (\<lambda>i. i\<lparr>ind_isActive := False\<rparr>) (dg_indicators d)\<rparr>)"

section \<open>Editing the draft\<close>

definition map_draft :: "(indicator list \<Rightarrow> indicator list) \<Rightarrow> dialog \<Rightarrow> dialog" where
  "map_draft f d = d\<lparr>dg_draft := f (dg_draft d)\<rparr>"

definition active_count :: "indicator list \<Rightarrow> nat" where
  "active_count inds = length (filter ind_isActive inds)"

text \<open>\<open>n >= limits.maxIndicators\<close>; a limit that is not a number in any sense bounds nothing.\<close>

definition at_limit :: "jobj \<Rightarrow> nat \<Rightarrow> bool" where
  "at_limit limits n =
     (case to_number (map_of limits ''maxIndicators'') of None \<Rightarrow> False | Some m \<Rightarrow> real n \<ge> m)"

definition toggleActive :: "jobj \<Rightarrow> string \<Rightarrow> dialog \<Rightarrow> dialog" where
  "toggleActive limits k d =
     (if (case find (\<lambda>i. ind_id i = k) (dg_draft d) of
            None \<Rightarrow> False
          | Some target \<Rightarrow> \<not> ind_isActive target \<and> at_limit limits (active_count (dg_draft d)))
      then d
      else map_draft (map_id k (\<lambda>i. i\<lparr>ind_isActive := \<not> ind_isActive i\<rparr>)) d)"

definition toggleFavorite :: "string \<Rightarrow> dialog \<Rightarrow> dialog" where
  "toggleFavorite k = map_draft (map_id k (\<lambda>i. i\<lparr>ind_isFavorite := \<not> ind_isFavorite i\<rparr>))"

definition deactivateIndicator :: "string \<Rightarrow> dialog \<Rightarrow> dialog" where
  "deactivateIndicator k = map_draft (map_id k (\<lambda>i. i\<lparr>ind_isActive := False\<rparr>))"

definition toggleVisibility :: "string \<Rightarrow> dialog \<Rightarrow> dialog" where
  "toggleVisibility k = map_draft (map_id k (\<lambda>i. i\<lparr>ind_isVisible := Some (ind_isVisible i = Some False)\<rparr>))"

definition selectedIndicator :: "dialog \<Rightarrow> indicator option" where
  "selectedIndicator d =
     (case find (\<lambda>i. ind_id i = dg_selectedId d) (dg_draft d) of
        Some i \<Rightarrow> Some i
      | None \<Rightarrow> js_nth (dg_draft d) 0)"

definition updateSettings :: "jobj \<Rightarrow> dialog \<Rightarrow> dialog" where
  "updateSettings updates d =
     (case selectedIndicator d of
        None \<Rightarrow> d
      | Some s \<Rightarrow> map_draft (map_id (ind_id s) (\<lambda>i. i\<lparr>ind_settings := spread (ind_settings i) updates\<rparr>)) d)"

definition index_of :: "string \<Rightarrow> indicator list \<Rightarrow> nat option" where
  "index_of k xs = find (\<lambda>i. ind_id (xs ! i) = k) [0..<length xs]"

definition prev_active :: "indicator list \<Rightarrow> nat \<Rightarrow> nat option" where
  "prev_active xs i = find (\<lambda>j. ind_isActive (xs ! j)) (rev [0..<i])"

definition next_active :: "indicator list \<Rightarrow> nat \<Rightarrow> nat option" where
  "next_active xs i = find (\<lambda>j. ind_isActive (xs ! j)) [Suc i..<length xs]"

definition swap_at :: "nat \<Rightarrow> nat \<Rightarrow> 'a list \<Rightarrow> 'a list" where
  "swap_at i j xs = xs[i := xs ! j, j := xs ! i]"

datatype direction = Up | Down

definition move_in :: "string \<Rightarrow> direction \<Rightarrow> indicator list \<Rightarrow> indicator list" where
  "move_in k dir xs =
     (case index_of k xs of
        None \<Rightarrow> xs
      | Some i \<Rightarrow>
          (case (if dir = Up then prev_active xs i else next_active xs i) of
             None \<Rightarrow> xs
           | Some j \<Rightarrow> swap_at i j xs))"

definition moveIndicator :: "string \<Rightarrow> direction \<Rightarrow> dialog \<Rightarrow> dialog" where
  "moveIndicator k dir = map_draft (move_in k dir)"

section \<open>The lists of the side bar\<close>

definition toggleTabExpanded :: "category \<Rightarrow> dialog \<Rightarrow> dialog" where
  "toggleTabExpanded tab d = d\<lparr>dg_expandedTabs := (dg_expandedTabs d)(tab := \<not> dg_expandedTabs d tab)\<rparr>"

text \<open>\<open>s.trim() !== ""\<close>, and \<open>s.replace(p, "")\<close> for a nonempty text.\<close>

definition not_blank :: "string \<Rightarrow> bool" where
  "not_blank s \<longleftrightarrow> (\<exists>c \<in> set s. \<not> is_space c)"

fun remove_first :: "string \<Rightarrow> string \<Rightarrow> string" where
  "remove_first p [] = []"
| "remove_first p (c # s) = (if startsWith (c # s) p then drop (length p) (c # s) else c # remove_first p s)"

definition isSectionExpanded :: "category \<Rightarrow> dialog \<Rightarrow> bool" where
  "isSectionExpanded tab d \<longleftrightarrow> not_blank (dg_searchQuery d) \<or> dg_expandedTabs d tab"

definition getAccordionIndicators :: "category \<Rightarrow> dialog \<Rightarrow> indicator list" where
  "getAccordionIndicators tab d =
     filter (\<lambda>i. \<not> (tab = Favorites \<and> \<not> ind_isFavorite i) \<and>
                 \<not> (tab = Community \<and> ind_category i \<noteq> Community) \<and>
                 (not_blank (dg_searchQuery d) \<longrightarrow>
                    str_includes (toLowerCase (remove_first ''(PROCLUSTER) '' (ind_label i)))
                                 (toLowerCase (dg_searchQuery d))))
       (dg_draft d)"

definition addedIndicators :: "dialog \<Rightarrow> indicator list" where
  "addedIndicators d = filter ind_isActive (dg_draft d)"

section \<open>Number inputs of the cluster search\<close>

text \<open>The parsed number is an argument, \<open>None\<close> for \<open>NaN\<close>; \<open>or_nan v e\<close> is \<open>v || e\<close>.\<close>

definition or_nan :: "number option \<Rightarrow> number \<Rightarrow> number" where
  "or_nan v e = (case v of None \<Rightarrow> e | Some n \<Rightarrow> or_else n e)"

definition volume_input :: "number option \<Rightarrow> number" where
  "volume_input v = or_nan v 0"

definition merge_input :: "number option \<Rightarrow> number" where
  "merge_input v = max 1 (or_nan v 1)"

definition imbalance_input :: "number option \<Rightarrow> number" where
  "imbalance_input v = max 50 (min 100 (or_nan v 50))"

definition min_delta_input :: "number option \<Rightarrow> number" where
  "min_delta_input v = max 0 (or_nan v 0)"

section \<open>Saving the list\<close>

text \<open>
  The object that is saved for an indicator. The texts of its category and its type, which nothing reads back,
  are arguments; an absent visibility is not written.
\<close>

definition indicator_json :: "(category \<Rightarrow> json) \<Rightarrow> (indicator_type \<Rightarrow> json) \<Rightarrow> indicator \<Rightarrow> json" where
  "indicator_json ct tt i =
     JObj ([(''id'', JStr (ind_id i)), (''label'', JStr (ind_label i)), (''category'', ct (ind_category i)),
            (''type'', tt (ind_type i)), (''isFavorite'', JBool (ind_isFavorite i)),
            (''isActive'', JBool (ind_isActive i)), (''settings'', JObj (ind_settings i))] @
           (case ind_isVisible i of None \<Rightarrow> [] | Some b \<Rightarrow> [(''isVisible'', JBool b)]))"

text \<open>The effect of a changed list, and the list after a reload.\<close>

definition save_indicators ::
  "codec \<Rightarrow> (category \<Rightarrow> json) \<Rightarrow> (indicator_type \<Rightarrow> json) \<Rightarrow> indicator list \<Rightarrow> local_storage \<Rightarrow> local_storage" where
  "save_indicators cd ct tt inds ls =
     storage_setJson cd ''procluster_indicators'' (JArr (map (indicator_json ct tt) inds)) ls"

definition load_indicators :: "codec \<Rightarrow> indicator_module list \<Rightarrow> local_storage \<Rightarrow> loaded_indicator list" where
  "load_indicators cd modules ls = init_indicators modules (storage_getJson cd ls ''procluster_indicators'' JNull)"

section \<open>Dragging and resizing the window\<close>

definition handleMouseDown :: "bool \<Rightarrow> nat \<Rightarrow> point \<Rightarrow> dialog \<Rightarrow> dialog" where
  "handleMouseDown on_control button p d =
     (if on_control then d
      else if button \<noteq> 0 then d
      else d\<lparr>dg_dragging := True, dg_dragStart := p, dg_modalOffset := dg_offset d\<rparr>)"

definition handleResizeMouseDown :: "point \<Rightarrow> dialog \<Rightarrow> dialog" where
  "handleResizeMouseDown p d =
     d\<lparr>dg_resizing := True, dg_resizeStart := p, dg_sizeStart := dg_size d, dg_resizeOffsetStart := dg_offset d\<rparr>"

definition drag_window :: "point \<Rightarrow> dialog \<Rightarrow> dialog" where
  "drag_window p d =
     d\<lparr>dg_offset := (fst (dg_modalOffset d) + (fst p - fst (dg_dragStart d)),
                    snd (dg_modalOffset d) + (snd p - snd (dg_dragStart d)))\<rparr>"

definition resize_window :: "point \<Rightarrow> dialog \<Rightarrow> dialog" where
  "resize_window p d =
     (let dx = fst p - fst (dg_resizeStart d);
          dy = snd p - snd (dg_resizeStart d);
          newWidth = max 700 (min 1300 (fst (dg_sizeStart d) + dx));
          newHeight = max 480 (min 950 (snd (dg_sizeStart d) + dy))
      in d\<lparr>dg_size := (newWidth, newHeight),
           dg_offset := (fst (dg_resizeOffsetStart d) + (newWidth - fst (dg_sizeStart d)) / 2,
                         snd (dg_resizeOffsetStart d) + (newHeight - snd (dg_sizeStart d)) / 2)\<rparr>)"

definition mouse_move :: "point \<Rightarrow> dialog \<Rightarrow> dialog" where
  "mouse_move p d =
     (let d1 = (if dg_dragging d then drag_window p d else d)
      in if dg_resizing d then resize_window p d1 else d1)"

definition mouse_up :: "dialog \<Rightarrow> dialog" where
  "mouse_up d = d\<lparr>dg_dragging := False, dg_resizing := False\<rparr>"

text \<open>The left upper corner of the window, which its container centers before it is moved by the offset.\<close>

definition top_left :: "point \<Rightarrow> dialog \<Rightarrow> point" where
  "top_left screen d =
     ((fst screen - fst (dg_size d)) / 2 + fst (dg_offset d), (snd screen - snd (dg_size d)) / 2 + snd (dg_offset d))"

section \<open>Steps\<close>

text \<open>
  One event with the limits \<open>L\<close>. The buttons of the dialog exist while it is open; a panel of a chart has its
  buttons while its indicator is shown.
\<close>

inductive dialog_step :: "jobj \<Rightarrow> dialog \<Rightarrow> dialog \<Rightarrow> bool" for L where
  step_show: "dialog_step L d (show_dialog d)"
| step_close: "dg_isOpen d \<Longrightarrow> dialog_step L d (close_dialog d)"
| step_apply: "dg_isOpen d \<Longrightarrow> dialog_step L d (handleApply d)"
| step_active: "dg_isOpen d \<Longrightarrow> dialog_step L d (toggleActive L k d)"
| step_favorite: "dg_isOpen d \<Longrightarrow> dialog_step L d (toggleFavorite k d)"
| step_deactivate: "dg_isOpen d \<Longrightarrow> dialog_step L d (deactivateIndicator k d)"
| step_visibility: "dg_isOpen d \<Longrightarrow> dialog_step L d (toggleVisibility k d)"
| step_settings: "dg_isOpen d \<Longrightarrow> dialog_step L d (updateSettings u d)"
| step_move: "dg_isOpen d \<Longrightarrow> dialog_step L d (moveIndicator k dir d)"
| step_select: "dg_isOpen d \<Longrightarrow> dialog_step L d (d\<lparr>dg_selectedId := k\<rparr>)"
| step_search: "dg_isOpen d \<Longrightarrow> dialog_step L d (d\<lparr>dg_searchQuery := q\<rparr>)"
| step_tab: "dg_isOpen d \<Longrightarrow> dialog_step L d (toggleTabExpanded tab d)"
| step_chart_toggle: "shown_on_chart [k] (dg_indicators d) \<Longrightarrow> dialog_step L d (onToggleIndicator k d)"
| step_chart_remove: "shown_on_chart [k] (dg_indicators d) \<Longrightarrow> dialog_step L d (onRemoveIndicator k d)"
| step_mouse_down: "dg_isOpen d \<Longrightarrow> dialog_step L d (handleMouseDown on_control button p d)"
| step_resize_down: "dg_isOpen d \<Longrightarrow> dialog_step L d (handleResizeMouseDown p d)"
| step_mouse_move: "dialog_step L d (mouse_move p d)"
| step_mouse_up: "dialog_step L d (mouse_up d)"

section \<open>Lemmas on lists of indicators\<close>

definition list_ok :: "nat \<Rightarrow> indicator list \<Rightarrow> bool" where
  "list_ok m xs \<longleftrightarrow> distinct (map ind_id xs) \<and> active_count xs \<le> m"

lemma map_id_ids [simp]: "(\<And>i. ind_id (f i) = ind_id i) \<Longrightarrow> map ind_id (map_id k f xs) = map ind_id xs"
  by (simp add: map_id_def)

lemma map_id_absent: "k \<notin> ind_id ` set xs \<Longrightarrow> map_id k f xs = xs"
  unfolding map_id_def by (rule map_idI) auto

lemma map_id_Cons [simp]: "map_id k f (x # xs) = (if ind_id x = k then f x else x) # map_id k f xs"
  by (simp add: map_id_def)

lemma map_id_Nil [simp]: "map_id k f [] = []"
  by (simp add: map_id_def)

lemma active_count_simps [simp]:
  "active_count [] = 0" "active_count (x # xs) = (if ind_isActive x then Suc (active_count xs) else active_count xs)"
  by (simp_all add: active_count_def)

lemma active_count_map_id_le:
  "(\<And>i. ind_isActive (f i) \<Longrightarrow> ind_isActive i) \<Longrightarrow> active_count (map_id k f xs) \<le> active_count xs"
  by (induction xs) (auto simp: le_SucI)

lemma list_ok_map_id:
  assumes "list_ok m xs" "\<And>i. ind_id (f i) = ind_id i" "\<And>i. ind_isActive (f i) \<Longrightarrow> ind_isActive i"
  shows "list_ok m (map_id k f xs)"
  using assms active_count_map_id_le [of f k xs] by (auto simp: list_ok_def)

text \<open>An identifier occurs once, so that toggling it counts once.\<close>

lemma active_count_toggle:
  "distinct (map ind_id xs) \<Longrightarrow>
   active_count (map_id k (\<lambda>i. i\<lparr>ind_isActive := \<not> ind_isActive i\<rparr>) xs) \<le>
     (case find (\<lambda>i. ind_id i = k) xs of
        None \<Rightarrow> active_count xs
      | Some t \<Rightarrow> if ind_isActive t then active_count xs else Suc (active_count xs))"
proof (induction xs)
  case (Cons x xs)
  show ?case
  proof (cases "ind_id x = k")
    case True
    then have "map_id k f xs = xs" for f using Cons.prems by (intro map_id_absent) auto
    with True show ?thesis by simp
  next
    case False
    then show ?thesis using Cons by (auto split: option.splits if_splits)
  qed
qed simp

lemma toggle_is_remove:
  "find (\<lambda>i. ind_id i = k) xs = Some t \<Longrightarrow> ind_isActive t \<Longrightarrow> distinct (map ind_id xs) \<Longrightarrow>
   map_id k (\<lambda>i. i\<lparr>ind_isActive := \<not> ind_isActive i\<rparr>) xs = map_id k (\<lambda>i. i\<lparr>ind_isActive := False\<rparr>) xs"
proof (induction xs)
  case (Cons x xs)
  show ?case
  proof (cases "ind_id x = k")
    case True
    then have "map_id k f xs = xs" for f using Cons.prems by (intro map_id_absent) auto
    with True Cons.prems show ?thesis by simp
  qed (use Cons in simp)
qed simp

section \<open>Lemmas on moving\<close>

lemma find_upt: "find P [a..<b] = Some i \<longleftrightarrow> a \<le> i \<and> i < b \<and> P i \<and> (\<forall>j. a \<le> j \<and> j < i \<longrightarrow> \<not> P j)"
proof
  assume "find P [a..<b] = Some i"
  then obtain n where n: "n < b - a" "P (a + n)" "i = a + n" "\<forall>j<n. \<not> P (a + j)"
    by (auto simp: find_Some_iff)
  have "\<not> P j" if "a \<le> j" "j < i" for j using n(3,4) that by (metis le_Suc_ex nat_add_left_cancel_less)
  with n show "a \<le> i \<and> i < b \<and> P i \<and> (\<forall>j. a \<le> j \<and> j < i \<longrightarrow> \<not> P j)" by simp
next
  assume i: "a \<le> i \<and> i < b \<and> P i \<and> (\<forall>j. a \<le> j \<and> j < i \<longrightarrow> \<not> P j)"
  then show "find P [a..<b] = Some i"
    by (auto simp: find_Some_iff intro!: exI [of _ "i - a"])
qed

lemma find_rev_upt: "find P (rev [0..<b]) = Some i \<longleftrightarrow> i < b \<and> P i \<and> (\<forall>j. i < j \<and> j < b \<longrightarrow> \<not> P j)"
  by (induction b) (auto simp: less_Suc_eq)

lemma index_of_iff:
  "distinct (map ind_id xs) \<Longrightarrow> index_of k xs = Some i \<longleftrightarrow> i < length xs \<and> ind_id (xs ! i) = k"
  by (auto simp: index_of_def find_upt distinct_conv_nth)

lemma prev_active_iff:
  "prev_active xs i = Some j \<longleftrightarrow> j < i \<and> ind_isActive (xs ! j) \<and> (\<forall>l. j < l \<and> l < i \<longrightarrow> \<not> ind_isActive (xs ! l))"
  by (simp add: prev_active_def find_rev_upt)

lemma next_active_iff:
  "next_active xs i = Some j \<longleftrightarrow>
     i < j \<and> j < length xs \<and> ind_isActive (xs ! j) \<and> (\<forall>l. i < l \<and> l < j \<longrightarrow> \<not> ind_isActive (xs ! l))"
  by (auto simp: next_active_def find_upt Suc_le_eq)

lemma swap_at_nth:
  "i < length xs \<Longrightarrow> j < length xs \<Longrightarrow> l < length xs \<Longrightarrow>
   swap_at i j xs ! l = (if l = j then xs ! i else if l = i then xs ! j else xs ! l)"
  by (simp add: swap_at_def nth_list_update)

lemma length_swap_at [simp]: "length (swap_at i j xs) = length xs"
  by (simp add: swap_at_def)

lemma swap_swap: "i < length xs \<Longrightarrow> j < length xs \<Longrightarrow> swap_at j i (swap_at i j xs) = xs"
  by (rule nth_equalityI) (auto simp: swap_at_nth)

lemma mset_swap_at: "i < length xs \<Longrightarrow> j < length xs \<Longrightarrow> mset (swap_at i j xs) = mset xs"
  by (simp add: swap_at_def mset_swap)

lemma move_in_cases:
  obtains "move_in k dir xs = xs"
  | i j where "index_of k xs = Some i" "i < length xs" "j < length xs" "i \<noteq> j" "move_in k dir xs = swap_at i j xs"
      "(if dir = Up then prev_active xs i else next_active xs i) = Some j"
proof (cases "index_of k xs")
  case None
  then show ?thesis using that(1) by (simp add: move_in_def)
next
  case (Some i)
  then have i: "i < length xs" by (simp add: index_of_def find_upt)
  show ?thesis
  proof (cases "if dir = Up then prev_active xs i else next_active xs i")
    case None
    then show ?thesis using that(1) Some by (simp add: move_in_def)
  next
    case (Some j)
    then have "j < length xs" "i \<noteq> j" using i by (auto simp: prev_active_iff next_active_iff split: if_splits)
    moreover have "move_in k dir xs = swap_at i j xs" using Some \<open>index_of k xs = _\<close> by (simp add: move_in_def)
    ultimately show ?thesis using that(2) [OF \<open>index_of k xs = _\<close> i] Some by blast
  qed
qed

lemma mset_move_in [simp]: "mset (move_in k dir xs) = mset xs"
  by (cases rule: move_in_cases [of k dir xs]) (simp_all add: mset_swap_at)

lemma list_ok_mset: "mset xs = mset ys \<Longrightarrow> list_ok m xs = list_ok m ys"
proof -
  assume eq: "mset xs = mset ys"
  then have "mset (map ind_id xs) = mset (map ind_id ys)" by simp
  then have "distinct (map ind_id xs) = distinct (map ind_id ys)" by (rule mset_eq_imp_distinct_iff)
  moreover have "active_count xs = active_count ys"
    using eq unfolding active_count_def by (metis mset_filter size_mset)
  ultimately show ?thesis by (simp add: list_ok_def)
qed

definition opposite :: "direction \<Rightarrow> direction" where
  "opposite dir = (if dir = Up then Down else Up)"

lemma move_back:
  assumes ids: "distinct (map ind_id xs)" and moved: "move_in k dir xs \<noteq> xs"
  shows "move_in k (opposite dir) (move_in k dir xs) = xs"
  using move_in_cases [of k dir xs]
proof cases
  case 1
  with moved show ?thesis by simp
next
  case (2 i j)
  let ?ys = "swap_at i j xs"
  have "distinct (map ind_id ?ys)"
    using ids mset_swap_at [OF 2(2,3)] mset_eq_imp_distinct_iff mset_map by metis
  moreover have "ind_id (xs ! i) = k" using 2(1) index_of_iff [OF ids] by simp
  ultimately have at: "index_of k ?ys = Some j"
    using 2(2,3) by (simp add: index_of_iff swap_at_nth)
  have "(if opposite dir = Up then prev_active ?ys j else next_active ?ys j) = Some i"
    using 2(2,3,6) by (cases dir) (auto simp: opposite_def prev_active_iff next_active_iff swap_at_nth)
  with at have "move_in k (opposite dir) ?ys = swap_at j i ?ys" by (simp add: move_in_def)
  with 2 show ?thesis by (simp add: swap_swap)
qed

section \<open>The invariant\<close>

definition size_ok :: "point \<Rightarrow> bool" where
  "size_ok p \<longleftrightarrow> 700 \<le> fst p \<and> fst p \<le> 1300 \<and> 480 \<le> snd p \<and> snd p \<le> 950"

definition dialog_inv :: "nat \<Rightarrow> dialog \<Rightarrow> bool" where
  "dialog_inv m d \<longleftrightarrow> list_ok m (dg_indicators d) \<and> list_ok m (dg_draft d) \<and> size_ok (dg_size d)"

definition limit_below :: "jobj \<Rightarrow> nat \<Rightarrow> bool" where
  "limit_below L m \<longleftrightarrow> (\<forall>n. \<not> at_limit L n \<longrightarrow> n < m)"

lemma inv_map_draft:
  "dialog_inv m d \<Longrightarrow> list_ok m (f (dg_draft d)) \<Longrightarrow> dialog_inv m (map_draft f d)"
  by (simp add: dialog_inv_def map_draft_def)

lemma inv_map_draft_id:
  assumes "dialog_inv m d" "\<And>i. ind_id (f i) = ind_id i" "\<And>i. ind_isActive (f i) \<Longrightarrow> ind_isActive i"
  shows "dialog_inv m (map_draft (map_id k f) d)"
  using assms by (intro inv_map_draft list_ok_map_id) (auto simp: dialog_inv_def)

lemma inv_open_effect:
  "list_ok m (dg_indicators d) \<Longrightarrow> list_ok m (dg_draft d) \<Longrightarrow> size_ok (dg_size d) \<Longrightarrow>
   dialog_inv m (open_effect d)"
  by (simp add: open_effect_def dialog_inv_def size_ok_def)

lemma inv_toggleActive:
  assumes inv: "dialog_inv m d" and lim: "limit_below L m"
  shows "dialog_inv m (toggleActive L k d)"
proof (cases "toggleActive L k d = d")
  case False
  let ?f = "\<lambda>i. i\<lparr>ind_isActive := \<not> ind_isActive i\<rparr>"
  have ok: "distinct (map ind_id (dg_draft d))" "active_count (dg_draft d) \<le> m"
    using inv by (simp_all add: dialog_inv_def list_ok_def)
  have free: "ind_isActive t \<or> \<not> at_limit L (active_count (dg_draft d))"
    if "find (\<lambda>i. ind_id i = k) (dg_draft d) = Some t" for t
    using False that by (auto simp: toggleActive_def split: if_splits)
  have "active_count (map_id k ?f (dg_draft d)) \<le> m"
    using active_count_toggle [OF ok(1), of k] ok(2) lim free
    by (fastforce simp: limit_below_def split: option.splits if_splits)
  then have "dialog_inv m (map_draft (map_id k ?f) d)"
    using inv ok(1) by (intro inv_map_draft) (simp_all add: list_ok_def)
  with False show ?thesis by (simp add: toggleActive_def split: if_splits)
qed (use inv in simp)

lemma inv_chart_toggle:
  assumes inv: "dialog_inv m d" and shown: "shown_on_chart [k] (dg_indicators d)"
  shows "onToggleIndicator k d = onRemoveIndicator k d" "dialog_inv m (onRemoveIndicator k d)"
proof -
  obtain t where "find (\<lambda>i. ind_id i = k) (dg_indicators d) = Some t" "ind_isActive t"
    using shown by (auto simp: shown_on_chart_def split: option.splits)
  then show "onToggleIndicator k d = onRemoveIndicator k d"
    using inv toggle_is_remove [of k "dg_indicators d" t]
    by (simp add: onToggleIndicator_def onRemoveIndicator_def dialog_inv_def list_ok_def)
  show "dialog_inv m (onRemoveIndicator k d)"
    unfolding onRemoveIndicator_def using inv
    by (intro inv_open_effect) (auto simp: dialog_inv_def intro: list_ok_map_id)
qed

lemma resize_size_ok: "size_ok (dg_size (resize_window p d))"
  by (simp add: resize_window_def Let_def size_ok_def)

lemma resize_lists [simp]:
  "dg_indicators (resize_window p d) = dg_indicators d" "dg_draft (resize_window p d) = dg_draft d"
  by (simp_all add: resize_window_def Let_def)

lemma drag_fields [simp]:
  "dg_indicators (drag_window p d) = dg_indicators d" "dg_draft (drag_window p d) = dg_draft d"
  "dg_size (drag_window p d) = dg_size d"
  by (simp_all add: drag_window_def)

lemma inv_mouse_move: "dialog_inv m d \<Longrightarrow> dialog_inv m (mouse_move p d)"
  by (simp add: mouse_move_def Let_def dialog_inv_def resize_size_ok)

lemma inv_edits:
  assumes "dialog_inv m d"
  shows "dialog_inv m (toggleFavorite k d)" "dialog_inv m (deactivateIndicator k d)"
    "dialog_inv m (toggleVisibility k d)" "dialog_inv m (updateSettings u d)" "dialog_inv m (moveIndicator k dir d)"
proof -
  show "dialog_inv m (toggleFavorite k d)" "dialog_inv m (deactivateIndicator k d)" "dialog_inv m (toggleVisibility k d)"
    unfolding toggleFavorite_def deactivateIndicator_def toggleVisibility_def
    by (rule inv_map_draft_id [OF assms]; simp)+
  show "dialog_inv m (updateSettings u d)"
    using assms by (auto simp: updateSettings_def intro: inv_map_draft_id split: option.split)
  have "list_ok m (move_in k dir (dg_draft d))"
    using assms list_ok_mset [OF mset_move_in, of m k dir "dg_draft d"] by (simp add: dialog_inv_def)
  then show "dialog_inv m (moveIndicator k dir d)"
    unfolding moveIndicator_def by (rule inv_map_draft [OF assms])
qed

lemma inv_host:
  assumes "dialog_inv m d"
  shows "dialog_inv m (show_dialog d)" "dialog_inv m (close_dialog d)" "dialog_inv m (handleApply d)"
  using assms
  by (simp_all add: show_dialog_def close_dialog_def handleApply_def dialog_inv_def open_effect_def size_ok_def)

lemma inv_plain:
  assumes "dialog_inv m d"
  shows "dialog_inv m (d\<lparr>dg_selectedId := k\<rparr>)" "dialog_inv m (d\<lparr>dg_searchQuery := q\<rparr>)"
    "dialog_inv m (toggleTabExpanded tab d)" "dialog_inv m (handleMouseDown on_control button p d)"
    "dialog_inv m (handleResizeMouseDown p d)" "dialog_inv m (mouse_up d)"
  using assms
  by (simp_all add: dialog_inv_def toggleTabExpanded_def handleMouseDown_def handleResizeMouseDown_def mouse_up_def)

lemma dialog_step_inv:
  assumes "dialog_step L d d'" "dialog_inv m d" "limit_below L m"
  shows "dialog_inv m d'"
  using assms(1) by cases (use assms(2,3) in \<open>simp_all add: inv_host inv_toggleActive inv_edits inv_plain
    inv_chart_toggle inv_mouse_move\<close>)

lemma dialog_reachable_inv:
  "(dialog_step L)\<^sup>*\<^sup>* d d' \<Longrightarrow> dialog_inv m d \<Longrightarrow> limit_below L m \<Longrightarrow> dialog_inv m d'"
  by (induction rule: rtranclp_induct) (blast intro: dialog_step_inv)+

lemma limit_below_max:
  "to_number (map_of L ''maxIndicators'') = Some (real M) \<Longrightarrow> limit_below L (max M n)"
  by (auto simp: limit_below_def at_limit_def less_max_iff_disj)

text \<open>
  C35. The number of active indicators never exceeds the limit of the plan, unless it did at the start, in which
  case it never grows. Whatever is edited, applied, discarded or removed on a chart, in any
  order, identifiers stay distinct and the window keeps its bounds.
\<close>

theorem dialog_respects_limit:
  assumes limit: "to_number (map_of L ''maxIndicators'') = Some (real M)"
    and ids: "distinct (map ind_id inds)"
    and run: "(dialog_step L)\<^sup>*\<^sup>* (init_dialog inds) d"
  shows "active_count (dg_indicators d) \<le> max M (active_count inds) \<and>
         active_count (dg_draft d) \<le> max M (active_count inds) \<and>
         distinct (map ind_id (dg_indicators d)) \<and> size_ok (dg_size d)"
proof -
  let ?m = "max M (active_count inds)"
  have "dialog_inv ?m (init_dialog inds)"
    using ids by (simp add: dialog_inv_def init_dialog_def list_ok_def size_ok_def active_count_def)
  then have "dialog_inv ?m d" using dialog_reachable_inv [OF run] limit_below_max [OF limit] by blast
  then show ?thesis by (simp add: dialog_inv_def list_ok_def)
qed

definition wit_ind :: "string \<Rightarrow> bool \<Rightarrow> indicator" where
  "wit_ind k active =
     \<lparr>ind_id = k, ind_label = k, ind_category = AllIndicators, ind_type = Overlay, ind_isFavorite = True,
      ind_isActive = active, ind_isVisible = None, ind_settings = []\<rparr>"

definition wit_inds :: "indicator list" where
  "wit_inds = [wit_ind ''delta'' True, wit_ind ''cvd'' False]"

definition wit_limits :: jobj where
  "wit_limits = [(''maxIndicators'', JNum 1)]"

lemmas wit_dialog = wit_ind_def wit_inds_def wit_limits_def init_dialog_def show_dialog_def open_effect_def

theorem dialog_respects_limit_witness:
  "active_count (dg_indicators (handleApply (toggleActive wit_limits ''cvd'' (show_dialog (init_dialog wit_inds))))) \<le> 1"
proof -
  let ?d0 = "init_dialog wit_inds" and ?d1 = "show_dialog (init_dialog wit_inds)"
  let ?d2 = "toggleActive wit_limits ''cvd'' ?d1"
  have "dg_isOpen ?d1" by (simp add: wit_dialog)
  moreover have "dg_isOpen ?d2" by (simp add: wit_dialog toggleActive_def map_draft_def)
  ultimately have run: "(dialog_step wit_limits)\<^sup>*\<^sup>* ?d0 (handleApply ?d2)"
    by (meson rtranclp.rtrancl_into_rtrancl rtranclp.rtrancl_refl step_show step_active step_apply)
  have "to_number (map_of wit_limits ''maxIndicators'') = Some (real 1)" "distinct (map ind_id wit_inds)"
    "active_count wit_inds = 1"
    by (simp_all add: wit_limits_def wit_inds_def wit_ind_def to_number_def)
  then show ?thesis using dialog_respects_limit [OF _ _ run, of 1] by simp
qed

text \<open>
  C36. Moving an indicator past its active neighbor and then in the other direction gives the draft as it was, whenever
  the first move changed it.
\<close>

theorem moving_back_restores_draft:
  assumes "distinct (map ind_id (dg_draft d))" "moveIndicator k dir d \<noteq> d"
  shows "moveIndicator k (opposite dir) (moveIndicator k dir d) = d"
proof -
  have "move_in k dir (dg_draft d) \<noteq> dg_draft d"
    using assms(2) by (auto simp: moveIndicator_def map_draft_def)
  from move_back [OF assms(1) this] show ?thesis
    by (simp add: moveIndicator_def map_draft_def)
qed

theorem moving_back_restores_draft_witness:
  "moveIndicator ''b'' Down (moveIndicator ''b'' Up
     ((init_dialog [])\<lparr>dg_draft := [wit_ind ''a'' True, wit_ind ''x'' False, wit_ind ''b'' True]\<rparr>)) =
   (init_dialog [])\<lparr>dg_draft := [wit_ind ''a'' True, wit_ind ''x'' False, wit_ind ''b'' True]\<rparr>"
proof -
  let ?d = "(init_dialog [])\<lparr>dg_draft := [wit_ind ''a'' True, wit_ind ''x'' False, wit_ind ''b'' True]\<rparr>"
  have "dg_draft (moveIndicator ''b'' Up ?d) = [wit_ind ''b'' True, wit_ind ''x'' False, wit_ind ''a'' True]"
    by (simp add: moveIndicator_def map_draft_def move_in_def index_of_def prev_active_def swap_at_def wit_ind_def
        upt_conv_Cons numeral_2_eq_2 numeral_3_eq_3)
  then have "moveIndicator ''b'' Up ?d \<noteq> ?d" by (auto simp: wit_ind_def)
  moreover have "distinct (map ind_id (dg_draft ?d))" by (simp add: wit_ind_def)
  ultimately show ?thesis
    using moving_back_restores_draft [of ?d "''b''" Up] by (simp add: opposite_def)
qed

lemma resize_keeps:
  "dg_resizing (resize_window p d) = dg_resizing d" "dg_dragging (resize_window p d) = dg_dragging d"
  "dg_sizeStart (resize_window p d) = dg_sizeStart d"
  "dg_resizeOffsetStart (resize_window p d) = dg_resizeOffsetStart d"
  by (simp_all add: resize_window_def Let_def)

definition start_corner :: "point \<Rightarrow> dialog \<Rightarrow> point" where
  "start_corner screen d =
     ((fst screen - fst (dg_sizeStart d)) / 2 + fst (dg_resizeOffsetStart d),
      (snd screen - snd (dg_sizeStart d)) / 2 + snd (dg_resizeOffsetStart d))"

lemma top_left_resized: "top_left screen (resize_window p d) = start_corner screen d"
  by (simp add: resize_window_def Let_def top_left_def start_corner_def diff_divide_distrib)

lemma resize_run:
  assumes "dg_resizing d" "\<not> dg_dragging d" "top_left screen d = start_corner screen d" "size_ok (dg_size d)"
  shows "top_left screen (fold mouse_move ps d) = start_corner screen d \<and> size_ok (dg_size (fold mouse_move ps d))"
  using assms
proof (induction ps arbitrary: d)
  case (Cons p ps)
  have "mouse_move p d = resize_window p d" using Cons.prems by (simp add: mouse_move_def)
  moreover have "start_corner screen (resize_window p d) = start_corner screen d"
    by (simp add: start_corner_def resize_keeps)
  ultimately show ?case
    using Cons.IH [of "resize_window p d"] Cons.prems by (simp add: resize_keeps top_left_resized resize_size_ok)
qed simp

text \<open>
  While the window is resized its left upper corner stays where it is, in spite of the centered container, however far the
  mouse goes, and the window keeps its bounds.
\<close>

theorem resizing_keeps_corner:
  assumes "\<not> dg_dragging d" "size_ok (dg_size d)"
  shows "top_left screen (fold mouse_move ps (handleResizeMouseDown p d)) = top_left screen d \<and>
         size_ok (dg_size (fold mouse_move ps (handleResizeMouseDown p d)))"
  using resize_run [of "handleResizeMouseDown p d" screen ps] assms
  by (simp add: handleResizeMouseDown_def top_left_def start_corner_def)

theorem resizing_keeps_corner_witness:
  "top_left (1600, 900) (fold mouse_move [(100, 50), (2000, -700)] (handleResizeMouseDown (0, 0) (init_dialog []))) =
     top_left (1600, 900) (init_dialog [])"
  using resizing_keeps_corner [of "init_dialog []" "(1600, 900)" "[(100, 50), (2000, -700)]" "(0, 0)"]
  by (simp add: init_dialog_def size_ok_def)

text \<open>
  Two buttons do not do what they say. The button of an active indicator in the dialog, labelled to add another
  instance, deactivates it; and the eye of a panel, labelled to hide it, removes the indicator like the button to
  remove it beside.
\<close>

theorem toggling_active_only_removes:
  assumes ids: "distinct (map ind_id (dg_draft d))" "distinct (map ind_id (dg_indicators d))"
    and sel: "selectedIndicator d = Some i" "ind_isActive i"
    and shown: "shown_on_chart [k] (dg_indicators d)"
  shows "toggleActive L (ind_id i) d = deactivateIndicator (ind_id i) d \<and> onToggleIndicator k d = onRemoveIndicator k d"
proof
  have i: "i \<in> set (dg_draft d)"
    using sel(1) by (auto simp: selectedIndicator_def find_Some_iff dest: js_nth_Some split: option.splits)
  have found: "find (\<lambda>j. ind_id j = ind_id i) (dg_draft d) = Some i"
  proof (cases "find (\<lambda>j. ind_id j = ind_id i) (dg_draft d)")
    case None
    with i show ?thesis by (auto simp: find_None_iff)
  next
    case (Some t)
    then have "t \<in> set (dg_draft d)" "ind_id t = ind_id i" by (auto simp: find_Some_iff)
    then show ?thesis using Some i ids(1) by (auto simp: distinct_map inj_on_def)
  qed
  then show "toggleActive L (ind_id i) d = deactivateIndicator (ind_id i) d"
    using sel(2) toggle_is_remove [OF found _ ids(1)]
    by (simp add: toggleActive_def deactivateIndicator_def map_draft_def)
  obtain t where "find (\<lambda>i. ind_id i = k) (dg_indicators d) = Some t" "ind_isActive t"
    using shown by (auto simp: shown_on_chart_def split: option.splits)
  then show "onToggleIndicator k d = onRemoveIndicator k d"
    using toggle_is_remove [of k "dg_indicators d" t] ids(2)
    by (simp add: onToggleIndicator_def onRemoveIndicator_def)
qed

theorem toggling_active_only_removes_witness:
  "toggleActive wit_limits ''delta'' (show_dialog (init_dialog [wit_ind ''delta'' True])) =
     deactivateIndicator ''delta'' (show_dialog (init_dialog [wit_ind ''delta'' True]))"
proof -
  let ?d = "show_dialog (init_dialog [wit_ind ''delta'' True])"
  have "selectedIndicator ?d = Some (wit_ind ''delta'' True)" "shown_on_chart [''delta''] (dg_indicators ?d)"
    "distinct (map ind_id (dg_draft ?d))" "distinct (map ind_id (dg_indicators ?d))"
    by (simp_all add: wit_dialog selectedIndicator_def js_nth_def shown_on_chart_def)
  then show ?thesis
    using toggling_active_only_removes [of ?d "wit_ind ''delta'' True" "''delta''" wit_limits] by (simp add: wit_ind_def)
qed

text \<open>
  The dialog leaves the charts usable beneath it, but a panel closed on a chart while the dialog is open discards
  every unsaved edit of the draft and moves the window back: edits of the draft have no effect on what remains.
\<close>

theorem chart_button_discards_draft:
  assumes "dg_isOpen d"
  shows "onRemoveIndicator k (map_draft f d) = onRemoveIndicator k d \<and>
         dg_draft (onRemoveIndicator k d) = dg_indicators (onRemoveIndicator k d) \<and>
         dg_offset (onRemoveIndicator k d) = (0, 0)"
  using assms by (simp add: onRemoveIndicator_def open_effect_def map_draft_def)

theorem chart_button_discards_draft_witness:
  "dg_draft (onRemoveIndicator ''delta'' (map_draft (map_id ''cvd'' (\<lambda>i. i\<lparr>ind_isFavorite := False\<rparr>))
       (show_dialog (init_dialog wit_inds)))) =
     [wit_ind ''delta'' False, wit_ind ''cvd'' False]"
proof -
  have "dg_isOpen (show_dialog (init_dialog wit_inds))" by (simp add: wit_dialog)
  from chart_button_discards_draft [OF this] show ?thesis by (simp add: onRemoveIndicator_def wit_dialog)
qed

section \<open>Reloading\<close>

lemma jprop_indicator_json [simp]:
  "jprop (indicator_json ct tt i) ''id'' = Some (JStr (ind_id i))"
  "jprop (indicator_json ct tt i) ''isActive'' = Some (JBool (ind_isActive i))"
  "jprop (indicator_json ct tt i) ''isFavorite'' = Some (JBool (ind_isFavorite i))"
  "jprop (indicator_json ct tt i) ''settings'' = Some (JObj (ind_settings i))"
  "truthy (indicator_json ct tt i)"
  by (simp_all add: indicator_json_def)

text \<open>What the restoring of a default makes of the saved list: it looks for the identifier only.\<close>

definition restored_from :: "loaded_indicator \<Rightarrow> indicator option \<Rightarrow> loaded_indicator" where
  "restored_from defl found =
     (case found of
        None \<Rightarrow> defl
      | Some i \<Rightarrow> defl\<lparr>li_isActive := Some (JBool (ind_isActive i)), li_isFavorite := Some (JBool (ind_isFavorite i)),
                       li_settings := spread (li_settings defl) (ind_settings i)\<rparr>)"

lemma find_map_json:
  "find (\<lambda>item. truthy item \<and> jprop item ''id'' = Some (JStr k)) (map (indicator_json ct tt) xs) =
     map_option (indicator_json ct tt) (find (\<lambda>i. ind_id i = k) xs)"
  by (induction xs) auto

lemma restore_saved:
  "restore_indicator (map (indicator_json ct tt) xs) defl = restored_from defl (find (\<lambda>i. ind_id i = li_id defl) xs)"
  by (simp add: restore_indicator_def find_map_json restored_from_def truthy_opt_def split: option.split)

lemma load_saved:
  assumes "accepting ls" "saved_back cd (JArr (map (indicator_json ct tt) inds))"
  shows "load_indicators cd modules (save_indicators cd ct tt inds ls) =
     map (\<lambda>m. restored_from (default_indicator m) (find (\<lambda>i. ind_id i = im_id m) inds)) modules"
proof -
  have "li_id (default_indicator m) = im_id m" for m by (simp add: default_indicator_def)
  then show ?thesis
    using assms by (simp add: load_indicators_def save_indicators_def getJson_saved_back init_indicators_def restore_saved)
qed

lemma find_by_id:
  "distinct (map ind_id xs) \<Longrightarrow> i \<in> set xs \<Longrightarrow> find (\<lambda>j. ind_id j = ind_id i) xs = Some i"
  by (induction xs) (auto simp: rev_image_eqI)

lemma find_by_id_iff:
  "distinct (map ind_id xs) \<Longrightarrow> find (\<lambda>j. ind_id j = k) xs = Some i \<longleftrightarrow> i \<in> set xs \<and> ind_id i = k"
  using find_by_id [of xs i] by (auto simp: find_Some_iff)

text \<open>
  What is applied survives a reload: with a storage that accepts the write, every module whose indicator was in the
  applied list comes back with that indicator's activity and favorite mark, and with its settings
  over the defaults of the module.
\<close>

theorem applied_indicators_survive_reload:
  assumes ids: "distinct (map ind_id (dg_draft d))" and i: "i \<in> set (dg_draft d)"
    and m: "n < length modules" "im_id (modules ! n) = ind_id i"
    and ls: "accepting ls" "saved_back cd (JArr (map (indicator_json ct tt) (dg_draft d)))"
  defines "r \<equiv> load_indicators cd modules (save_indicators cd ct tt (dg_indicators (handleApply d)) ls) ! n"
  shows "li_isActive r = Some (JBool (ind_isActive i)) \<and> li_isFavorite r = Some (JBool (ind_isFavorite i)) \<and>
         map_of (li_settings r) = map_of (im_defaultSettings (modules ! n)) ++ map_of (ind_settings i)"
proof -
  have "dg_indicators (handleApply d) = dg_draft d"
    by (simp add: handleApply_def open_effect_def close_dialog_def)
  then have "r = restored_from (default_indicator (modules ! n)) (Some i)"
    using load_saved [OF ls, of modules] m find_by_id [OF ids i] by (simp add: r_def)
  then show ?thesis by (simp add: restored_from_def default_indicator_def)
qed

definition wit_text :: "'a \<Rightarrow> json" where
  "wit_text = (\<lambda>_. JNull)"

definition wit_list_codec :: "indicator list \<Rightarrow> codec" where
  "wit_list_codec xs =
     \<lparr>json_stringify = (\<lambda>v. if v = JArr (map (indicator_json wit_text wit_text) xs) then Some ''T'' else None),
      json_parse = (\<lambda>t. if t = ''T'' then Some (JArr (map (indicator_json wit_text wit_text) xs)) else None)\<rparr>"

definition wit_empty_store :: local_storage where
  "wit_empty_store = \<lparr>ls_items = Map.empty, ls_denied = False, ls_quota = (\<lambda>_ _. False)\<rparr>"

lemma wit_codec_saves:
  "saved_back (wit_list_codec xs) (JArr (map (indicator_json wit_text wit_text) xs))" "accepting wit_empty_store"
  by (simp_all add: saved_back_def wit_list_codec_def accepting_def wit_empty_store_def)

theorem applied_indicators_survive_reload_witness:
  "li_isActive (load_indicators (wit_list_codec [wit_ind ''cvd'' False]) [wit_module]
     (save_indicators (wit_list_codec [wit_ind ''cvd'' False]) wit_text wit_text
        (dg_indicators (handleApply ((init_dialog [])\<lparr>dg_draft := [wit_ind ''cvd'' False]\<rparr>))) wit_empty_store) ! 0) =
   Some (JBool False)"
proof -
  let ?d = "(init_dialog [])\<lparr>dg_draft := [wit_ind ''cvd'' False]\<rparr>"
  have "im_id ([wit_module] ! 0) = ind_id (wit_ind ''cvd'' False)" by (simp add: wit_module_def wit_ind_def)
  moreover have "saved_back (wit_list_codec [wit_ind ''cvd'' False])
      (JArr (map (indicator_json wit_text wit_text) (dg_draft ?d)))"
    using wit_codec_saves(1) [of "[wit_ind ''cvd'' False]"] by simp
  ultimately show ?thesis
    using applied_indicators_survive_reload
      [of ?d "wit_ind ''cvd'' False" 0 "[wit_module]" wit_empty_store "wit_list_codec [wit_ind ''cvd'' False]" wit_text wit_text]
      wit_codec_saves(2) by (simp add: wit_ind_def)
qed

definition unhide :: "indicator \<Rightarrow> indicator" where
  "unhide i = i\<lparr>ind_isVisible := None\<rparr>"

lemma unhide_simps [simp]:
  "ind_id (unhide i) = ind_id i" "restored_from defl (Some (unhide i)) = restored_from defl (Some i)"
  by (simp_all add: unhide_def restored_from_def)

lemma find_unhide: "find (\<lambda>i. ind_id i = k) (map unhide xs) = map_option unhide (find (\<lambda>i. ind_id i = k) xs)"
  by (induction xs) auto

lemma restored_unhide: "restored_from defl (map_option unhide x) = restored_from defl x"
  by (cases x) simp_all

text \<open>
  A reload forgets the order and the visibility of the indicators, though both are saved: lists that differ
  only in these give the same indicators after a reload, so that moved indicators are back at their places and hidden
  ones are shown.
\<close>

theorem reload_forgets_order_and_visibility:
  assumes ids: "distinct (map ind_id xs)" and same: "mset (map unhide xs) = mset (map unhide ys)"
    and ls: "accepting ls" "saved_back cd (JArr (map (indicator_json ct tt) xs))"
      "saved_back cd (JArr (map (indicator_json ct tt) ys))"
  shows "load_indicators cd modules (save_indicators cd ct tt xs ls) =
         load_indicators cd modules (save_indicators cd ct tt ys ls)"
proof -
  let ?find = "\<lambda>k zs. find (\<lambda>i. ind_id i = k) (map unhide zs)"
  have "map ind_id (map unhide zs) = map ind_id zs" for zs by simp
  then have d: "distinct (map ind_id (map unhide xs))" "distinct (map ind_id (map unhide ys))"
    using ids same mset_eq_imp_distinct_iff mset_map by metis+
  have "?find k xs = Some i \<longleftrightarrow> ?find k ys = Some i" for k i
    using find_by_id_iff [OF d(1)] find_by_id_iff [OF d(2)] mset_eq_setD [OF same] by simp
  then have "?find k xs = ?find k ys" for k by (metis not_Some_eq)
  then have "restored_from defl (find (\<lambda>i. ind_id i = k) xs) = restored_from defl (find (\<lambda>i. ind_id i = k) ys)" for defl k
    by (metis find_unhide restored_unhide)
  then show ?thesis by (simp add: load_saved ls)
qed

definition wit_two_codec :: "json \<Rightarrow> json \<Rightarrow> codec" where
  "wit_two_codec a b =
     \<lparr>json_stringify = (\<lambda>v. if v = a then Some ''T'' else if v = b then Some ''U'' else None),
      json_parse = (\<lambda>t. if t = ''T'' then Some a else if t = ''U'' then Some b else None)\<rparr>"

lemma wit_two_codec_saves: "saved_back (wit_two_codec a b) a" "saved_back (wit_two_codec a b) b"
  by (simp_all add: saved_back_def wit_two_codec_def)

definition wit_hidden :: "indicator list" where
  "wit_hidden = [(wit_ind ''cvd'' True)\<lparr>ind_isVisible := Some False\<rparr>, wit_ind ''delta'' True]"

definition wit_shown :: "indicator list" where
  "wit_shown = [wit_ind ''delta'' True, wit_ind ''cvd'' True]"

definition wit_json :: "indicator list \<Rightarrow> json" where
  "wit_json xs = JArr (map (indicator_json wit_text wit_text) xs)"

theorem reload_forgets_order_and_visibility_witness:
  "load_indicators (wit_two_codec (wit_json wit_hidden) (wit_json wit_shown)) [wit_module]
     (save_indicators (wit_two_codec (wit_json wit_hidden) (wit_json wit_shown)) wit_text wit_text wit_hidden wit_empty_store) =
   load_indicators (wit_two_codec (wit_json wit_hidden) (wit_json wit_shown)) [wit_module]
     (save_indicators (wit_two_codec (wit_json wit_hidden) (wit_json wit_shown)) wit_text wit_text wit_shown wit_empty_store)"
proof -
  have "distinct (map ind_id wit_hidden)" "mset (map unhide wit_hidden) = mset (map unhide wit_shown)"
    by (simp_all add: wit_hidden_def wit_shown_def wit_ind_def unhide_def)
  then show ?thesis
    by (rule reload_forgets_order_and_visibility)
      (use wit_codec_saves(2) wit_two_codec_saves in \<open>simp_all flip: wit_json_def\<close>)
qed

section \<open>The inputs keep the filters of the cluster search in range\<close>

text \<open>The settings one number input of the cluster search writes.\<close>

definition filter_input :: "string \<Rightarrow> number option \<Rightarrow> jobj" where
  "filter_input k v =
     [(k, JNum (if k \<in> {''csMedMergeLevels'', ''csLargeMergeLevels''} then merge_input v
                else if k \<in> {''csMedImbalancePercent'', ''csLargeImbalancePercent''} then imbalance_input v
                else if k \<in> {''csMedMinDelta'', ''csLargeMinDelta''} then min_delta_input v
                else volume_input v))]"

definition filter_keys :: "string set" where
  "filter_keys = {''csMedMergeLevels'', ''csLargeMergeLevels'', ''csMedImbalancePercent'', ''csLargeImbalancePercent'',
     ''csMedMinDelta'', ''csLargeMinDelta'', ''csMedMinVolume'', ''csMedMaxVolume'', ''csLargeMinVolume'',
     ''csMedMinSize'', ''csMedMaxSize'', ''csLargeMinSize'', ''csLargeMaxSize''}"

definition filter_in_range :: "filter_settings \<Rightarrow> bool" where
  "filter_in_range fs \<longleftrightarrow>
     1 \<le> fs_mergeLevels fs \<and> 50 \<le> fs_imbalancePercent fs \<and> fs_imbalancePercent fs \<le> 100 \<and> 0 \<le> fs_minDelta fs"

definition filters_in_range :: "jobj \<Rightarrow> bool" where
  "filters_in_range cs \<longleftrightarrow> filter_in_range (med_filter cs) \<and> filter_in_range (large_filter cs)"

lemma input_bounds [simp]:
  "1 \<le> merge_input v" "50 \<le> imbalance_input v" "imbalance_input v \<le> 100" "0 \<le> min_delta_input v"
  by (auto simp: merge_input_def imbalance_input_def min_delta_input_def)

lemma range_of_filter:
  "filter_in_range (med_filter cs) \<longleftrightarrow>
     1 \<le> num_or (num_or 1 (map_of cs ''csMergeLevels'')) (map_of cs ''csMedMergeLevels'') \<and>
     50 \<le> num_or (num_or 60 (map_of cs ''csImbalancePercent'')) (map_of cs ''csMedImbalancePercent'') \<and>
     num_or (num_or 60 (map_of cs ''csImbalancePercent'')) (map_of cs ''csMedImbalancePercent'') \<le> 100 \<and>
     0 \<le> num_or 0 (map_of cs ''csMedMinDelta'')"
  "filter_in_range (large_filter cs) \<longleftrightarrow>
     1 \<le> num_or (num_or 1 (map_of cs ''csMergeLevels'')) (map_of cs ''csLargeMergeLevels'') \<and>
     50 \<le> num_or (num_or 60 (map_of cs ''csImbalancePercent'')) (map_of cs ''csLargeImbalancePercent'') \<and>
     num_or (num_or 60 (map_of cs ''csImbalancePercent'')) (map_of cs ''csLargeImbalancePercent'') \<le> 100 \<and>
     0 \<le> num_or 0 (map_of cs ''csLargeMinDelta'')"
  by (simp_all add: filter_in_range_def med_filter_def large_filter_def Let_def)

lemma filter_input_in_range:
  "filters_in_range cs \<Longrightarrow> k \<in> filter_keys \<Longrightarrow> filters_in_range (spread cs (filter_input k v))"
  unfolding filters_in_range_def range_of_filter filter_keys_def
  by (elim insertE emptyE) (simp_all add: filter_input_def num_or_def)

text \<open>
  The cluster search never gets a filter out of range from the dialog: starting with settings whose filters
  are in range, any sequence of number inputs, whatever is typed, leaves both filters with at least one merged
  level, a dominance of 50 to 100 percent and a delta bound that is not negative.
\<close>

theorem typed_filters_stay_in_range:
  assumes "filters_in_range cs" "set (map fst edits) \<subseteq> filter_keys"
  shows "filters_in_range (foldl (\<lambda>s (k, v). spread s (filter_input k v)) cs edits)"
  using assms
proof (induction edits arbitrary: cs)
  case (Cons e edits)
  then show ?case by (cases e) (simp add: filter_input_in_range)
qed simp

theorem typed_filters_stay_in_range_witness:
  "filters_in_range (foldl (\<lambda>s (k, v). spread s (filter_input k v)) []
     [(''csMedMergeLevels'', Some (- 3)), (''csLargeImbalancePercent'', None), (''csMedMinDelta'', Some (- 1))])"
proof -
  have "filters_in_range []"
    by (simp add: filters_in_range_def filter_in_range_def med_filter_def large_filter_def Let_def)
  then show ?thesis by (rule typed_filters_stay_in_range) (simp add: filter_keys_def)
qed

end
