(* ===== verification/JsDate.thy ===== *)
theory JsDate
  imports JsPrelude
begin

text \<open>
  Calendar dates as the profile page uses them: \<open>d.toISOString().split('T')[0]\<close>, the text of a day in
  universal time, and \<open>new Date(text)\<close> of such a text, the start of that day. A time is a number of
  milliseconds since 1970, a day its number from the first of January 1970. The model covers the years 1970 to 9999,
  which the notation writes with four digits.
\<close>

definition ms_per_day :: number where
  "ms_per_day = 1000 * 60 * 60 * 24"

definition day_of_time :: "number \<Rightarrow> nat" where
  "day_of_time t = nat \<lfloor>t / ms_per_day\<rfloor>"

section \<open>Years and months\<close>

definition leap_year :: "nat \<Rightarrow> bool" where
  "leap_year y \<longleftrightarrow> 4 dvd y \<and> (\<not> 100 dvd y \<or> 400 dvd y)"

definition year_days :: "nat \<Rightarrow> nat" where
  "year_days y = (if leap_year y then 366 else 365)"

definition month_days :: "nat \<Rightarrow> nat list" where
  "month_days y = [31, if leap_year y then 29 else 28, 31, 30, 31, 30, 31, 31, 30, 31, 30, 31]"

text \<open>The year and the day in it of the day \<open>n\<close> after the start of year \<open>y\<close>; the same for months.\<close>

function split_year :: "nat \<Rightarrow> nat \<Rightarrow> nat \<times> nat" where
  "split_year y n = (if n < year_days y then (y, n) else split_year (Suc y) (n - year_days y))"
  by pat_completeness auto
termination by (relation "measure snd") (auto simp: year_days_def)

fun split_month :: "nat list \<Rightarrow> nat \<Rightarrow> nat \<times> nat" where
  "split_month [] n = (0, n)"
| "split_month (l # ls) n = (if n < l then (0, n) else (let (m, d) = split_month ls (n - l) in (Suc m, d)))"

declare split_year.simps [simp del]

section \<open>The text of a day\<close>

definition pad :: "nat \<Rightarrow> nat \<Rightarrow> string" where
  "pad k n = replicate (k - length (show_nat n)) (CHR ''0'') @ show_nat n"

definition year_of_day :: "nat \<Rightarrow> nat" where
  "year_of_day n = fst (split_year 1970 n)"

definition iso_date :: "nat \<Rightarrow> string" where
  "iso_date n =
     (let (y, r) = split_year 1970 n; (m, d) = split_month (month_days y) r
      in pad 4 y @ ''-'' @ pad 2 (Suc m) @ ''-'' @ pad 2 (Suc d))"

definition day_number :: "nat \<Rightarrow> nat \<Rightarrow> nat \<Rightarrow> nat" where
  "day_number y m d = sum_list (map year_days [1970..<y]) + sum_list (take (m - 1) (month_days y)) + (d - 1)"

text \<open>A text that is not a date of the covered form is \<open>None\<close>, an invalid date.\<close>

definition parse_date :: "string \<Rightarrow> nat option" where
  "parse_date s =
     (let y = digits_val (take 4 s); m = digits_val (take 2 (drop 5 s)); d = digits_val (drop 8 s)
      in if length s = 10 \<and> s ! 4 = CHR ''-'' \<and> s ! 7 = CHR ''-'' \<and>
            list_all is_digit (take 4 s @ take 2 (drop 5 s) @ drop 8 s) \<and>
            1970 \<le> y \<and> 1 \<le> m \<and> m \<le> 12 \<and> 1 \<le> d \<and> d \<le> month_days y ! (m - 1)
         then Some (day_number y m d) else None)"

section \<open>Round trip\<close>

lemma year_days_pos: "0 < year_days y"
  by (simp add: year_days_def)

lemma sum_month_days: "sum_list (month_days y) = year_days y"
  by (simp add: month_days_def year_days_def)

lemma length_month_days [simp]: "length (month_days y) = 12"
  by (simp add: month_days_def)

lemma split_year_spec:
  "split_year y n = (y', r) \<Longrightarrow> y \<le> y' \<and> r < year_days y' \<and> n = sum_list (map year_days [y..<y']) + r"
proof (induction y n rule: split_year.induct)
  case (1 y n)
  show ?case
  proof (cases "n < year_days y")
    case True
    with 1(2) show ?thesis by (subst (asm) split_year.simps) auto
  next
    case False
    then have "split_year (Suc y) (n - year_days y) = (y', r)" using 1(2) by (subst (asm) split_year.simps) simp
    from 1(1) [OF False this] have *: "Suc y \<le> y'" "r < year_days y'"
      "n - year_days y = sum_list (map year_days [Suc y..<y']) + r" by auto
    then have "[y..<y'] = y # [Suc y..<y']" by (simp add: upt_conv_Cons)
    with * False show ?thesis by simp
  qed
qed

lemma split_month_spec:
  "split_month ls n = (m, d) \<Longrightarrow> n < sum_list ls \<Longrightarrow>
   m < length ls \<and> d < ls ! m \<and> n = sum_list (take m ls) + d"
proof (induction ls n arbitrary: m d rule: split_month.induct)
  case (2 l ls n)
  show ?case
  proof (cases "n < l")
    case False
    then obtain m' where "split_month ls (n - l) = (m', d)" "m = Suc m'"
      using 2(2) by (auto split: prod.splits)
    moreover have "n - l < sum_list ls" using 2(3) False by simp
    ultimately have "m' < length ls" "d < ls ! m'" "n - l = sum_list (take m' ls) + d"
      using 2(1) [OF False, of m' d] by simp_all
    moreover from this(3) False have "n = l + (sum_list (take m' ls) + d)" by linarith
    ultimately show ?thesis using \<open>m = Suc m'\<close> by (simp only: length_Cons take_Suc_Cons sum_list.Cons nth_Cons_Suc Suc_less_eq add.assoc)
  qed (use 2 in auto)
qed simp

lemma digits_val_zeros [simp]: "digits_val (replicate k (CHR ''0'') @ s) = digits_val s"
  by (induction k) (simp_all add: digits_val_def)

lemma digits_val_pad [simp]: "digits_val (pad k n) = n"
  by (simp add: pad_def)

lemma length_show_nat: "n < 10 ^ k \<Longrightarrow> 0 < k \<Longrightarrow> length (show_nat n) \<le> k"
proof (induction n arbitrary: k rule: show_nat.induct)
  case (1 n)
  show ?case
  proof (cases "n < 10")
    case True
    with 1 show ?thesis by (subst show_nat.simps) simp
  next
    case False
    with 1(2) obtain k' where k: "k = Suc k'" "0 < k'" by (cases k; cases "k - 1") auto
    with 1(2) have "n div 10 < 10 ^ k'" by (simp add: less_mult_imp_div_less mult.commute)
    with 1(1) [OF False this k(2)] k show ?thesis using False by (subst show_nat.simps) simp
  qed
qed

lemma length_pad: "n < 10 ^ k \<Longrightarrow> 0 < k \<Longrightarrow> length (pad k n) = k"
  using length_show_nat [of n k] by (simp add: pad_def)

lemma pad_digits: "list_all is_digit (pad k n)"
  using show_nat_digits [of _ n] by (auto simp: pad_def list_all_iff is_digit_def)

lemma month_days_le: "m < 12 \<Longrightarrow> month_days y ! m \<le> 31"
  by (auto simp: month_days_def less_Suc_eq numeral_eq_Suc)

text \<open>
  The text of a day, as it is written for the dates of a subscription, is read back as that day, for all days up to
  the year 9999.
\<close>

theorem parse_iso_date:
  assumes "year_of_day n < 10000"
  shows "parse_date (iso_date n) = Some n"
proof -
  obtain y r where y: "split_year 1970 n = (y, r)" by fastforce
  obtain m d where m: "split_month (month_days y) r = (m, d)" by fastforce
  note ys = split_year_spec [OF y]
  have ms: "m < 12" "d < month_days y ! m" "r = sum_list (take m (month_days y)) + d"
    using split_month_spec [OF m] ys by (simp_all add: sum_month_days)
  have y4: "y < 10 ^ 4" using assms y by (simp add: year_of_day_def)
  have d2: "Suc d < 10 ^ 2" "Suc m < 10 ^ 2" using ms(1,2) month_days_le [OF ms(1), of y] by simp_all
  have len: "length (pad 4 y) = 4" "length (pad 2 (Suc m)) = 2" "length (pad 2 (Suc d)) = 2"
    using y4 d2 length_pad by simp_all
  have s: "iso_date n = pad 4 y @ ''-'' @ pad 2 (Suc m) @ ''-'' @ pad 2 (Suc d)"
    by (simp add: iso_date_def y m)
  have parts: "take 4 (iso_date n) = pad 4 y" "take 2 (drop 5 (iso_date n)) = pad 2 (Suc m)"
    "drop 8 (iso_date n) = pad 2 (Suc d)" "length (iso_date n) = 10" "iso_date n ! 4 = CHR ''-''" "iso_date n ! 7 = CHR ''-''"
    by (simp_all add: s len nth_append)
  have "day_number y (Suc m) (Suc d) = n" using ys ms(3) by (simp add: day_number_def)
  moreover have "1970 \<le> y" using ys by simp
  moreover have "Suc m \<le> 12" "Suc d \<le> month_days y ! (Suc m - 1)" using ms(1,2) by simp_all
  ultimately show ?thesis
    unfolding parse_date_def Let_def parts by (simp add: pad_digits)
qed

theorem parse_iso_date_witness: "parse_date (iso_date 20600) = Some 20600"
proof -
  have "split_year 1970 20600 = (2026, 146)" by (simp add: split_year.simps year_days_def leap_year_def)
  then show ?thesis by (intro parse_iso_date) (simp add: year_of_day_def)
qed

end
