(* ===== verification/UserProfile.thy ===== *)
theory UserProfile
  imports AppState JsDate
begin

text \<open>
  The profile page (\<open>frontend-chart/src/components/UserProfile.tsx\<close>): its form, the dates of the
  subscription, the direct change of the plan and the simulated checkout with its timer, together with the user,
  the role and the storage of the application (\<open>account_state\<close>) that it changes.

  A field of the form that the user object does not hold as a text is \<open>None\<close>; calling \<open>trim\<close> on it throws,
  and the handler that does so changes nothing (\<open>None\<close>).
\<close>

section \<open>The page\<close>

text \<open>The two dates as they are shown: a dash, the word for unlimited in the chosen language, or the text of a date.\<close>

datatype date_text = Dash | Unlimited_text | Date_text string

datatype payment_step = Choose | Deposit | Verifying | Success
datatype network = Trc20 | Erc20 | Bep20
datatype plan = Pro_plan | VIP_plan

text \<open>The notification: none, that the changes are saved, or that the plan is now the given one.\<close>

datatype notice = No_notice | Saved_notice | Plan_notice string

record page =
  pg_nickname :: "string option"
  pg_email :: "string option"
  pg_avatar :: "string option"
  pg_customAvatarUrl :: string
  pg_tier :: "string option"
  pg_regDate :: string
  pg_password :: string
  pg_paymentDate :: date_text
  pg_expireDate :: date_text
  pg_activePaymentPlan :: "plan option"
  pg_paymentStep :: payment_step
  pg_paymentNetwork :: network
  pg_verifyTimers :: nat
  pg_notification :: notice
  pg_paymentTxCopied :: bool
  pg_copiedText :: string

definition plan_tier :: "plan \<Rightarrow> string" where
  "plan_tier p = (case p of Pro_plan \<Rightarrow> ''Pro'' | VIP_plan \<Rightarrow> ''VIP'')"

text \<open>\<open>s.trim()\<close>, a property that holds a text, and \<open>v || d\<close> for such a property.\<close>

definition trim :: "string \<Rightarrow> string" where
  "trim s = rev (dropWhile is_space (rev (dropWhile is_space s)))"

definition text_prop :: "json \<Rightarrow> string \<Rightarrow> string option" where
  "text_prop u k = (case jprop u k of Some (JStr s) \<Rightarrow> Some s | _ \<Rightarrow> None)"

definition stored_or :: "local_storage \<Rightarrow> string \<Rightarrow> string \<Rightarrow> date_text" where
  "stored_or ls k d = Date_text (str_or (storage_get ls k) d)"

definition init_page :: "string \<Rightarrow> json \<Rightarrow> local_storage \<Rightarrow> page" where
  "init_page preset user ls =
     \<lparr>pg_nickname = Some (str_or (text_prop user ''name'') ''Guest User''),
      pg_email = Some (str_or (text_prop user ''email'') ''guest@procluster.io''),
      pg_avatar = Some (str_or (text_prop user ''avatar'') preset), pg_customAvatarUrl = [],
      pg_tier = Some (str_or (text_prop user ''tier'') ''Pro''),
      pg_regDate = str_or (text_prop user ''regDate'') ''2026-05-29'', pg_password = [],
      pg_paymentDate = stored_or ls ''procluster_payment_date'' ''2026-05-29'',
      pg_expireDate = stored_or ls ''procluster_expire_date'' ''2026-06-29'',
      pg_activePaymentPlan = None, pg_paymentStep = Choose, pg_paymentNetwork = Trc20, pg_verifyTimers = 0,
      pg_notification = No_notice, pg_paymentTxCopied = False, pg_copiedText = []\<rparr>"

text \<open>The effects of a new user and of a new tier.\<close>

definition user_effect :: "json \<Rightarrow> page \<Rightarrow> page" where
  "user_effect user p =
     (if truthy user
      then p\<lparr>pg_nickname := text_prop user ''name'', pg_email := text_prop user ''email'',
             pg_avatar := text_prop user ''avatar'', pg_tier := text_prop user ''tier'',
             pg_regDate := str_or (text_prop user ''regDate'') ''2026-05-29''\<rparr>
      else p)"

definition tier_effect :: "local_storage \<Rightarrow> page \<Rightarrow> page" where
  "tier_effect ls p =
     (if pg_tier p = Some ''Free'' then p\<lparr>pg_paymentDate := Dash, pg_expireDate := Unlimited_text\<rparr>
      else p\<lparr>pg_paymentDate := stored_or ls ''procluster_payment_date'' ''2026-05-29'',
             pg_expireDate := stored_or ls ''procluster_expire_date'' ''2026-06-29''\<rparr>)"

section \<open>The form\<close>

definition final_avatar :: "page \<Rightarrow> string option" where
  "final_avatar p = (if trim (pg_customAvatarUrl p) \<noteq> [] then Some (trim (pg_customAvatarUrl p)) else pg_avatar p)"

definition opt_field :: "string \<Rightarrow> string option \<Rightarrow> jobj" where
  "opt_field k v = (case v of None \<Rightarrow> [] | Some s \<Rightarrow> [(k, JStr s)])"

definition profile_json :: "string option \<Rightarrow> string option \<Rightarrow> string option \<Rightarrow> string \<Rightarrow> string option \<Rightarrow> json" where
  "profile_json name email avatar regDate tier =
     JObj (opt_field ''name'' name @ opt_field ''email'' email @ opt_field ''avatar'' avatar @
           [(''regDate'', JStr regDate)] @ opt_field ''tier'' tier)"

definition select_preset :: "string \<Rightarrow> page \<Rightarrow> page" where
  "select_preset url p = p\<lparr>pg_avatar := Some url, pg_customAvatarUrl := []\<rparr>"

definition handleSaveChanges :: "codec \<Rightarrow> page \<times> account_state \<Rightarrow> (page \<times> account_state) option" where
  "handleSaveChanges cd pa =
     (let (p, a) = pa in
      case (pg_nickname p, pg_email p) of
        (Some nickname, Some email) \<Rightarrow>
          let updated = profile_json (Some (trim nickname)) (Some (trim email)) (final_avatar p) (pg_regDate p) (pg_tier p);
              ls1 = storage_setJson cd ''procluster_user'' updated (ac_store a);
              changed = trim (pg_password p) \<noteq> [];
              ls2 = (if changed then storage_set ''procluster_user_password'' (trim (pg_password p)) ls1 else ls1)
          in Some ((if changed then p\<lparr>pg_password := []\<rparr> else p)\<lparr>pg_notification := Saved_notice\<rparr>, a\<lparr>ac_profile := updated, ac_store := ls2\<rparr>)
      | _ \<Rightarrow> None)"

section \<open>Changing the plan\<close>

text \<open>
  \<open>executeDirectUpgrade\<close>: the dates are those of a checkout, or else those of the moment \<open>now\<close>. The new user
  is queued for the application before the event lets its handler queue what it reads from the storage.
\<close>

definition upgrade_dates :: "number \<Rightarrow> string \<times> string" where
  "upgrade_dates now = (iso_date (day_of_time now), iso_date (day_of_time (now + 30 * ms_per_day)))"

definition executeDirectUpgrade ::
  "codec \<Rightarrow> number \<Rightarrow> string \<Rightarrow> (string \<times> string) option \<Rightarrow> page \<times> account_state \<Rightarrow> page \<times> account_state" where
  "executeDirectUpgrade cd now targetTier directDates pa =
     (let (p, a) = pa;
          dates = (case directDates of Some ds \<Rightarrow> ds | None \<Rightarrow> upgrade_dates now);
          ls1 = (if targetTier \<noteq> ''Free''
                 then storage_set ''procluster_expire_date'' (snd dates)
                        (storage_set ''procluster_payment_date'' (fst dates) (ac_store a))
                 else storage_remove ''procluster_expire_date''
                        (storage_remove ''procluster_payment_date'' (ac_store a)));
          updated = profile_json (pg_nickname p) (pg_email p) (final_avatar p) (pg_regDate p) (Some targetTier);
          ls2 = storage_set ''procluster_role'' targetTier (storage_setJson cd ''procluster_user'' updated ls1);
          (ls3, queued) = user_handleUpdate cd ls2
      in (p\<lparr>pg_tier := Some targetTier,
            pg_paymentDate := (if targetTier \<noteq> ''Free'' then Date_text (fst dates) else Dash),
            pg_expireDate := (if targetTier \<noteq> ''Free'' then Date_text (snd dates) else Unlimited_text),
            pg_notification := Plan_notice targetTier\<rparr>,
          fold (\<lambda>u s. u s) ([\<lambda>s. s\<lparr>ac_profile := updated\<rparr>] @ queued) (a\<lparr>ac_store := ls3\<rparr>)))"

section \<open>Messages\<close>

definition clear_notification :: "page \<Rightarrow> page" where
  "clear_notification p = p\<lparr>pg_notification := No_notice\<rparr>"

definition handleCopyText :: "string \<Rightarrow> page \<Rightarrow> page" where
  "handleCopyText addr p = p\<lparr>pg_paymentTxCopied := True, pg_copiedText := addr\<rparr>"

definition clear_copied :: "page \<Rightarrow> page" where
  "clear_copied p = p\<lparr>pg_paymentTxCopied := False\<rparr>"

section \<open>The checkout\<close>

definition startPaymentCheckout :: "plan \<Rightarrow> page \<Rightarrow> page" where
  "startPaymentCheckout pl p =
     p\<lparr>pg_activePaymentPlan := Some pl, pg_paymentStep := Choose, pg_paymentNetwork := Trc20\<rparr>"

definition cancel_checkout :: "page \<Rightarrow> page" where
  "cancel_checkout p = p\<lparr>pg_activePaymentPlan := None\<rparr>"

definition triggerVerifySimulation :: "page \<Rightarrow> page" where
  "triggerVerifySimulation p = p\<lparr>pg_paymentStep := Verifying, pg_verifyTimers := Suc (pg_verifyTimers p)\<rparr>"

definition verify_timer :: "page \<Rightarrow> page" where
  "verify_timer p = p\<lparr>pg_paymentStep := Success, pg_verifyTimers := pg_verifyTimers p - 1\<rparr>"

definition commitPaymentSuccessUpgrade :: "codec \<Rightarrow> number \<Rightarrow> page \<times> account_state \<Rightarrow> page \<times> account_state" where
  "commitPaymentSuccessUpgrade cd now pa =
     (case pg_activePaymentPlan (fst pa) of
        None \<Rightarrow> pa
      | Some pl \<Rightarrow>
          let (p, a) = executeDirectUpgrade cd now (plan_tier pl) (Some (upgrade_dates now)) pa
          in (p\<lparr>pg_activePaymentPlan := None\<rparr>, a))"

text \<open>One event of the checkout; each button exists in its step only.\<close>

inductive checkout_step :: "page \<Rightarrow> page \<Rightarrow> bool" where
  co_start: "pg_activePaymentPlan p = None \<Longrightarrow> pg_tier p \<noteq> Some (plan_tier pl) \<Longrightarrow>
    checkout_step p (startPaymentCheckout pl p)"
| co_network: "pg_activePaymentPlan p \<noteq> None \<Longrightarrow> pg_paymentStep p = Choose \<Longrightarrow>
    checkout_step p (p\<lparr>pg_paymentNetwork := n\<rparr>)"
| co_deposit: "pg_activePaymentPlan p \<noteq> None \<Longrightarrow> pg_paymentStep p = Choose \<Longrightarrow>
    checkout_step p (p\<lparr>pg_paymentStep := Deposit\<rparr>)"
| co_verify: "pg_activePaymentPlan p \<noteq> None \<Longrightarrow> pg_paymentStep p = Deposit \<Longrightarrow>
    checkout_step p (triggerVerifySimulation p)"
| co_timer: "0 < pg_verifyTimers p \<Longrightarrow> checkout_step p (verify_timer p)"
| co_cancel: "pg_activePaymentPlan p \<noteq> None \<Longrightarrow> checkout_step p (cancel_checkout p)"

section \<open>Remaining days\<close>

datatype days_left = Unlimited_days | Days int | Expired

text \<open>The start of the shown day; a text that is not a date gives no number.\<close>

definition date_time :: "date_text \<Rightarrow> number option" where
  "date_time d = (case d of Date_text s \<Rightarrow> map_option (\<lambda>n. real n * ms_per_day) (parse_date s) | _ \<Rightarrow> None)"

definition calculateDaysLeftStr :: "number \<Rightarrow> page \<Rightarrow> days_left" where
  "calculateDaysLeftStr now p =
     (if pg_tier p = Some ''Free'' then Unlimited_days
      else case date_time (pg_expireDate p) of
             None \<Rightarrow> Expired
           | Some expires \<Rightarrow>
               let diffDays = \<lceil>(expires - now) / ms_per_day\<rceil> in if diffDays > 0 then Days diffDays else Expired)"

section \<open>Lemmas on the storage and the user\<close>

lemma accepting_remove [simp]: "accepting ls \<Longrightarrow> accepting (storage_remove k ls)"
  by (simp add: accepting_def storage_remove_def removeItem_def)

lemma get_set_accepting: "accepting ls \<Longrightarrow> storage_get (storage_set k v ls) k = Some v"
  by (simp add: ls.get_put accepting_writable)

lemma jprop_profile [simp]:
  "jprop (profile_json n e av rd t) ''tier'' = map_option JStr t"
  "jprop (profile_json n e av rd t) ''role'' = None"
  "jprop (profile_json n e av rd t) ''subscriptionLevel'' = None"
  "truthy (profile_json n e av rd t)"
  by (auto simp: profile_json_def opt_field_def map_of_append split: option.split)

lemma role_of_profile:
  assumes "t = ''Free'' \<or> t = ''Pro'' \<or> t = ''VIP''"
  shows "role_of_user (profile_json n e av rd (Some t)) = Some t"
  using assms by (elim disjE) (simp_all add: role_of_user_def tier_lower_def str_prop_or_def prop_is_def lower_roles)

text \<open>What the direct change of the plan leaves, with a storage that accepts every write.\<close>

definition upgraded_store :: "codec \<Rightarrow> string \<Rightarrow> string \<times> string \<Rightarrow> json \<Rightarrow> local_storage \<Rightarrow> local_storage" where
  "upgraded_store cd t dates u ls =
     storage_set ''procluster_role'' t (storage_set ''procluster_role'' t (storage_setJson cd ''procluster_user'' u
       (if t \<noteq> ''Free''
        then storage_set ''procluster_expire_date'' (snd dates) (storage_set ''procluster_payment_date'' (fst dates) ls)
        else storage_remove ''procluster_expire_date'' (storage_remove ''procluster_payment_date'' ls))))"

lemma upgrade_accepted:
  fixes p :: page and a :: account_state and cd :: codec and t :: string
  defines "u \<equiv> profile_json (pg_nickname p) (pg_email p) (final_avatar p) (pg_regDate p) (Some t)"
  assumes t: "t = ''Free'' \<or> t = ''Pro'' \<or> t = ''VIP''"
    and ls: "accepting (ac_store a)" and cd: "saved_back cd u"
  shows "executeDirectUpgrade cd now t (Some dates) (p, a) =
     (p\<lparr>pg_tier := Some t, pg_paymentDate := (if t \<noteq> ''Free'' then Date_text (fst dates) else Dash),
        pg_expireDate := (if t \<noteq> ''Free'' then Date_text (snd dates) else Unlimited_text),
        pg_notification := Plan_notice t\<rparr>,
      a\<lparr>ac_role := t, ac_profile := u, ac_store := upgraded_store cd t dates u (ac_store a)\<rparr>)"
proof -
  let ?ls1 = "if t \<noteq> ''Free''
      then storage_set ''procluster_expire_date'' (snd dates) (storage_set ''procluster_payment_date'' (fst dates) (ac_store a))
      else storage_remove ''procluster_expire_date'' (storage_remove ''procluster_payment_date'' (ac_store a))"
  let ?ls2 = "storage_set ''procluster_role'' t (storage_setJson cd ''procluster_user'' u ?ls1)"
  have "accepting ?ls1" using ls by simp
  then have "storage_getJson cd ?ls2 ''procluster_user'' JNull = u"
    using cd by (simp add: storage_getJson_set_other getJson_saved_back)
  moreover have "truthy u" "role_of_user u = Some t" unfolding u_def by (simp, rule role_of_profile [OF t])
  ultimately have "user_handleUpdate cd ?ls2 =
      (storage_set ''procluster_role'' t ?ls2, [\<lambda>s. s\<lparr>ac_profile := u\<rparr>, \<lambda>s. s\<lparr>ac_role := t\<rparr>])"
    by (simp add: user_handleUpdate_def Let_def)
  then show ?thesis
    by (simp add: executeDirectUpgrade_def Let_def u_def [symmetric] upgraded_store_def)
qed

lemma upgraded_role:
  assumes "accepting ls"
  shows "storage_get (upgraded_store cd t dates u ls) ''procluster_role'' = Some t"
    "accepting (upgraded_store cd t dates u ls)"
  using assms by (simp_all add: upgraded_store_def get_set_accepting)

lemma upgraded_dates:
  assumes "accepting ls" "t \<noteq> ''Free''"
  shows "storage_get (upgraded_store cd t dates u ls) ''procluster_payment_date'' = Some (fst dates)"
    "storage_get (upgraded_store cd t dates u ls) ''procluster_expire_date'' = Some (snd dates)"
  using assms
  by (simp_all add: upgraded_store_def ls.get_put_other storage_get_setJson_other get_set_accepting)

lemma pad_nonempty: "pad k n \<noteq> []"
  by (simp add: pad_def)

lemma str_or_iso [simp]: "str_or (Some (iso_date n)) d = iso_date n"
proof -
  have "iso_date n \<noteq> []" by (simp add: iso_date_def pad_nonempty split: prod.split)
  then show ?thesis by (cases "iso_date n") (simp_all add: str_or_def)
qed

lemma plan_tier_cases: "plan_tier pl = ''Free'' \<or> plan_tier pl = ''Pro'' \<or> plan_tier pl = ''VIP''" "plan_tier pl \<noteq> ''Free''"
  by (cases pl; simp add: plan_tier_def)+

lemma plan_group: "role_group (plan_tier pl) = (case pl of Pro_plan \<Rightarrow> G_pro | VIP_plan \<Rightarrow> G_vip)"
  by (cases pl) (simp_all add: plan_tier_def role_group_def Let_def lower_roles)

section \<open>Properties\<close>


definition wit_page :: page where
  "wit_page = (init_page ''x'' JNull \<lparr>ls_items = Map.empty, ls_denied = False, ls_quota = (\<lambda>_ _. False)\<rparr>)
     \<lparr>pg_tier := Some ''Free''\<rparr>"

definition wit_upgraded :: json where
  "wit_upgraded = profile_json (pg_nickname wit_page) (pg_email wit_page) (final_avatar wit_page) (pg_regDate wit_page) (Some ''VIP'')"

definition wit_json_codec :: "json \<Rightarrow> codec" where
  "wit_json_codec v =
     \<lparr>json_stringify = (\<lambda>w. if w = v then Some ''T'' else None), json_parse = (\<lambda>t. if t = ''T'' then Some v else None)\<rparr>"

definition wit_paying :: page where
  "wit_paying = wit_page\<lparr>pg_activePaymentPlan := Some VIP_plan, pg_paymentStep := Success\<rparr>"


lemma ms_per_day_pos: "0 < ms_per_day"
  by (simp add: ms_per_day_def)

lemma day_30: "0 \<le> now \<Longrightarrow> day_of_time (now + 30 * ms_per_day) = day_of_time now + 30"
proof -
  assume "0 \<le> now"
  then have pos: "0 \<le> \<lfloor>now / ms_per_day\<rfloor>" using ms_per_day_pos by simp
  have "(now + 30 * ms_per_day) / ms_per_day = now / ms_per_day + 30"
    using ms_per_day_pos by (simp add: field_simps)
  then have "\<lfloor>(now + 30 * ms_per_day) / ms_per_day\<rfloor> = \<lfloor>now / ms_per_day\<rfloor> + 30" by linarith
  then show ?thesis using pos by (simp add: day_of_time_def nat_add_distrib)
qed

text \<open>
  A subscription counts down from thirty days: with the dates of a payment at the time \<open>now\<close>, the page shows thirty
  days at once, later the days begun before the end of the subscription, and that it has expired from then on,
  which is midnight (universal time) of the thirtieth day after the day of the payment.
\<close>

theorem subscription_counts_down:
  fixes now u :: number and p :: page
  defines "ends \<equiv> real (day_of_time now + 30) * ms_per_day"
  assumes now: "0 \<le> now" and year: "year_of_day (day_of_time now + 30) < 10000"
    and paid: "pg_tier p \<noteq> Some ''Free''" "pg_expireDate p = Date_text (snd (upgrade_dates now))"
  shows "calculateDaysLeftStr u p = (if u < ends then Days \<lceil>(ends - u) / ms_per_day\<rceil> else Expired) \<and>
         calculateDaysLeftStr now p = Days 30"
proof -
  have "date_time (pg_expireDate p) = Some ends"
    using paid(2) parse_iso_date [OF year] day_30 [OF now] by (simp add: date_time_def upgrade_dates_def ends_def)
  then have show_days: "calculateDaysLeftStr t p = (if t < ends then Days \<lceil>(ends - t) / ms_per_day\<rceil> else Expired)" for t
    using paid(1) zero_less_divide_iff [of "ends - t" ms_per_day] ms_per_day_pos
    by (simp add: calculateDaysLeftStr_def Let_def)
  let ?q = "now / ms_per_day"
  have "0 \<le> \<lfloor>?q\<rfloor>" using now ms_per_day_pos by simp
  then have d: "real (day_of_time now) = of_int \<lfloor>?q\<rfloor>" by (simp add: day_of_time_def)
  have "(ends - now) / ms_per_day = of_int \<lfloor>?q\<rfloor> + 30 - ?q"
    using ms_per_day_pos d by (simp add: ends_def field_simps)
  then have "\<lceil>(ends - now) / ms_per_day\<rceil> = 30" "0 < (ends - now) / ms_per_day" by linarith+
  then have "now < ends" "\<lceil>(ends - now) / ms_per_day\<rceil> = 30"
    using ms_per_day_pos by (simp_all add: zero_less_divide_iff)
  then show ?thesis using show_days by simp
qed

theorem subscription_counts_down_witness:
  "calculateDaysLeftStr (31 * ms_per_day) (wit_page\<lparr>pg_tier := Some ''Pro'', pg_expireDate := Date_text (snd (upgrade_dates 0))\<rparr>) =
     Expired"
proof -
  have "day_of_time 0 = 0" by (simp add: day_of_time_def)
  moreover have "year_of_day 30 = 1970" by (simp add: year_of_day_def split_year.simps year_days_def leap_year_def)
  moreover have "\<not> 31 * ms_per_day < 30 * ms_per_day" using ms_per_day_pos by simp
  ultimately show ?thesis
    using subscription_counts_down [of 0 "wit_page\<lparr>pg_tier := Some ''Pro'', pg_expireDate := Date_text (snd (upgrade_dates 0))\<rparr>"
      "31 * ms_per_day"] by simp
qed

text \<open>
  A timer left from a canceled checkout confirms another one: from any page of a free user without a checkout, paying
  for the cheaper plan, canceling while the payment is verified and choosing the other plan leads to a checkout
  for that plan in its first step, which the old timer turns into a successful payment.
\<close>

theorem stale_timer_confirms_unpaid_plan:
  assumes "pg_activePaymentPlan p = None" "pg_tier p = Some ''Free''"
  shows "\<exists>q. checkout_step\<^sup>*\<^sup>* p q \<and> pg_activePaymentPlan q = Some VIP_plan \<and> pg_paymentStep q = Choose \<and>
             checkout_step q (verify_timer q) \<and>
             pg_paymentStep (verify_timer q) = Success \<and> pg_activePaymentPlan (verify_timer q) = Some VIP_plan"
proof -
  define p1 where "p1 = startPaymentCheckout Pro_plan p"
  define p2 where "p2 = p1\<lparr>pg_paymentStep := Deposit\<rparr>"
  define p3 where "p3 = triggerVerifySimulation p2"
  define p4 where "p4 = cancel_checkout p3"
  define q where "q = startPaymentCheckout VIP_plan p4"
  have "checkout_step p p1" using assms unfolding p1_def by (intro co_start) (simp_all add: plan_tier_def)
  moreover have "checkout_step p1 p2" unfolding p2_def by (intro co_deposit) (simp_all add: p1_def startPaymentCheckout_def)
  moreover have "checkout_step p2 p3"
    unfolding p3_def by (intro co_verify) (simp_all add: p2_def p1_def startPaymentCheckout_def)
  moreover have "checkout_step p3 p4"
    unfolding p4_def by (intro co_cancel) (simp add: p3_def triggerVerifySimulation_def p2_def p1_def startPaymentCheckout_def)
  moreover have "checkout_step p4 q"
    unfolding q_def using assms(2) by (intro co_start)
      (simp_all add: p4_def cancel_checkout_def p3_def triggerVerifySimulation_def p2_def p1_def startPaymentCheckout_def plan_tier_def)
  ultimately have "checkout_step\<^sup>*\<^sup>* p q" by (meson rtranclp.rtrancl_into_rtrancl rtranclp.rtrancl_refl)
  moreover have "0 < pg_verifyTimers q"
    by (simp add: q_def p4_def cancel_checkout_def p3_def triggerVerifySimulation_def startPaymentCheckout_def)
  moreover have "pg_activePaymentPlan q = Some VIP_plan" "pg_paymentStep q = Choose"
    by (simp_all add: q_def startPaymentCheckout_def)
  moreover have "pg_paymentStep (verify_timer q) = Success" "pg_activePaymentPlan (verify_timer q) = pg_activePaymentPlan q"
    by (simp_all add: verify_timer_def)
  ultimately show ?thesis using co_timer [of q] by (intro exI [of _ q]) simp
qed

theorem stale_timer_confirms_unpaid_plan_witness:
  "\<exists>q. checkout_step\<^sup>*\<^sup>* wit_page q \<and> pg_activePaymentPlan q = Some VIP_plan \<and> pg_paymentStep q = Choose \<and>
       checkout_step q (verify_timer q)"
proof -
  have "pg_activePaymentPlan wit_page = None" "pg_tier wit_page = Some ''Free''"
    by (simp_all add: wit_page_def init_page_def)
  from stale_timer_confirms_unpaid_plan [OF this] show ?thesis by blast
qed

end
