(* ===== verification/AdminPanel.thy ===== *)
theory AdminPanel
  imports AppState
begin

text \<open>
  The admin panel (\<open>frontend-chart/src/components/AdminPanel.tsx\<close>): the metrics with their sliding
  histories and graphs, the forms of tickers and compression defaults, and the history job, which is started by a request
  and then reports over an event source.

  Responses are arguments: \<open>None\<close> when the request fails or its status is not ok. A JSON value printed in a text is printed
  by the argument \<open>pr\<close>.
\<close>

section \<open>Decimal numbers\<close>

text \<open>
  \<open>parseFloat\<close>: sign, digits, fraction and exponent of the longest prefix that is a decimal number; \<open>None\<close> is
  \<open>NaN\<close>, and also stands for the text of infinity.
\<close>

definition sign_split :: "string \<Rightarrow> bool \<times> string" where
  "sign_split s =
     (case s of
        [] \<Rightarrow> (False, [])
      | c # t \<Rightarrow> if c = CHR ''-'' then (True, t) else if c = CHR ''+'' then (False, t) else (False, s))"

definition exponent_of :: "string \<Rightarrow> int" where
  "exponent_of s =
     (case s of
        [] \<Rightarrow> 0
      | c # t \<Rightarrow>
          if c = CHR ''e'' \<or> c = CHR ''E''
          then (let (neg, u) = sign_split t in
                case parse_nat u of None \<Rightarrow> 0 | Some n \<Rightarrow> if neg then - int n else int n)
          else 0)"

definition scale10 :: "int \<Rightarrow> number \<Rightarrow> number" where
  "scale10 e x = (if 0 \<le> e then x * 10 ^ nat e else x / 10 ^ nat (- e))"

definition parseFloat :: "string \<Rightarrow> number option" where
  "parseFloat s =
     (let (neg, t) = sign_split (dropWhile is_space s);
          whole = takeWhile is_digit t; rest = dropWhile is_digit t;
          dot = (case rest of [] \<Rightarrow> False | c # _ \<Rightarrow> c = CHR ''.'');
          frac = (if dot then takeWhile is_digit (drop 1 rest) else []);
          rest' = (if dot then dropWhile is_digit (drop 1 rest) else rest);
          x = scale10 (exponent_of rest') (real (digits_val (whole @ frac)) / 10 ^ length frac)
      in if whole = [] \<and> frac = [] then None else Some (if neg then - x else x))"

text \<open>\<open>parseInt(s) || d\<close> and \<open>parseFloat(s) || d\<close>.\<close>

definition int_or :: "string \<Rightarrow> int \<Rightarrow> int" where
  "int_or s d = (case parseInt s of None \<Rightarrow> d | Some n \<Rightarrow> if n = 0 then d else n)"

definition float_or :: "string \<Rightarrow> number \<Rightarrow> number" where
  "float_or s d = (case parseFloat s of None \<Rightarrow> d | Some x \<Rightarrow> or_else x d)"

section \<open>The panel\<close>

record new_ticker =
  nt_symbol :: string
  nt_market :: string
  nt_tickSize :: string
  nt_baseCompression :: string
  nt_ttlDays :: string
  nt_domSnapshotSec :: string

datatype admin_tab = Server_tab | History_tab | Database_tab | Logs_tab

record admin =
  ad_activeTab :: admin_tab
  ad_logLines :: int
  ad_histSymbol :: string
  ad_histMarket :: market
  ad_histFrom :: string
  ad_histTo :: string
  ad_metrics :: json
  ad_cpuHistory :: "number list"
  ad_ramHistory :: "number list"
  ad_diskHistory :: "number list"
  ad_tickers :: "json list"
  ad_logs :: json
  ad_compDefaults :: json
  ad_newTicker :: new_ticker
  ad_tickerMsg :: string
  ad_compMsg :: string

definition init_newTicker :: new_ticker where
  "init_newTicker =
     \<lparr>nt_symbol = [], nt_market = ''futures'', nt_tickSize = ''0.1'', nt_baseCompression = ''25'',
      nt_ttlDays = ''365'', nt_domSnapshotSec = ''60''\<rparr>"

definition init_admin :: "string \<Rightarrow> market \<Rightarrow> admin" where
  "init_admin symbol m =
     \<lparr>ad_activeTab = Server_tab, ad_logLines = 200, ad_histSymbol = symbol, ad_histMarket = m,
      ad_histFrom = ''2026-05-01'', ad_histTo = ''2026-05-25'', ad_metrics = JNull, ad_cpuHistory = replicate 25 0, ad_ramHistory = replicate 25 0,
      ad_diskHistory = replicate 25 0, ad_tickers = [], ad_logs = JArr [], ad_compDefaults = JObj [],
      ad_newTicker = init_newTicker, ad_tickerMsg = [], ad_compMsg = []\<rparr>"

section \<open>Fetching\<close>

definition push :: "number \<Rightarrow> number list \<Rightarrow> number list" where
  "push x prev = slice_from 1 prev @ [x]"

definition fetchMetrics :: "json option \<Rightarrow> admin \<Rightarrow> admin" where
  "fetchMetrics res ad =
     (case res of
        None \<Rightarrow> ad
      | Some data \<Rightarrow>
          let ad1 = ad\<lparr>ad_metrics := data\<rparr> in
          if data = JNull then ad1
          else ad1\<lparr>ad_cpuHistory := push (num_or 0 (jprop data ''cpu_percent'')) (ad_cpuHistory ad),
                   ad_ramHistory := push (num_or 0 (jprop data ''system_ram_gb'')) (ad_ramHistory ad),
                   ad_diskHistory := push (num_or 0 (jprop data ''disk_percent'')) (ad_diskHistory ad)\<rparr>)"

definition fetchTickers :: "json option \<Rightarrow> admin \<Rightarrow> admin" where
  "fetchTickers res ad =
     (case res of
        None \<Rightarrow> ad
      | Some data \<Rightarrow> ad\<lparr>ad_tickers := (case data of JArr xs \<Rightarrow> xs | _ \<Rightarrow> [])\<rparr>)"

definition fetchLogs :: "json option \<Rightarrow> admin \<Rightarrow> admin" where
  "fetchLogs res ad =
     (case res of
        None \<Rightarrow> ad
      | Some data \<Rightarrow>
          if data = JNull then ad
          else ad\<lparr>ad_logs := (if truthy_opt (jprop data ''lines'') then the (jprop data ''lines'') else JArr [])\<rparr>)"

definition fetchCompDefaults :: "json option \<Rightarrow> admin \<Rightarrow> admin" where
  "fetchCompDefaults res ad =
     (case res of
        None \<Rightarrow> ad
      | Some data \<Rightarrow> ad\<lparr>ad_compDefaults := (if truthy data then data else JObj [])\<rparr>)"

text \<open>The effect of opening the panel, with the responses to its four requests, and of another active pair.\<close>

definition open_panel :: "json option \<Rightarrow> json option \<Rightarrow> json option \<Rightarrow> json option \<Rightarrow> admin \<Rightarrow> admin" where
  "open_panel metrics tickers logs defaults ad =
     fetchCompDefaults defaults (fetchLogs logs (fetchTickers tickers (fetchMetrics metrics ad)))"

definition pair_effect :: "string \<Rightarrow> admin \<Rightarrow> admin" where
  "pair_effect symbol ad = ad\<lparr>ad_histSymbol := symbol\<rparr>"

section \<open>Display\<close>

text \<open>Hours, minutes and seconds; \<open>js_mod\<close> is \<open>%\<close> for numbers that are not negative.\<close>

definition js_mod :: "number \<Rightarrow> number \<Rightarrow> number" where
  "js_mod x y = x - y * of_int \<lfloor>x / y\<rfloor>"

definition uptime_parts :: "number \<Rightarrow> int \<times> int \<times> int" where
  "uptime_parts secs = (\<lfloor>secs / 3600\<rfloor>, \<lfloor>js_mod secs 3600 / 60\<rfloor>, \<lfloor>js_mod secs 60\<rfloor>)"

definition formatUptime :: "number \<Rightarrow> string" where
  "formatUptime secs =
     (let (h, m, s) = uptime_parts secs in show_int h @ ''h '' @ show_int m @ ''m '' @ show_int s @ ''s'')"

text \<open>The points of a graph of 300 by 48; \<open>data.length - 1 || 1\<close> avoids a division by zero.\<close>

definition graph_points :: "number \<Rightarrow> number list \<Rightarrow> (number \<times> number) list" where
  "graph_points maxVal data =
     map (\<lambda>(idx, val). (real idx * (300 / or_else (real (length data) - 1) 1), 48 - (val / maxVal) * (48 - 8) - 4))
       (enumerate 0 data)"

section \<open>Tickers and compression defaults\<close>

text \<open>The body of the request; an empty symbol sends none.\<close>

definition handleAddTicker :: "admin \<Rightarrow> jobj option" where
  "handleAddTicker ad =
     (let nt = ad_newTicker ad in
      if nt_symbol nt = [] then None
      else Some [(''symbol'', JStr (toUpperCase (nt_symbol nt))), (''market'', JStr (nt_market nt)),
                 (''tickSize'', JNum (float_or (nt_tickSize nt) (1 / 10))),
                 (''baseCompression'', JNum (of_int (int_or (nt_baseCompression nt) 25))),
                 (''ttlDays'', JNum (of_int (int_or (nt_ttlDays nt) 365))),
                 (''domSnapshotSec'', JNum (of_int (int_or (nt_domSnapshotSec nt) 60)))])"

text \<open>The response: \<open>sent\<close> is the form as it was when the request was made, and what the request for the tickers gives.\<close>

definition add_ticker_response :: "bool \<Rightarrow> new_ticker \<Rightarrow> json option \<Rightarrow> admin \<Rightarrow> admin" where
  "add_ticker_response ok sent tickers ad =
     (if ok
      then fetchTickers tickers (ad\<lparr>ad_tickerMsg := ''Ticker '' @ toUpperCase (nt_symbol sent) @ '' added!'',
                                    ad_newTicker := sent\<lparr>nt_symbol := []\<rparr>\<rparr>)
      else ad)"

definition handleDeleteTicker :: "bool \<Rightarrow> bool \<Rightarrow> json option \<Rightarrow> admin \<Rightarrow> admin" where
  "handleDeleteTicker confirmed ok tickers ad = (if confirmed \<and> ok then fetchTickers tickers ad else ad)"

definition handleSaveCompDefaults :: "bool \<Rightarrow> admin \<Rightarrow> admin" where
  "handleSaveCompDefaults ok ad = (if ok then ad\<lparr>ad_compMsg := ''Saved!''\<rparr> else ad)"

text \<open>The timers that clear the two messages.\<close>

definition clear_tickerMsg :: "admin \<Rightarrow> admin" where
  "clear_tickerMsg ad = ad\<lparr>ad_tickerMsg := []\<rparr>"

definition clear_compMsg :: "admin \<Rightarrow> admin" where
  "clear_compMsg ad = ad\<lparr>ad_compMsg := []\<rparr>"

text \<open>An edit of the text of the defaults, which counts when it is JSON.\<close>

definition edit_compDefaults :: "json option \<Rightarrow> admin \<Rightarrow> admin" where
  "edit_compDefaults parsed ad = (case parsed of None \<Rightarrow> ad | Some v \<Rightarrow> ad\<lparr>ad_compDefaults := v\<rparr>)"

section \<open>The history job\<close>

text \<open>
  The percentage may be \<open>NaN\<close> (\<open>None\<close>). \<open>hj_pending\<close> counts the start requests without response, \<open>hj_open\<close> holds
  the jobs whose event source is open.
\<close>

record hist_job =
  hj_jobId :: "string option"
  hj_progress :: string
  hj_detail :: json
  hj_percent :: "number option"
  hj_done :: bool
  hj_error :: "string option"
  hj_pending :: nat
  hj_open :: "string list"

definition init_job :: hist_job where
  "init_job =
     \<lparr>hj_jobId = None, hj_progress = [], hj_detail = JStr [], hj_percent = Some 0, hj_done = False, hj_error = None,
      hj_pending = 0, hj_open = []\<rparr>"

text \<open>The button is disabled while a job runs.\<close>

definition load_disabled :: "hist_job \<Rightarrow> bool" where
  "load_disabled h \<longleftrightarrow> truthy_str (hj_jobId h) \<and> \<not> hj_done h \<and> \<not> truthy_str (hj_error h)"

text \<open>The body of the start request.\<close>

definition load_request :: "admin \<Rightarrow> jobj" where
  "load_request ad =
     [(''symbol'', JStr (toUpperCase (ad_histSymbol ad))),
      (''market'', JStr (toLowerCase (market_string (ad_histMarket ad)))),
      (''from'', JStr (ad_histFrom ad)), (''to'', JStr (ad_histTo ad))]"

definition handleLoadHistory :: "hist_job \<Rightarrow> hist_job" where
  "handleLoadHistory h =
     h\<lparr>hj_done := False, hj_error := None, hj_progress := ''Starting...'', hj_detail := JStr [], hj_percent := Some 0,
       hj_pending := Suc (hj_pending h)\<rparr>"

definition load_rejected :: "string option \<Rightarrow> hist_job \<Rightarrow> hist_job" where
  "load_rejected msg h =
     h\<lparr>hj_error := Some (str_or msg ''Failed to start''), hj_progress := [], hj_pending := hj_pending h - 1\<rparr>"

definition load_failed :: "string option \<Rightarrow> hist_job \<Rightarrow> hist_job" where
  "load_failed msg h =
     h\<lparr>hj_error := Some (str_or msg ''Network error''), hj_progress := [], hj_pending := hj_pending h - 1\<rparr>"

definition load_started :: "string \<Rightarrow> hist_job \<Rightarrow> hist_job" where
  "load_started j h = h\<lparr>hj_jobId := Some j, hj_open := hj_open h @ [j], hj_pending := hj_pending h - 1\<rparr>"

definition job_percent :: "json \<Rightarrow> number option" where
  "job_percent d =
     (case to_number (jprop d ''total'') of
        None \<Rightarrow> Some 0
      | Some t \<Rightarrow>
          if t > 0 then map_option (\<lambda>c. js_round ((c / t) * 100)) (to_number (jprop d ''current''))
          else Some 0)"

text \<open>The listeners of an event source; the data of an event that is not JSON is \<open>None\<close>.\<close>

definition on_progress :: "(json option \<Rightarrow> string) \<Rightarrow> json option \<Rightarrow> hist_job \<Rightarrow> hist_job" where
  "on_progress pr data h =
     (case data of
        None \<Rightarrow> h
      | Some d \<Rightarrow>
          if d = JNull then h
          else h\<lparr>hj_percent := job_percent d,
                 hj_progress := (if truthy_opt (jprop d ''label'') then pr (jprop d ''label'') else ''processing'') @
                   '' '' @ pr (jprop d ''current'') @ ''/'' @ pr (jprop d ''total''),
                 hj_detail := str_prop_or [] (jprop d ''detail'')\<rparr>)"

definition on_done :: "string \<Rightarrow> hist_job \<Rightarrow> hist_job" where
  "on_done j h =
     h\<lparr>hj_done := True, hj_progress := ''Complete!'', hj_percent := Some 100, hj_open := remove1 j (hj_open h)\<rparr>"

text \<open>
  An error event: of the server with its data, or of the connection without any (\<open>None\<close>), for which an empty object
  is read; data that is not JSON is \<open>Some None\<close>.
\<close>

definition error_text :: "json option option \<Rightarrow> string" where
  "error_text data =
     (case data of
        None \<Rightarrow> ''Job failed''
      | Some None \<Rightarrow> ''Connection lost''
      | Some (Some d) \<Rightarrow>
          if d = JNull then ''Connection lost''
          else (case jprop d ''error'' of Some (JStr s) \<Rightarrow> str_or (Some s) ''Job failed'' | _ \<Rightarrow> ''Job failed''))"

definition on_error :: "string \<Rightarrow> json option option \<Rightarrow> hist_job \<Rightarrow> hist_job" where
  "on_error j data h = h\<lparr>hj_error := Some (error_text data), hj_open := remove1 j (hj_open h)\<rparr>"

text \<open>
  One event. A patient user presses the button only when no start request is under way; the identifier of a job
  is not empty.
\<close>

inductive job_step :: "bool \<Rightarrow> (json option \<Rightarrow> string) \<Rightarrow> hist_job \<Rightarrow> hist_job \<Rightarrow> bool" for patient pr where
  js_start: "\<not> load_disabled h \<Longrightarrow> (patient \<longrightarrow> hj_pending h = 0) \<Longrightarrow> job_step patient pr h (handleLoadHistory h)"
| js_rejected: "0 < hj_pending h \<Longrightarrow> job_step patient pr h (load_rejected msg h)"
| js_failed: "0 < hj_pending h \<Longrightarrow> job_step patient pr h (load_failed msg h)"
| js_started: "0 < hj_pending h \<Longrightarrow> j \<noteq> [] \<Longrightarrow> job_step patient pr h (load_started j h)"
| js_progress: "j \<in> set (hj_open h) \<Longrightarrow> job_step patient pr h (on_progress pr data h)"
| js_done: "j \<in> set (hj_open h) \<Longrightarrow> job_step patient pr h (on_done j h)"
| js_error: "j \<in> set (hj_open h) \<Longrightarrow> job_step patient pr h (on_error j err h)"

section \<open>Lemmas on the job\<close>

definition job_inv :: "hist_job \<Rightarrow> bool" where
  "job_inv h \<longleftrightarrow>
     length (hj_open h) + hj_pending h \<le> 1 \<and>
     (hj_open h \<noteq> [] \<longrightarrow> hj_jobId h = Some (hd (hj_open h)) \<and> hd (hj_open h) \<noteq> []) \<and>
     (hj_open h \<noteq> [] \<or> 0 < hj_pending h \<longrightarrow> \<not> hj_done h \<and> hj_error h = None) \<and>
     (hj_done h \<longrightarrow> hj_percent h = Some 100 \<and> hj_progress h = ''Complete!'') \<and>
     hj_error h \<noteq> Some []"

lemma str_or_nonempty: "d \<noteq> [] \<Longrightarrow> str_or s d \<noteq> []"
  by (auto simp: str_or_def split: option.split list.split)

lemma error_text_nonempty [simp]: "error_text data \<noteq> []"
  by (auto simp: error_text_def str_or_nonempty split: option.split json.split)

lemma open_cases: "job_inv h \<Longrightarrow> j \<in> set (hj_open h) \<Longrightarrow> hj_open h = [j] \<and> hj_pending h = 0"
  by (cases "hj_open h") (auto simp: job_inv_def)

lemma pending_cases: "job_inv h \<Longrightarrow> 0 < hj_pending h \<Longrightarrow> hj_open h = [] \<and> hj_pending h = 1"
  by (cases "hj_open h") (auto simp: job_inv_def)

lemma job_step_inv:
  assumes "job_step True pr h h'" "job_inv h"
  shows "job_inv h'"
  using assms(1)
proof cases
  case js_start
  then have "hj_open h = []" using assms(2) by (auto simp: load_disabled_def job_inv_def truthy_str_def)
  with js_start assms(2) show ?thesis by (simp add: job_inv_def handleLoadHistory_def)
next
  case (js_rejected msg)
  with pending_cases [OF assms(2)] assms(2) show ?thesis by (auto simp: job_inv_def load_rejected_def str_or_nonempty)
next
  case (js_failed msg)
  with pending_cases [OF assms(2)] assms(2) show ?thesis by (auto simp: job_inv_def load_failed_def str_or_nonempty)
next
  case (js_started j)
  with pending_cases [OF assms(2)] assms(2) show ?thesis by (auto simp: job_inv_def load_started_def)
next
  case (js_progress j data)
  with open_cases [OF assms(2)] assms(2) show ?thesis
    by (auto simp: job_inv_def on_progress_def split: option.split)
next
  case (js_done j)
  with open_cases [OF assms(2), of j] assms(2) show ?thesis by (simp add: job_inv_def on_done_def)
next
  case (js_error j err)
  with open_cases [OF assms(2), of j] assms(2) show ?thesis by (simp add: job_inv_def on_error_def)
qed

lemma job_reachable_inv: "(job_step True pr)\<^sup>*\<^sup>* init_job h \<Longrightarrow> job_inv h"
  by (induction rule: rtranclp_induct) (auto simp: init_job_def job_inv_def dest: job_step_inv)

section \<open>Properties\<close>


text \<open>
  Pressing the button twice before the first response starts two jobs, and the panel mixes them: the end of the first
  one shows everything as complete and frees the button while the second job still runs.
\<close>

theorem double_start_mixes_jobs:
  assumes "j1 \<noteq> []" "j2 \<noteq> []" "j1 \<noteq> j2"
  shows "\<exists>h. (job_step False pr)\<^sup>*\<^sup>* init_job h \<and> hj_open h = [j2] \<and> hj_jobId h = Some j2 \<and>
             hj_done h \<and> hj_progress h = ''Complete!'' \<and> \<not> load_disabled h"
proof -
  define h1 where "h1 = handleLoadHistory init_job"
  define h2 where "h2 = handleLoadHistory h1"
  define h3 where "h3 = load_started j1 h2"
  define h4 where "h4 = load_started j2 h3"
  have "job_step False pr init_job h1" unfolding h1_def
    by (intro js_start) (simp_all add: init_job_def load_disabled_def truthy_str_def)
  moreover have "job_step False pr h1 h2" unfolding h2_def
    by (intro js_start) (simp_all add: h1_def handleLoadHistory_def init_job_def load_disabled_def truthy_str_def)
  moreover have "job_step False pr h2 h3" unfolding h3_def
    using assms(1) by (intro js_started) (simp_all add: h2_def handleLoadHistory_def)
  moreover have "job_step False pr h3 h4" unfolding h4_def
    using assms(2) by (intro js_started) (simp_all add: h3_def load_started_def h2_def h1_def handleLoadHistory_def)
  moreover have "job_step False pr h4 (on_done j1 h4)"
    by (intro js_done) (simp add: h4_def h3_def load_started_def)
  ultimately have "(job_step False pr)\<^sup>*\<^sup>* init_job (on_done j1 h4)"
    by (meson rtranclp.rtrancl_into_rtrancl rtranclp.rtrancl_refl)
  moreover have "hj_open h4 = [j1, j2]" "hj_jobId h4 = Some j2"
    by (simp_all add: h4_def h3_def h2_def h1_def load_started_def handleLoadHistory_def init_job_def)
  ultimately show ?thesis
    by (intro exI [of _ "on_done j1 h4"]) (simp add: on_done_def load_disabled_def)
qed


theorem double_start_mixes_jobs_witness:
  "\<exists>h. (job_step False (\<lambda>_. []))\<^sup>*\<^sup>* init_job h \<and> hj_open h = [''b''] \<and> hj_done h"
  using double_start_mixes_jobs [of "''a''" "''b''" "\<lambda>_. []"] by (simp, blast)

definition histories_ok :: "admin \<Rightarrow> bool" where
  "histories_ok ad \<longleftrightarrow> length (ad_cpuHistory ad) = 25 \<and> length (ad_ramHistory ad) = 25 \<and> length (ad_diskHistory ad) = 25"

lemma push_tl: "push x prev = tl prev @ [x]"
  by (simp add: push_def slice_from_def drop_Suc)

lemma fetchMetrics_histories: "histories_ok ad \<Longrightarrow> histories_ok (fetchMetrics res ad)"
  by (auto simp: fetchMetrics_def histories_ok_def push_tl Let_def split: option.split)

text \<open>
  The histories slide: whatever responses arrive, each holds 25 values, the newest last, and every fetch drops the
  oldest one; a failed request changes nothing.
\<close>

theorem histories_slide:
  "histories_ok (fold fetchMetrics rs (init_admin symbol m)) \<and>
   (jprop d ''cpu_percent'' = Some (JNum n) \<longrightarrow>
      ad_cpuHistory (fetchMetrics (Some d) ad) = tl (ad_cpuHistory ad) @ [n]) \<and>
   fetchMetrics None ad = ad"
proof -
  have "histories_ok (fold fetchMetrics rs ad0)" if "histories_ok ad0" for ad0
    using that by (induction rs arbitrary: ad0) (simp_all add: fetchMetrics_histories)
  moreover have "histories_ok (init_admin symbol m)" by (simp add: histories_ok_def init_admin_def)
  ultimately show ?thesis by (auto simp: fetchMetrics_def Let_def push_tl)
qed

theorem histories_slide_witness:
  "ad_cpuHistory (fetchMetrics (Some (JObj [(''cpu_percent'', JNum 7)])) (init_admin [] SPOT)) = replicate 24 0 @ [7]"
proof -
  have "jprop (JObj [(''cpu_percent'', JNum 7)]) ''cpu_percent'' = Some (JNum 7)" by simp
  moreover have "tl (ad_cpuHistory (init_admin [] SPOT)) = replicate 24 0"
    by (simp add: init_admin_def tl_replicate)
  ultimately show ?thesis
    using histories_slide [of "[]" "[]" SPOT "JObj [(''cpu_percent'', JNum 7)]" 7 "init_admin [] SPOT"] by simp
qed

text \<open>
  A graph stays in its view: of values between 0 and the largest one, all points lie in the width of 300 and between the
  heights 4 and 44, they go from left to right, and with two values or more the last is at the right border.
\<close>

theorem graph_stays_in_view:
  assumes max: "0 < m" and vals: "\<And>v. v \<in> set data \<Longrightarrow> 0 \<le> v \<and> v \<le> m"
    and i: "i < length data"
  defines "ps \<equiv> graph_points m data"
  shows "length ps = length data \<and> 0 \<le> fst (ps ! i) \<and> fst (ps ! i) \<le> 300 \<and> 4 \<le> snd (ps ! i) \<and> snd (ps ! i) \<le> 44 \<and>
         (\<forall>j < i. fst (ps ! j) < fst (ps ! i)) \<and> (Suc i = length data \<and> 2 \<le> length data \<longrightarrow> fst (ps ! i) = 300)"
proof -
  define w where "w = or_else (real (length data) - 1) 1"
  have nth: "ps ! j = (real j * (300 / w), 48 - (data ! j / m) * (48 - 8) - 4)" if "j < length data" for j
    using that by (simp add: ps_def graph_points_def w_def nth_enumerate_eq)
  have w: "0 < w" "real i \<le> w" using i by (auto simp: w_def or_else_def)
  have "0 \<le> data ! i / m" "data ! i / m \<le> 1" using vals [OF nth_mem [OF i]] max by simp_all
  then have "4 \<le> snd (ps ! i)" "snd (ps ! i) \<le> 44"
  proof -
    define x where "x = data ! i / m"
    have "snd (ps ! i) = 44 - 40 * x" using nth [OF i] by (simp add: x_def)
    moreover have "0 \<le> x" "x \<le> 1" using \<open>0 \<le> data ! i / m\<close> \<open>data ! i / m \<le> 1\<close> by (simp_all only: x_def)
    ultimately show "4 \<le> snd (ps ! i)" "snd (ps ! i) \<le> 44" by linarith+
  qed
  moreover have "real i * (300 / w) \<le> 300" using w by (simp add: field_simps)
  moreover have "real j * (300 / w) < real i * (300 / w)" if "j < i" for j using that w(1) by (simp add: divide_strict_right_mono)
  moreover have "real i * (300 / w) = 300" if "Suc i = length data" "2 \<le> length data"
  proof -
    have "w = real i" using that by (simp add: w_def or_else_def)
    with w(1) show ?thesis by simp
  qed
  moreover have "length ps = length data" by (simp add: ps_def graph_points_def)
  ultimately show ?thesis using nth i w(1) by auto
qed

theorem graph_stays_in_view_witness:
  "fst (graph_points 100 [0, 50, 100] ! 2) = 300 \<and> 4 \<le> snd (graph_points 100 [0, 50, 100] ! 2)"
proof -
  have "0 \<le> v \<and> v \<le> 100" if "v \<in> set [0, 50, 100 :: number]" for v using that by auto
  from graph_stays_in_view [where m = 100 and data = "[0, 50, 100]" and i = 2, OF _ this] show ?thesis by simp
qed

text \<open>
  The shown uptime is the number of whole seconds, with less than sixty minutes and seconds.
\<close>

theorem uptime_is_exact:
  assumes "0 \<le> secs"
  shows "\<exists>h m s. formatUptime secs = show_int h @ ''h '' @ show_int m @ ''m '' @ show_int s @ ''s'' \<and>
                 0 \<le> h \<and> 0 \<le> m \<and> m < 60 \<and> 0 \<le> s \<and> s < 60 \<and> h * 3600 + m * 60 + s = \<lfloor>secs\<rfloor>"
proof -
  let ?n = "\<lfloor>secs\<rfloor>"
  have fl: "\<lfloor>js_mod secs (real_of_int k)\<rfloor> = ?n mod k" "\<lfloor>secs / real_of_int k\<rfloor> = ?n div k" if "0 < k" for k :: int
  proof -
    show d: "\<lfloor>secs / real_of_int k\<rfloor> = ?n div k" using that by (simp add: floor_divide_real_eq_div)
    have "\<lfloor>secs - real_of_int (k * (?n div k))\<rfloor> = ?n - k * (?n div k)" by linarith
    then show "\<lfloor>js_mod secs (real_of_int k)\<rfloor> = ?n mod k" using d by (simp add: js_mod_def minus_mult_div_eq_mod)
  qed
  have h: "\<lfloor>secs / 3600\<rfloor> = ?n div 3600" using fl(2) [of 3600] by simp
  have s: "\<lfloor>js_mod secs 60\<rfloor> = ?n mod 60" using fl(1) [of 60] by simp
  have "\<lfloor>js_mod secs 3600 / 60\<rfloor> = \<lfloor>js_mod secs 3600\<rfloor> div 60"
    using floor_divide_real_eq_div [of 60 "js_mod secs 3600"] by simp
  then have m: "\<lfloor>js_mod secs 3600 / 60\<rfloor> = ?n mod 3600 div 60" using fl(1) [of 3600] by simp
  have n: "0 \<le> ?n" using assms by simp
  have "?n div 3600 * 3600 + ?n mod 3600 = ?n" "?n mod 3600 div 60 * 60 + ?n mod 3600 mod 60 = ?n mod 3600"
    by (rule div_mult_mod_eq)+
  moreover have "?n mod 3600 mod 60 = ?n mod 60" by (rule mod_mod_cancel) simp
  moreover have "0 \<le> ?n mod 3600" "?n mod 3600 < 3600" "0 \<le> ?n mod 60" "?n mod 60 < 60" by simp_all
  ultimately have sum: "?n div 3600 * 3600 + ?n mod 3600 div 60 * 60 + ?n mod 60 = ?n" and "?n mod 3600 div 60 < 60"
    by linarith+
  moreover have "0 \<le> ?n div 3600" "0 \<le> ?n mod 3600 div 60"
    using n \<open>0 \<le> ?n mod 3600\<close> by (simp_all add: pos_imp_zdiv_nonneg_iff)
  moreover have "formatUptime secs =
      show_int (?n div 3600) @ ''h '' @ show_int (?n mod 3600 div 60) @ ''m '' @ show_int (?n mod 60) @ ''s''"
    by (simp only: formatUptime_def uptime_parts_def h m s prod.case Let_def)
  ultimately show ?thesis using \<open>0 \<le> ?n mod 60\<close> \<open>?n mod 60 < 60\<close> by blast
qed

theorem uptime_is_exact_witness:
  "\<exists>h m s. formatUptime 3725 = show_int h @ ''h '' @ show_int m @ ''m '' @ show_int s @ ''s'' \<and>
           0 \<le> h \<and> 0 \<le> m \<and> m < 60 \<and> 0 \<le> s \<and> s < 60 \<and> h * 3600 + m * 60 + s = \<lfloor>3725 :: real\<rfloor>"
  by (rule uptime_is_exact) simp

text \<open>
  A response to an added ticker resets the form to what it was when it was sent: whatever was typed meanwhile is lost.
\<close>

theorem late_response_discards_typing:
  "ad_newTicker (add_ticker_response True sent tickers (ad\<lparr>ad_newTicker := typed\<rparr>)) = sent\<lparr>nt_symbol := []\<rparr>"
  by (simp add: add_ticker_response_def fetchTickers_def split: option.split)

end
