(* ===== verification/FootprintPaint.thy ===== *)
theory FootprintPaint
  imports ClusterSearch JsDate
begin

text \<open>
  What the canvas effect of \<open>frontend-chart/src/components/ClusterChart.tsx\<close> paints for the candles: the columns it goes
  through, the candles and footprint cells with their histogram bars, numbers and inks, the session
  profile, the delta panel, the line of the cumulative delta, the time labels and the crosshair.

  A painting is a list of shapes in the coordinates of the canvas after its translation by the scroll position. An ink is a
  tone with the opacity the code computes; constant colors, line widths, dashes and fonts are left out. The width of
  a text is an argument, as the browser measures it.
\<close>

section \<open>Shapes\<close>

datatype ink = Plain | Ink tone number

datatype shape =
    Fill_rect number number number number ink
  | Stroke_rect number number number number
  | Line number number number number
  | Label string number number

datatype data_kind = Bid_ask | Delta_data | Volume_data

text \<open>The horizontal extent of a shape is inside an interval; the place of a text is its anchor.\<close>

fun in_columns :: "number \<Rightarrow> number \<Rightarrow> shape \<Rightarrow> bool" where
  "in_columns l r (Fill_rect x y w h i) \<longleftrightarrow> l \<le> x \<and> x + w \<le> r \<and> 0 \<le> w"
| "in_columns l r (Stroke_rect x y w h) \<longleftrightarrow> l \<le> x \<and> x + w \<le> r \<and> 0 \<le> w"
| "in_columns l r (Line x1 y1 x2 y2) \<longleftrightarrow> l \<le> x1 \<and> x1 \<le> r \<and> l \<le> x2 \<and> x2 \<le> r"
| "in_columns l r (Label s x y) \<longleftrightarrow> l \<le> x \<and> x \<le> r"

fun opacity_ok :: "shape \<Rightarrow> bool" where
  "opacity_ok (Fill_rect x y w h (Ink t a)) \<longleftrightarrow> 0 \<le> a \<and> a \<le> 1"
| "opacity_ok _ \<longleftrightarrow> True"

section \<open>Numbers as texts\<close>

text \<open>\<open>x.toFixed(d)\<close> for a number below \<open>10^21\<close>.\<close>

definition fixed_digits :: "nat \<Rightarrow> number \<Rightarrow> string" where
  "fixed_digits d x =
     (let n = nat \<lfloor>x * 10 ^ d + 1 / 2\<rfloor>
      in show_nat (n div 10 ^ d) @ (if d = 0 then [] else CHR ''.'' # pad d (n mod 10 ^ d)))"

definition fixed_text :: "nat \<Rightarrow> number \<Rightarrow> string" where
  "fixed_text d x = (if x < 0 then CHR ''-'' # fixed_digits d (- x) else fixed_digits d x)"

section \<open>Columns and candles\<close>

definition pitch :: "view \<Rightarrow> number" where
  "pitch v = v_candleWidth v + spacing (v_candleWidth v)"

definition viewportWidth :: "view \<Rightarrow> number" where
  "viewportWidth v = or_else (v_clientWidth v) 800"

definition startIdx :: "view \<Rightarrow> int" where
  "startIdx v = max 0 \<lfloor>(v_visibleScrollLeft v - margin_left - v_candleWidth v) / pitch v\<rfloor>"

definition endIdx :: "view \<Rightarrow> nat \<Rightarrow> int" where
  "endIdx v n = min (int n - 1) \<lceil>(v_visibleScrollLeft v + viewportWidth v - margin_left) / pitch v\<rceil>"

definition drawn_columns :: "view \<Rightarrow> nat \<Rightarrow> nat list" where
  "drawn_columns v n = map nat [startIdx v .. endIdx v n]"

definition hideFootprintNumbers :: "view \<Rightarrow> nat \<Rightarrow> bool" where
  "hideFootprintNumbers v n \<longleftrightarrow> endIdx v n - startIdx v + 1 > 70"

definition visibleMaxCandleVolume :: "view \<Rightarrow> candle list \<Rightarrow> number" where
  "visibleMaxCandleVolume v candles = scan_max (\<lambda>i. c_volume (candles ! i)) 1 (drawn_columns v (length candles))"

definition visibleMaxCellVol :: "candle list \<Rightarrow> number" where
  "visibleMaxCellVol visible = foldl (\<lambda>m c. scan_max cell_volume m (c_cells c)) 1 visible"

text \<open>The dashed line between two days; \<open>day\<close> prints the date of a time in the chosen time zone.\<close>

definition session_separators :: "(number \<Rightarrow> string) \<Rightarrow> scene \<Rightarrow> view \<Rightarrow> candle list \<Rightarrow> shape list" where
  "session_separators day s v candles =
     map (\<lambda>i. let x = margin_left + real (nat i) * pitch v - spacing (v_candleWidth v) / 2
              in Line x margin_top x (totalSvgHeight (sc_panels s) - margin_bottom))
       (filter (\<lambda>i. day (c_timestamp (candles ! nat (i - 1))) \<noteq> day (c_timestamp (candles ! nat i)))
          [max 1 (startIdx v) .. endIdx v (length candles)])"

text \<open>The line at the price of the pair, from the last candle on.\<close>

definition price_tracker :: "scene \<Rightarrow> view \<Rightarrow> number \<Rightarrow> nat \<Rightarrow> shape list" where
  "price_tracker s v price n =
     (let y = price_y s v price
      in if y \<ge> margin_top \<and> y \<le> margin_top + chartHeight (sc_panels s)
         then let startX = margin_left + real (n - 1) * pitch v + v_candleWidth v / 2
              in [Line startX y (scrollWidth n (v_candleWidth v) (v_clientWidth v)) y]
         else [])"

text \<open>The bars of the session profile, at the left border of what is visible.\<close>

definition session_bars :: "scene \<Rightarrow> view \<Rightarrow> (number \<times> number) list \<times> number \<times> number \<Rightarrow> shape list" where
  "session_bars s v p =
     (let (buckets, maxProfileVol, size) = p;
          range = maxPrice (sc_bounds s) (v_verticalScale v) (v_priceCenterOffset v) -
                  minPrice (sc_bounds s) (v_verticalScale v) (v_priceCenterOffset v);
          ch = chartHeight (sc_panels s)
      in concat (map (\<lambda>(price, volume).
           let bWidth = (volume / maxProfileVol) * 65;
               bY = price_y s v price - (size / range) * ch / 2;
               bHeight = max 2 ((size / range) * ch - 3 / 2)
           in [Fill_rect (margin_left + v_visibleScrollLeft v) bY bWidth bHeight Plain,
               Stroke_rect (margin_left + v_visibleScrollLeft v) bY bWidth bHeight]) buckets))"

text \<open>The second line of the watermark names the interval \<open>1M\<close>, whatever the chart's interval is.\<close>

definition watermark :: "string \<Rightarrow> string option \<Rightarrow> string list" where
  "watermark symbol market = [''PROCLUSTER'', toUpperCase symbol, str_or market ''SPOT'', ''1M'']"

text \<open>Wick, body of the plain mode, and the volume histogram behind a candle.\<close>

definition candle_wick :: "scene \<Rightarrow> view \<Rightarrow> nat \<Rightarrow> candle \<Rightarrow> shape" where
  "candle_wick s v i c =
     (let x = candle_x (v_candleWidth v) i + v_candleWidth v / 2 in Line x (price_y s v (c_high c)) x (price_y s v (c_low c)))"

definition plain_body :: "scene \<Rightarrow> view \<Rightarrow> nat \<Rightarrow> candle \<Rightarrow> shape list" where
  "plain_body s v i c =
     (let x = candle_x (v_candleWidth v) i;
          y1 = price_y s v (max (c_open c) (c_close c)); y2 = price_y s v (min (c_open c) (c_close c));
          rectY = min y1 y2; rectH = max 3 \<bar>y1 - y2\<bar>;
          t = (if c_close c \<ge> c_open c then Up else Down)
      in [Fill_rect x rectY (v_candleWidth v) rectH (Ink t 1), Stroke_rect x rectY (v_candleWidth v) rectH])"

definition volume_bar :: "scene \<Rightarrow> view \<Rightarrow> number \<Rightarrow> number \<Rightarrow> number \<Rightarrow> number \<Rightarrow> nat \<Rightarrow> candle \<Rightarrow> shape list" where
  "volume_bar s v maxVol threshold percent alpha i c =
     (let barH = calculateBarHeight (c_volume c) maxVol (chartHeight (sc_panels s)) percent;
          x = candle_x (v_candleWidth v) i; barY = margin_top + chartHeight (sc_panels s) - barH
      in [Fill_rect (x + 1) barY (v_candleWidth v - 2) barH (Ink (volume_getStyles (c_delta c) threshold) alpha),
          Stroke_rect (x + 1) barY (v_candleWidth v - 2) barH])"

section \<open>Footprint cells\<close>

definition sepX :: "number \<Rightarrow> number \<Rightarrow> number" where
  "sepX w x = x + js_round (w / 2)"

definition core_box :: "scene \<Rightarrow> view \<Rightarrow> nat \<Rightarrow> candle \<Rightarrow> shape list" where
  "core_box s v i c =
     (let w = v_candleWidth v; x = candle_x w i;
          top = price_y s v (max (c_open c) (c_close c)); bottom = price_y s v (min (c_open c) (c_close c));
          bodyH = max 3 (bottom - top); step = sc_priceStep s; cells = c_cells c
      in Stroke_rect (x + 1 / 2) (top + 1 / 2) (w - 1) (bodyH - 1) #
         (if cells = [] then []
          else [Line (sepX w x) (price_y s v (cell_price (hd cells) + step / 2))
                     (sepX w x) (price_y s v (cell_price (last cells) - step / 2))]))"

text \<open>The diagonal imbalances of a cell against its neighbors.\<close>

definition isDiagonalBuyImbalance :: "cell list \<Rightarrow> nat \<Rightarrow> bool" where
  "isDiagonalBuyImbalance cells k \<longleftrightarrow>
     Suc k < length cells \<and> cell_ask (cells ! k) > cell_bid (cells ! Suc k) * 3 \<and> cell_ask (cells ! k) > 0"

definition isDiagonalSellImbalance :: "cell list \<Rightarrow> nat \<Rightarrow> bool" where
  "isDiagonalSellImbalance cells k \<longleftrightarrow>
     0 < k \<and> cell_bid (cells ! k) > cell_ask (cells ! (k - 1)) * 3 \<and> cell_bid (cells ! k) > 0"

definition cellHeight :: "scene \<Rightarrow> view \<Rightarrow> cell \<Rightarrow> number" where
  "cellHeight s v c =
     max (3 / 2) (price_y s v (cell_price c - sc_priceStep s / 2) - price_y s v (cell_price c + sc_priceStep s / 2))"

definition cellY :: "scene \<Rightarrow> view \<Rightarrow> cell \<Rightarrow> number" where
  "cellY s v c = price_y s v (cell_price c + sc_priceStep s / 2)"

definition drawHeight :: "scene \<Rightarrow> view \<Rightarrow> cell \<Rightarrow> number" where
  "drawHeight s v c = max 1 (cellHeight s v c - 6 / 10)"

definition ratio_of :: "number \<Rightarrow> number \<Rightarrow> number" where
  "ratio_of m x = (if x > 0 then x / m else 0)"

definition cell_background ::
  "bool \<Rightarrow> data_kind \<Rightarrow> number \<Rightarrow> number \<Rightarrow> scene \<Rightarrow> view \<Rightarrow> number \<Rightarrow> cell \<Rightarrow> shape list" where
  "cell_background isLight kind maxSingle maxVol s v x c =
     (let w = v_candleWidth v; y = cellY s v c; h = drawHeight s v c;
          outline = Stroke_rect (x + 1 / 2) (y + 1 / 2) (w - 1) h;
          fill = (\<lambda>t a. Fill_rect (x + 1 / 2) (y + 1 / 2) (w - 1) h (Ink t a))
      in case kind of
           Bid_ask \<Rightarrow> [outline]
         | Delta_data \<Rightarrow>
             let d = cell_ask c - cell_bid c; deltaOpacity = 4 / 100 + (\<bar>d\<bar> / maxSingle) * (45 / 100)
             in [fill (if d > 0 then Up else Down) (if isLight then deltaOpacity * (70 / 100) else deltaOpacity), outline]
         | Volume_data \<Rightarrow>
             let volOpacity = 4 / 100 + ratio_of maxVol (cell_volume c) * (45 / 100)
             in [fill Flat (volOpacity * (if isLight then 70 / 100 else 60 / 100)), outline])"

definition bar_opacity :: "bool \<Rightarrow> number \<Rightarrow> number" where
  "bar_opacity isLight ratio =
     (let r = min 1 (max 0 ratio) in if isLight then 6 / 100 + r * (68 / 100) else 10 / 100 + r * (85 / 100))"

definition maxBarWidth :: "number \<Rightarrow> number" where
  "maxBarWidth w = js_round ((w / 2) * (90 / 100))"

definition cell_bars ::
  "bool \<Rightarrow> bool \<Rightarrow> data_kind \<Rightarrow> number \<Rightarrow> number \<Rightarrow> scene \<Rightarrow> view \<Rightarrow> number \<Rightarrow> cell \<Rightarrow> shape list" where
  "cell_bars isLight clusters kind maxSingle maxVol s v x c =
     (let w = v_candleWidth v; y = cellY s v c + 1 / 2; h = drawHeight s v c
      in if clusters \<and> kind = Bid_ask
         then let bidW = (if cell_bid c > 0 then (cell_bid c / maxSingle) * maxBarWidth w else 0);
                  askW = (if cell_ask c > 0 then (cell_ask c / maxSingle) * maxBarWidth w else 0)
              in (if bidW > 0
                  then [Fill_rect (sepX w x - bidW) y bidW h (Ink Down (bar_opacity isLight (ratio_of maxSingle (cell_bid c))))]
                  else []) @
                 (if askW > 0
                  then [Fill_rect (sepX w x) y askW h (Ink Up (bar_opacity isLight (ratio_of maxSingle (cell_ask c))))]
                  else [])
         else let barW = (if cell_volume c > 0 then (cell_volume c / maxVol) * (w - 2) else 0)
              in if barW > 0
                 then [Fill_rect (x + 1) y barW h
                         (Ink (if cell_ask c > cell_bid c then Up else Down) (if isLight then 35 / 100 else 45 / 100))]
                 else [])"

section \<open>Numbers in the cells\<close>

definition decimals :: "number \<Rightarrow> nat" where
  "decimals maxSingleVal =
     (if maxSingleVal < 1 / 10 then 4 else if maxSingleVal < 1 then 3
      else if maxSingleVal < 10 then 2 else if maxSingleVal < 100 then 1 else 0)"

definition fmt :: "number \<Rightarrow> number \<Rightarrow> string" where
  "fmt maxSingle x = (if x = 0 then ''0'' else fixed_text (decimals maxSingle) x)"

definition delta_text :: "number \<Rightarrow> cell \<Rightarrow> string" where
  "delta_text maxSingle c =
     (let d = cell_ask c - cell_bid c in (if d > 0 then ''+'' else if d < 0 then ''-'' else []) @ fmt maxSingle \<bar>d\<bar>)"

definition measured_text :: "data_kind \<Rightarrow> number \<Rightarrow> cell \<Rightarrow> string" where
  "measured_text kind maxSingle c =
     (case kind of
        Bid_ask \<Rightarrow> fmt maxSingle (cell_bid c) @ ''x'' @ fmt maxSingle (cell_ask c)
      | Delta_data \<Rightarrow> delta_text maxSingle c
      | Volume_data \<Rightarrow> fmt maxSingle (cell_volume c))"

definition finalFontSize :: "number \<Rightarrow> number \<Rightarrow> nat \<Rightarrow> number" where
  "finalFontSize h w textLength =
     (let idealSize = max 5 (js_floor (h * (72 / 100)));
          maxByWidth = max 7 (js_floor ((w - 4) / (real textLength * (55 / 100))));
          size1 = min idealSize maxByWidth;
          size2 = (if h > 24 then max size1 (min 16 (js_floor (h * (65 / 100)))) else size1);
          size3 = (if size2 < 5 then 5 else size2)
      in if size3 > 28 then 28 else size3)"

definition cell_fontSize :: "data_kind \<Rightarrow> number \<Rightarrow> scene \<Rightarrow> view \<Rightarrow> cell \<Rightarrow> number" where
  "cell_fontSize kind maxSingle s v c =
     finalFontSize (cellHeight s v c) (v_candleWidth v) (max 1 (length (measured_text kind maxSingle c)))"

text \<open>The three texts of bid and ask around a center; \<open>width\<close> measures a text in the chosen font.\<close>

definition drawCenteredBidAsk :: "(string \<Rightarrow> number) \<Rightarrow> number \<Rightarrow> number \<Rightarrow> cell \<Rightarrow> number \<Rightarrow> number \<Rightarrow> shape list" where
  "drawCenteredBidAsk width maxSingle fontSize c targetX targetY =
     (let bid = fmt maxSingle (cell_bid c); ask = fmt maxSingle (cell_ask c);
          gap = max (7 / 2) (fontSize * (32 / 100));
          totalW = width bid + width ''x'' + width ask + gap * 2;
          startX = targetX - totalW / 2
      in [Label bid startX targetY, Label ''x'' (startX + width bid + gap) targetY,
          Label ask (startX + width bid + width ''x'' + gap * 2) targetY])"

definition cell_labels ::
  "(number \<Rightarrow> string \<Rightarrow> number) \<Rightarrow> bool \<Rightarrow> data_kind \<Rightarrow> number \<Rightarrow> scene \<Rightarrow> view \<Rightarrow> number \<Rightarrow> cell \<Rightarrow> shape list" where
  "cell_labels meter hidden kind maxSingle s v x c =
     (if cellHeight s v c \<ge> 4 \<and> \<not> hidden
      then let fs = cell_fontSize kind maxSingle s v c; cx = x + v_candleWidth v / 2; cy = cellY s v c + cellHeight s v c / 2
           in case kind of
                Bid_ask \<Rightarrow> if isPoc c \<or> v_candleWidth v \<ge> 35 then drawCenteredBidAsk (meter fs) maxSingle fs c cx cy else []
              | Delta_data \<Rightarrow> [Label (delta_text maxSingle c) cx cy]
              | Volume_data \<Rightarrow> [Label (fmt maxSingle (cell_volume c)) cx cy]
      else [])"

text \<open>The colors of the numbers: a ramp between two colors by a power of the share of the candle's largest number.\<close>

definition candleMaxSingleVal :: "cell list \<Rightarrow> number" where
  "candleMaxSingleVal cells =
     foldl (\<lambda>m c. let m1 = (if cell_bid c > m then cell_bid c else m) in if cell_ask c > m1 then cell_ask c else m1) 1 cells"

definition ramp_share :: "number \<Rightarrow> number \<Rightarrow> number" where
  "ramp_share m x = (min 1 (max 0 (if m > 0 then x / m else 0))) powr (7 / 10)"

definition ramp :: "number \<Rightarrow> int \<times> int \<Rightarrow> number" where
  "ramp t ends = js_round (of_int (fst ends) + (of_int (snd ends) - of_int (fst ends)) * t)"

definition bid_color :: "bool \<Rightarrow> bool \<Rightarrow> number \<Rightarrow> number \<times> number \<times> number" where
  "bid_color isLight sell t =
     (case (if isLight then if sell then ((195, 180), (170, 30), (170, 40)) else ((180, 15), (190, 23), (204, 42))
            else if sell then ((80, 255), (50, 51), (55, 85)) else ((65, 255), (78, 255), (92, 255))) of
        (r, g, b) \<Rightarrow> (ramp t r, ramp t g, ramp t b))"

definition ask_color :: "bool \<Rightarrow> bool \<Rightarrow> number \<Rightarrow> number \<times> number \<times> number" where
  "ask_color isLight buy t =
     (case (if isLight then if buy then ((170, 15), (195, 120), (175, 50)) else ((180, 15), (190, 23), (204, 42))
            else if buy then ((55, 0), (80, 245), (65, 140)) else ((65, 255), (78, 255), (92, 255))) of
        (r, g, b) \<Rightarrow> (ramp t r, ramp t g, ramp t b))"

text \<open>All of a candle in the detailed view.\<close>

definition footprint ::
  "(number \<Rightarrow> string \<Rightarrow> number) \<Rightarrow> bool \<Rightarrow> candle_type \<Rightarrow> data_kind \<Rightarrow> scene \<Rightarrow> view \<Rightarrow> candle list \<Rightarrow> nat \<Rightarrow> shape list" where
  "footprint meter isLight ct kind s v candles i =
     (let c = candles ! i; x = candle_x (v_candleWidth v) i; visible = visibleCandlesList v candles;
          maxSingle = visibleMaxSingleVol visible; maxVol = visibleMaxCellVol visible;
          clusters = (effectiveCandleType ct v = Clusters); hidden = hideFootprintNumbers v (length candles)
      in core_box s v i c @
         concat (map (\<lambda>cl. cell_background isLight kind maxSingle maxVol s v x cl @
                           cell_bars isLight clusters kind maxSingle maxVol s v x cl @
                           cell_labels meter hidden kind maxSingle s v x cl) (c_cells c)))"

section \<open>Sub-panels\<close>

definition delta_bar_height :: "number \<Rightarrow> number \<Rightarrow> candle list \<Rightarrow> candle \<Rightarrow> number" where
  "delta_bar_height deltaScale panelH candles c =
     max 2 ((\<bar>c_delta c\<bar> / zoomedMaxCandleDelta deltaScale candles) * (panelH * (40 / 100)))"

text \<open>The delta panel of a column, in coordinates relative to the top of the panel.\<close>

definition delta_panel :: "number \<Rightarrow> number \<Rightarrow> view \<Rightarrow> candle list \<Rightarrow> nat \<Rightarrow> shape list" where
  "delta_panel deltaScale panelH v candles i =
     (let c = candles ! i; w = v_candleWidth v; x = candle_x w i; mid = panelH / 2;
          barHeight = delta_bar_height deltaScale panelH candles c;
          barY = (if c_delta c \<ge> 0 then mid - barHeight else mid)
      in [Line x mid (x + w) mid, Fill_rect (x + 4) barY (w - 8) barHeight (Ink (getDeltaStyle (c_delta c)) (30 / 100)),
          Stroke_rect (x + 4) barY (w - 8) barHeight] @
         (if w \<ge> 45
          then [Label ((if c_delta c \<ge> 0 then ''+'' else []) @ fixed_text 0 (c_delta c) @ ''K'') (x + w / 2)
                  (if c_delta c \<ge> 0 then mid - barHeight - 4 else mid + barHeight + 11)]
          else []))"

text \<open>The points of the line of the cumulative delta: one column more on either side of what is drawn.\<close>

definition cvd_line :: "number \<Rightarrow> number \<Rightarrow> view \<Rightarrow> candle list \<Rightarrow> (number \<times> number) list" where
  "cvd_line cvdScale panelH v candles =
     (let pts = cumulativeDeltaPoints v candles; r = cvd_range v pts
      in map (\<lambda>i. (fst (pts ! nat i), getCvdY cvdScale r (snd (pts ! nat i)) panelH))
           [max 0 (startIdx v - 1) .. min (int (length pts) - 1) (endIdx v (length candles) + 1)])"

section \<open>Time labels and crosshair\<close>

text \<open>\<open>cross\<close> is the horizontal position of the crosshair, \<open>-1\<close> the column without one.\<close>

definition hovered_column :: "view \<Rightarrow> number option \<Rightarrow> int" where
  "hovered_column v cross =
     (case cross of None \<Rightarrow> - 1 | Some x \<Rightarrow> \<lfloor>((x + v_visibleScrollLeft v) - margin_left) / pitch v\<rfloor>)"

definition has_label :: "view \<Rightarrow> number option \<Rightarrow> nat \<Rightarrow> bool" where
  "has_label v cross i \<longleftrightarrow>
     (let hovered = hovered_column v cross;
          isHovered = (cross \<noteq> None \<and> int i = hovered);
          standard = (int i mod \<lfloor>labelStep (pitch v)\<rfloor> = 0);
          tooClose = (if isHovered then False else hovered \<noteq> - 1 \<and> \<bar>of_int (int i - hovered)\<bar> * pitch v < 65)
      in isHovered \<or> (standard \<and> \<not> tooClose))"

definition labelled_columns :: "view \<Rightarrow> number option \<Rightarrow> nat \<Rightarrow> nat list" where
  "labelled_columns v cross n = filter (has_label v cross) (drawn_columns v n)"

definition time_labels :: "(number \<Rightarrow> bool \<Rightarrow> string) \<Rightarrow> scene \<Rightarrow> view \<Rightarrow> number option \<Rightarrow> candle list \<Rightarrow> shape list" where
  "time_labels formatTimezone s v cross candles =
     map (\<lambda>i. Label (formatTimezone (c_timestamp (candles ! i)) (cross \<noteq> None \<and> int i = hovered_column v cross))
                (candle_x (v_candleWidth v) i + v_candleWidth v / 2) (totalSvgHeight (sc_panels s) - margin_bottom + 16))
       (labelled_columns v cross (length candles))"

definition crosshair_lines :: "scene \<Rightarrow> view \<Rightarrow> (number \<times> number) option \<Rightarrow> shape list" where
  "crosshair_lines s v cross =
     (case cross of
        None \<Rightarrow> []
      | Some (x, y) \<Rightarrow> [Line margin_left y (viewportWidth v) y,
                        Line x margin_top x (totalSvgHeight (sc_panels s) - margin_bottom)])"

section \<open>Lemmas on maxima\<close>

lemma foldl_foldl: "foldl (\<lambda>m c. foldl f m (g c)) a cs = foldl f a (concat (map g cs))"
  by (induction cs arbitrary: a) simp_all

lemma foldl_grows:
  fixes f :: "number \<Rightarrow> 'a \<Rightarrow> number"
  assumes "\<And>m x. m \<le> f m x"
  shows "a \<le> foldl f a xs"
proof (induction xs arbitrary: a)
  case (Cons x xs)
  show ?case using assms [of a x] Cons [of "f a x"] by simp
qed simp

lemma foldl_reaches:
  fixes f :: "number \<Rightarrow> 'a \<Rightarrow> number"
  assumes "\<And>m x. m \<le> f m x" "\<And>m x. h x \<le> f m x" "x \<in> set xs"
  shows "h x \<le> foldl f a xs"
  using assms(3)
proof (induction xs arbitrary: a)
  case (Cons y ys)
  show ?case
  proof (cases "x = y")
    case True
    then show ?thesis using assms(2) [of x a] foldl_grows [of f "f a y" ys] assms(1) by fastforce
  qed (use Cons in auto)
qed simp

lemma visibleMaxSingleVol_ge:
  "1 \<le> visibleMaxSingleVol cs"
  "c \<in> set cs \<Longrightarrow> cl \<in> set (c_cells c) \<Longrightarrow> cell_bid cl \<le> visibleMaxSingleVol cs \<and> cell_ask cl \<le> visibleMaxSingleVol cs"
  unfolding visibleMaxSingleVol_def foldl_foldl
  by (rule foldl_grows; simp add: Let_def)
    (intro conjI; rule foldl_reaches [where x = cl]; auto simp: Let_def)

lemma visibleMaxCellVol_ge:
  "1 \<le> visibleMaxCellVol cs"
  "c \<in> set cs \<Longrightarrow> cl \<in> set (c_cells c) \<Longrightarrow> cell_volume cl \<le> visibleMaxCellVol cs"
  unfolding visibleMaxCellVol_def scan_max_def foldl_foldl
  by (rule foldl_grows; simp) (rule foldl_reaches [where x = cl]; auto)

lemma candleMaxSingleVal_ge: "1 \<le> candleMaxSingleVal cells"
  unfolding candleMaxSingleVal_def by (rule foldl_grows) (simp add: Let_def)

lemma visible_member:
  "is_visible v i \<Longrightarrow> i < length candles \<Longrightarrow> candles ! i \<in> set (visibleCandlesList v candles)"
  by (force simp: visibleCandlesList_def set_zip image_iff)

section \<open>Lemmas on columns\<close>

lemma pitch_gt: "0 < v_candleWidth v \<Longrightarrow> 1 < pitch v"
  using spacing_ge [of "v_candleWidth v"] by (simp add: pitch_def)

lemma set_drawn_columns: "i \<in> set (drawn_columns v n) \<longleftrightarrow> startIdx v \<le> int i \<and> int i \<le> endIdx v n"
proof
  assume "i \<in> set (drawn_columns v n)"
  then obtain k where "i = nat k" "startIdx v \<le> k" "k \<le> endIdx v n" by (auto simp: drawn_columns_def)
  then show "startIdx v \<le> int i \<and> int i \<le> endIdx v n" by (simp add: startIdx_def)
next
  assume "startIdx v \<le> int i \<and> int i \<le> endIdx v n"
  then show "i \<in> set (drawn_columns v n)"
    unfolding drawn_columns_def by (auto intro!: image_eqI [of _ _ "int i"])
qed

lemma candle_x_pitch: "candle_x (v_candleWidth v) i = margin_left + real i * pitch v"
  by (simp add: candle_x_def pitch_def)

text \<open>
  C26. Every candle that the canvas can show is painted: all columns that overlap what is visible are among the drawn
  ones, and all drawn ones have a candle.
\<close>

theorem drawn_columns_cover_view:
  fixes v :: view
  defines "x \<equiv> candle_x (v_candleWidth v)"
  assumes w: "0 < v_candleWidth v"
  shows "(\<forall>i < n. v_visibleScrollLeft v \<le> x i + v_candleWidth v \<and> x i \<le> v_visibleScrollLeft v + viewportWidth v \<longrightarrow>
            i \<in> set (drawn_columns v n)) \<and> (\<forall>i \<in> set (drawn_columns v n). i < n)"
proof (intro conjI allI impI ballI)
  fix i assume i: "i < n" and vis: "v_visibleScrollLeft v \<le> x i + v_candleWidth v \<and> x i \<le> v_visibleScrollLeft v + viewportWidth v"
  have p: "0 < pitch v" using pitch_gt [OF w] by simp
  have "(v_visibleScrollLeft v - margin_left - v_candleWidth v) / pitch v \<le> real i"
    "real i \<le> (v_visibleScrollLeft v + viewportWidth v - margin_left) / pitch v"
    using vis p by (simp_all add: x_def candle_x_pitch pos_divide_le_eq pos_le_divide_eq)
  then have "\<lfloor>(v_visibleScrollLeft v - margin_left - v_candleWidth v) / pitch v\<rfloor> \<le> int i"
    "int i \<le> \<lceil>(v_visibleScrollLeft v + viewportWidth v - margin_left) / pitch v\<rceil>" by linarith+
  then show "i \<in> set (drawn_columns v n)" using i by (simp add: set_drawn_columns startIdx_def endIdx_def)
next
  fix i assume "i \<in> set (drawn_columns v n)"
  then show "i < n" by (auto simp: set_drawn_columns endIdx_def)
qed

section \<open>Lemmas on bars\<close>

lemma js_round_nonneg: "0 \<le> x \<Longrightarrow> 0 \<le> js_round x"
  by (simp add: js_round_def)

lemma js_round_mono: "x \<le> y \<Longrightarrow> js_round x \<le> js_round y"
  by (simp add: js_round_def floor_mono)

lemma js_round_int [simp]: "js_round (of_int k) = of_int k"
  by (simp add: js_round_def)

text \<open>From the width of 8 on, the two halves of a column hold the widest bars.\<close>

lemma bars_fit:
  assumes "8 \<le> w"
  shows "0 \<le> maxBarWidth w" "maxBarWidth w \<le> js_round (w / 2)" "js_round (w / 2) + maxBarWidth w \<le> w"
proof -
  show "0 \<le> maxBarWidth w" using assms by (simp add: maxBarWidth_def js_round_nonneg)
  show "maxBarWidth w \<le> js_round (w / 2)" unfolding maxBarWidth_def using assms by (intro js_round_mono) simp
  define k j where "k = \<lfloor>w / 2 + 1 / 2\<rfloor>" and "j = \<lfloor>(w / 2) * (90 / 100) + 1 / 2\<rfloor>"
  have k: "of_int k \<le> w / 2 + 1 / 2" "w / 2 + 1 / 2 < of_int k + 1" by (simp_all add: k_def)
  have j: "of_int j \<le> (w / 2) * (90 / 100) + 1 / 2" by (simp add: j_def)
  have jk: "j \<le> k" using assms by (simp add: j_def k_def floor_mono)
  have "of_int k + of_int j \<le> w"
  proof (cases "j = k")
    case False
    with jk have "of_int j + 1 \<le> (of_int k :: number)" by linarith
    then show ?thesis using k by linarith
  next
    case True
    show ?thesis
    proof (cases "k \<le> 4")
      case True
      then have "of_int k \<le> (4 :: number)" by simp
      then show ?thesis using \<open>j = k\<close> assms by simp
    next
      case False
      then have "5 \<le> (of_int k :: number)" by simp
      then show ?thesis using \<open>j = k\<close> j by linarith
    qed
  qed
  then show "js_round (w / 2) + maxBarWidth w \<le> w" by (simp add: maxBarWidth_def js_round_def k_def j_def)
qed

lemma share_bounds: "0 \<le> x \<Longrightarrow> x \<le> m \<Longrightarrow> 1 \<le> m \<Longrightarrow> 0 \<le> x / m \<and> x / m \<le> (1 :: number)"
  by (simp add: divide_le_eq)

lemma share_width: "0 \<le> x \<Longrightarrow> x \<le> m \<Longrightarrow> 1 \<le> m \<Longrightarrow> 0 \<le> b \<Longrightarrow> 0 \<le> x / m * b \<and> x / m * b \<le> (b :: number)"
  using share_bounds [of x m] mult_right_mono [of "x / m" 1 b] mult_nonneg_nonneg [of "x / m" b] by linarith

lemma bar_opacity_bounds: "0 \<le> bar_opacity isLight r \<and> bar_opacity isLight r \<le> 1"
proof -
  define q where "q = min 1 (max 0 r)"
  have "0 \<le> q" "q \<le> 1" by (simp_all add: q_def)
  then show ?thesis unfolding bar_opacity_def Let_def q_def [symmetric] by (cases isLight) simp_all
qed

definition is_label :: "shape \<Rightarrow> bool" where
  "is_label sh = (case sh of Label s x y \<Rightarrow> True | _ \<Rightarrow> False)"

lemma labels_are_labels: "sh \<in> set (cell_labels meter hidden kind maxSingle s v x c) \<Longrightarrow> is_label sh"
  by (auto simp: cell_labels_def drawCenteredBidAsk_def is_label_def Let_def split: if_splits data_kind.splits)

lemma bars_in_column:
  assumes w: "8 \<le> v_candleWidth v" and wf: "cell_wf c"
    and m: "1 \<le> maxSingle" "cell_bid c \<le> maxSingle" "cell_ask c \<le> maxSingle" "1 \<le> maxVol" "cell_volume c \<le> maxVol"
    and sh: "sh \<in> set (cell_bars isLight clusters kind maxSingle maxVol s v x c)"
  shows "in_columns x (x + v_candleWidth v) sh \<and> opacity_ok sh"
proof -
  note fit = bars_fit [OF w]
  have b: "0 \<le> cell_bid c / maxSingle * maxBarWidth (v_candleWidth v) \<and>
           cell_bid c / maxSingle * maxBarWidth (v_candleWidth v) \<le> maxBarWidth (v_candleWidth v)"
    "0 \<le> cell_ask c / maxSingle * maxBarWidth (v_candleWidth v) \<and>
     cell_ask c / maxSingle * maxBarWidth (v_candleWidth v) \<le> maxBarWidth (v_candleWidth v)"
    "0 \<le> cell_volume c / maxVol * (v_candleWidth v - 2) \<and>
     cell_volume c / maxVol * (v_candleWidth v - 2) \<le> v_candleWidth v - 2"
    using w m cell_wfD [OF wf] fit(1) by (intro share_width; simp)+
  show ?thesis
    using sh b fit w bar_opacity_bounds
    by (auto simp: cell_bars_def Let_def sepX_def split: if_splits)
qed

lemma background_in_column:
  assumes w: "8 \<le> v_candleWidth v" and wf: "cell_wf c"
    and m: "1 \<le> maxSingle" "cell_bid c \<le> maxSingle" "cell_ask c \<le> maxSingle" "1 \<le> maxVol" "cell_volume c \<le> maxVol"
    and sh: "sh \<in> set (cell_background isLight kind maxSingle maxVol s v x c)"
  shows "in_columns x (x + v_candleWidth v) sh \<and> opacity_ok sh"
proof -
  define d where "d = \<bar>cell_ask c - cell_bid c\<bar> / maxSingle"
  define r where "r = ratio_of maxVol (cell_volume c)"
  have "\<bar>cell_ask c - cell_bid c\<bar> \<le> maxSingle" using m cell_wfD [OF wf] by linarith
  then have "0 \<le> d \<and> d \<le> 1" unfolding d_def using m(1) by (intro share_bounds) simp_all
  moreover have "0 \<le> r \<and> r \<le> 1"
    unfolding r_def using share_bounds m(4,5) cell_wfD [OF wf] by (simp add: ratio_of_def)
  ultimately show ?thesis
    using sh w unfolding cell_background_def Let_def d_def [symmetric] r_def [symmetric]
    by (cases kind) (auto split: if_splits)
qed

lemma core_in_column:
  assumes w: "8 \<le> v_candleWidth v" and sh: "sh \<in> set (core_box s v i c)"
  shows "in_columns (candle_x (v_candleWidth v) i) (candle_x (v_candleWidth v) i + v_candleWidth v) sh \<and> opacity_ok sh"
  using sh w bars_fit [OF w] js_round_nonneg [of "v_candleWidth v / 2"]
  by (auto simp: core_box_def Let_def sepX_def split: if_splits)


section \<open>What is painted\<close>

lemma in_columns_subset: "sh \<in> set (footprint meter isLight ct kind s v candles i) \<Longrightarrow>
  sh \<in> set (core_box s v i (candles ! i)) \<or>
  (\<exists>cl \<in> set (c_cells (candles ! i)).
     sh \<in> set (cell_background isLight kind (visibleMaxSingleVol (visibleCandlesList v candles))
                 (visibleMaxCellVol (visibleCandlesList v candles)) s v (candle_x (v_candleWidth v) i) cl) \<or>
     sh \<in> set (cell_bars isLight (effectiveCandleType ct v = Clusters) kind (visibleMaxSingleVol (visibleCandlesList v candles))
                 (visibleMaxCellVol (visibleCandlesList v candles)) s v (candle_x (v_candleWidth v) i) cl) \<or> is_label sh)"
  unfolding footprint_def Let_def using labels_are_labels by fastforce


text \<open>The size of the numbers is between 5 and 28 pixels, whatever the cell's height, the column's width and the texts are.\<close>

theorem font_size_in_range: "5 \<le> cell_fontSize kind m s v c \<and> cell_fontSize kind m s v c \<le> 28"
  by (simp add: cell_fontSize_def finalFontSize_def Let_def)

lemma ramp_share_bounds: "0 \<le> ramp_share m x \<and> ramp_share m x \<le> 1"
proof -
  define r where "r = min 1 (max 0 (if m > 0 then x / m else 0))"
  have "0 \<le> r" "r \<le> 1" by (simp_all add: r_def)
  then have "r powr (7 / 10) \<le> 1 powr (7 / 10)" by (intro powr_mono2) simp_all
  then show ?thesis unfolding ramp_share_def r_def [symmetric] by simp
qed

lemma ramp_bounds:
  assumes t: "0 \<le> t \<and> t \<le> 1" and e: "0 \<le> fst e" "fst e \<le> 255" "0 \<le> snd e" "snd e \<le> 255"
  shows "0 \<le> ramp t e \<and> ramp t e \<le> 255"
proof -
  define y where "y = of_int (fst e) + (of_int (snd e) - of_int (fst e)) * t"
  have y: "y = of_int (fst e) * (1 - t) + of_int (snd e) * t" by (simp add: y_def algebra_simps)
  have "of_int (fst e) * (1 - t) \<le> 255 * (1 - t)" "of_int (snd e) * t \<le> 255 * t"
    "0 \<le> of_int (fst e) * (1 - t)" "0 \<le> of_int (snd e) * t"
    using t e by (intro mult_right_mono mult_nonneg_nonneg; simp)+
  then have "0 \<le> y" "y \<le> 255" unfolding y by (simp_all add: algebra_simps)
  then show ?thesis unfolding ramp_def y_def [symmetric]
    using js_round_mono [of y 255] js_round_nonneg [of y] by (simp add: js_round_def)
qed

text \<open>The components of the color of a number are integers between 0 and 255.\<close>

definition is_rgb :: "number \<times> number \<times> number \<Rightarrow> bool" where
  "is_rgb col \<longleftrightarrow> list_all (\<lambda>x. x = of_int \<lfloor>x\<rfloor> \<and> 0 \<le> x \<and> x \<le> 255) [fst col, fst (snd col), snd (snd col)]"

lemma ramp_int: "ramp t e = of_int \<lfloor>ramp t e\<rfloor>"
  by (simp add: ramp_def js_round_def)

theorem number_colors_are_rgb:
  "is_rgb (bid_color isLight sell (ramp_share m x)) \<and> is_rgb (ask_color isLight buy (ramp_share m x))"
  using ramp_int [of "ramp_share m x"]
  by (auto simp: is_rgb_def bid_color_def ask_color_def ramp_bounds [OF ramp_share_bounds])

text \<open>
  The adaptive precision of the numbers never reaches three or four decimals, although small quantities are what it is
  for: the largest number of the visible cells starts at 1, so that quantities below it show at most two decimals and a
  quantity below 0.005 is printed as zero.
\<close>

theorem fine_precision_unreachable:
  "decimals (visibleMaxSingleVol candles) \<le> 2 \<and>
   fmt (visibleMaxSingleVol [c\<lparr>c_cells := [cl\<lparr>cell_bid := 1 / 250, cell_ask := 1 / 250\<rparr>]\<rparr>]) (1 / 250) = ''0.00''"
proof
  show "decimals (visibleMaxSingleVol candles) \<le> 2"
    using visibleMaxSingleVol_ge(1) [of candles] by (simp add: decimals_def)
  have "visibleMaxSingleVol [c\<lparr>c_cells := [cl\<lparr>cell_bid := 1 / 250, cell_ask := 1 / 250\<rparr>]\<rparr>] = 1"
    by (simp add: visibleMaxSingleVol_def)
  moreover have z: "digit_char 0 = CHR ''0''" by code_simp
  moreover have "\<lfloor>9 / 10 :: number\<rfloor> = 0" by (simp add: floor_eq_iff)
  ultimately show "fmt (visibleMaxSingleVol [c\<lparr>c_cells := [cl\<lparr>cell_bid := 1 / 250, cell_ask := 1 / 250\<rparr>]\<rparr>]) (1 / 250) = ''0.00''"
    by (simp add: fmt_def decimals_def fixed_text_def fixed_digits_def show_nat.simps pad_def z)
qed

section \<open>The delta panel\<close>

lemma delta_share:
  assumes "c \<in> set candles"
  shows "0 \<le> \<bar>c_delta c\<bar> / maxCandleDelta candles \<and> \<bar>c_delta c\<bar> / maxCandleDelta candles \<le> 1"
  using scan_max_ge [OF assms, of "\<lambda>c. \<bar>c_delta c\<bar>" 1] scan_max_ge_init [of 1 "\<lambda>c. \<bar>c_delta c\<bar>" candles]
  unfolding maxCandleDelta_def by (intro share_bounds) simp_all

lemma delta_bar_height_share:
  "delta_bar_height k h candles c =
   max 2 ((\<bar>c_delta c\<bar> / maxCandleDelta candles) * (max (1 / 100) k * (h * (2 / 5))))"
  by (simp add: delta_bar_height_def zoomedMaxCandleDelta_def)

text \<open>
  The bars of the delta panel stay inside their half of it up to a zoom of 5/4; nothing clips them, and beyond that
  zoom the bar of the candle with the largest delta leaves the panel, into the chart above it or into what is below.
\<close>

theorem delta_bars_leave_panel:
  assumes h: "50 \<le> h" and c: "c \<in> set candles"
  shows "(k \<le> 5 / 4 \<longrightarrow> delta_bar_height k h candles c \<le> h / 2) \<and>
         (5 / 4 < k \<and> \<bar>c_delta c\<bar> = maxCandleDelta candles \<longrightarrow> h / 2 < delta_bar_height k h candles c)"
proof (intro conjI impI)
  define q where "q = \<bar>c_delta c\<bar> / maxCandleDelta candles"
  define b where "b = max (1 / 100) k * (h * (2 / 5))"
  have q: "0 \<le> q" "q \<le> 1" using delta_share [OF c] by (simp_all add: q_def)
  have d: "delta_bar_height k h candles c = max 2 (q * b)" by (simp add: delta_bar_height_share q_def b_def)
  { assume k: "k \<le> 5 / 4"
    have "b \<le> 5 / 4 * (h * (2 / 5))" "0 \<le> b"
      unfolding b_def using h k by (intro mult_right_mono mult_nonneg_nonneg; simp)+
    then have "q * b \<le> h / 2" using mult_right_mono [OF q(2), of b] by simp
    then show "delta_bar_height k h candles c \<le> h / 2" using h by (simp add: d) }
  { assume k: "5 / 4 < k \<and> \<bar>c_delta c\<bar> = maxCandleDelta candles"
    have "maxCandleDelta candles \<ge> 1" by (simp add: maxCandleDelta_def scan_max_ge_init)
    then have "q = 1" using k by (simp add: q_def)
    moreover have "5 / 4 * (h * (2 / 5)) < k * (h * (2 / 5))" using h k by (intro mult_strict_right_mono) simp_all
    ultimately show "h / 2 < delta_bar_height k h candles c" using k by (simp add: d b_def) }
qed

section \<open>Time labels\<close>

lemma labelStep_nat: "1 < p \<Longrightarrow> \<exists>n :: nat. labelStep p = real n \<and> 0 < n \<and> 75 \<le> real n * p"
proof (cases "find (\<lambda>s. s * p \<ge> 75) [1, 2, 5, 10, 15, 20, 30, 50, 100, 200, 500, 1000]")
  case None
  assume "1 < p"
  then show ?thesis using None by (simp split: if_splits)
next
  case (Some s)
  then have "75 \<le> s * p" "s \<in> {1, 2, 5, 10, 15, 20, 30, 50, 100, 200, 500, 1000}"
    by (auto simp: find_Some_iff nth_Cons' split: if_splits)
  moreover have "\<exists>n :: nat. s = real n \<and> 0 < n" using calculation(2)
    by (elim insertE; (intro exI [of _ "nat \<lfloor>s\<rfloor>"], simp))
  ultimately show ?thesis using Some by (auto simp: labelStep_def)
qed

lemma multiples_apart:
  fixes i j n :: nat
  assumes "i < j" "i mod n = 0" "j mod n = 0"
  shows "n \<le> j - i"
proof -
  have "n dvd j - i" using assms by (simp add: dvd_diff_nat mod_eq_0_iff_dvd)
  then show ?thesis using assms(1) by (intro dvd_imp_le) simp_all
qed

text \<open>
  The time labels are readable: the columns that carry one, the column under the crosshair included, are at least 65
  pixels apart.
\<close>

theorem time_labels_apart:
  assumes w: "0 < v_candleWidth v" and ij: "i < j"
    and i: "i \<in> set (labelled_columns v cross n)" and j: "j \<in> set (labelled_columns v cross n)"
  shows "65 \<le> candle_x (v_candleWidth v) j - candle_x (v_candleWidth v) i"
proof -
  have gap: "candle_x (v_candleWidth v) j - candle_x (v_candleWidth v) i = (real j - real i) * pitch v"
    by (simp add: candle_x_pitch algebra_simps)
  have li: "has_label v cross i" and lj: "has_label v cross j" using i j by (simp_all add: labelled_columns_def)
  obtain m :: nat where m: "labelStep (pitch v) = real m" "0 < m" "75 \<le> real m * pitch v"
    using labelStep_nat [OF pitch_gt [OF w]] by blast
  show ?thesis
  proof (cases "cross \<noteq> None \<and> (int i = hovered_column v cross \<or> int j = hovered_column v cross)")
    case True
    then have "65 \<le> \<bar>of_int (int j - int i)\<bar> * pitch v"
    proof (elim conjE disjE)
      assume "cross \<noteq> None" and h: "int i = hovered_column v cross"
      then show ?thesis using lj ij by (simp add: has_label_def Let_def flip: h)
    next
      assume "cross \<noteq> None" and h: "int j = hovered_column v cross"
      then show ?thesis using li ij by (simp add: has_label_def Let_def abs_minus_commute flip: h)
    qed
    then show ?thesis using ij by (simp add: gap)
  next
    case False
    then have "int i mod int m = 0" "int j mod int m = 0" using li lj m by (auto simp: has_label_def Let_def)
    then have "m \<le> j - i" using multiples_apart [OF ij, of m] by (simp flip: zmod_int)
    then have "real m * pitch v \<le> (real j - real i) * pitch v"
      using ij pitch_gt [OF w] by (intro mult_right_mono) (simp_all add: of_nat_diff)
    then show ?thesis using m(3) by (simp add: gap)
  qed
qed


section \<open>Witnesses\<close>

theorem drawn_columns_cover_view_witness: "0 \<in> set (drawn_columns view0 1)"
proof -
  have "v_visibleScrollLeft view0 \<le> candle_x (v_candleWidth view0) 0 + v_candleWidth view0"
    "candle_x (v_candleWidth view0) 0 \<le> v_visibleScrollLeft view0 + viewportWidth view0" "0 < v_candleWidth view0"
    by (simp_all add: view0_def candle_x_def viewportWidth_def or_else_def margin_defs)
  then show ?thesis using drawn_columns_cover_view [of view0 1] by simp
qed


theorem delta_bars_leave_panel_witness: "60 < delta_bar_height 2 120 [candle0] candle0"
proof -
  have "\<bar>c_delta candle0\<bar> = maxCandleDelta [candle0]" by (simp add: candle0_def maxCandleDelta_def)
  then show ?thesis using delta_bars_leave_panel [of 120 candle0 "[candle0]" 2] by simp
qed

theorem time_labels_apart_witness: "65 \<le> candle_x (v_candleWidth view0) 2 - candle_x (v_candleWidth view0) 0"
proof -
  have p: "pitch view0 = 62" by (simp add: pitch_def view0_def spacing_def)
  have e: "startIdx view0 = 0" "endIdx view0 5 = 4"
    by (simp_all add: startIdx_def endIdx_def p) (simp_all add: view0_def margin_defs viewportWidth_def or_else_def min_def)
  have "0 \<in> set (labelled_columns view0 None 5)" "2 \<in> set (labelled_columns view0 None 5)"
    by (simp_all add: labelled_columns_def set_drawn_columns e has_label_def p labelStep_def hovered_column_def)
  then show ?thesis using time_labels_apart [of view0 0 2 None 5] by (simp add: view0_def)
qed

end
