(* ===== verification/DrawingPaint.thy ===== *)
theory DrawingPaint
  imports FootprintPaint
begin

text \<open>
  How the canvas effect of \<open>frontend-chart/src/components/ClusterChart.tsx\<close> paints the drawings, their range profiles and
  the handles of the selected one, and how that agrees with the hit tests of the mouse handlers in \<open>Drawing\<close>: what is
  painted can be grabbed where it is seen.

  Horizontal positions are scroll-absolute, as the canvas is translated by the scroll position. Constant colors, widths and
  dashes are left out, and so are the pictograms in front of a text.
\<close>

section \<open>Marks\<close>

text \<open>
  \<open>Seg\<close> is a stroked line, \<open>Mid_line\<close> the dashed line in the middle of a channel, \<open>Dot\<close> a filled circle, \<open>Area\<close> a rectangle
  with its corner, width and height (which may be negative), \<open>Head\<close> a filled triangle.
\<close>

datatype mark =
    Seg number number number number
  | Mid_line number number number number
  | Dot number number number
  | Area number number number number
  | Head "number \<times> number" "number \<times> number" "number \<times> number"
  | Note string number number

record ruler_card =
  rc_rising :: bool
  rc_percent :: string
  rc_difference :: string
  rc_bars :: nat
  rc_from :: string
  rc_to :: string
  rc_x :: number
  rc_y :: number

section \<open>Kinds of drawings\<close>

definition trend_marks :: "number \<Rightarrow> number \<Rightarrow> number \<Rightarrow> number \<Rightarrow> mark list" where
  "trend_marks x1 y1 x2 y2 = [Seg x1 y1 x2 y2, Dot x1 y1 4, Dot x2 y2 4]"

definition horizontal_marks :: "view \<Rightarrow> number \<Rightarrow> number \<Rightarrow> mark list" where
  "horizontal_marks v price y1 =
     (let left = v_visibleScrollLeft v + margin_left
      in [Seg left y1 (v_visibleScrollLeft v + viewportWidth v - margin_right) y1, Area left (y1 - 8) 55 16,
          Note (fixed_text 1 price) (left + 4) y1])"

definition rect_marks :: "number \<Rightarrow> number \<Rightarrow> number \<Rightarrow> number \<Rightarrow> mark list" where
  "rect_marks x1 y1 x2 y2 = [Area x1 y1 (x2 - x1) (y2 - y1), Dot x1 y1 (7 / 2), Dot x2 y2 (7 / 2)]"

definition fibLevels :: "(number \<times> string) list" where
  "fibLevels =
     [(0, ''0.0% (Start)''), (236 / 1000, ''23.6%''), (382 / 1000, ''38.2%''), (1 / 2, ''50.0%''),
      (618 / 1000, ''61.8%''), (786 / 1000, ''78.6%''), (1, ''100.0% (End)'')]"

definition fibonacci_marks :: "scene \<Rightarrow> view \<Rightarrow> drawing \<Rightarrow> mark list" where
  "fibonacci_marks s v d =
     concat (map (\<lambda>(ratio, label).
       let price = dw_startPrice d + (dw_endPrice d - dw_startPrice d) * ratio; fY = price_y s v price
       in [Seg (dw_startX d) fY (dw_endX d) fY,
           Note (label @ '' - '' @ fixed_text 1 price) (min (dw_startX d) (dw_endX d) + 5) (fY - 7)]) fibLevels)"

definition ruler_marks :: "number \<Rightarrow> number \<Rightarrow> number \<Rightarrow> number \<Rightarrow> mark list" where
  "ruler_marks x1 y1 x2 y2 = [Seg x1 y1 x2 y2, Area x1 y1 (x2 - x1) (y2 - y1)]"

definition barCount :: "view \<Rightarrow> drawing \<Rightarrow> nat" where
  "barCount v d = nat (max 1 \<lfloor>\<bar>dw_endX d - dw_startX d\<bar> / pitch v + 1 / 2\<rfloor>)"

definition pctDiff :: "drawing \<Rightarrow> number" where
  "pctDiff d =
     (if dw_startPrice d \<noteq> 0 then ((dw_endPrice d - dw_startPrice d) / dw_startPrice d) * 100 else 0)"

text \<open>The card of a ruler, 142 by 54 around its center.\<close>

definition ruler_card_of :: "scene \<Rightarrow> view \<Rightarrow> drawing \<Rightarrow> ruler_card" where
  "ruler_card_of s v d =
     \<lparr>rc_rising = (pctDiff d \<ge> 0), rc_percent = fixed_text 2 (pctDiff d),
      rc_difference = fixed_text 1 (dw_endPrice d - dw_startPrice d), rc_bars = barCount v d,
      rc_from = fixed_text 1 (dw_startPrice d), rc_to = fixed_text 1 (dw_endPrice d),
      rc_x = dw_startX d + (dw_endX d - dw_startX d) / 2, rc_y = price_y s v (dw_endPrice d) - 15\<rparr>"

definition text_marks :: "string \<Rightarrow> number \<Rightarrow> number \<Rightarrow> mark list" where
  "text_marks t x1 y1 = [Note (if t = [] then ''TEXT'' else t) x1 (y1 - 6), Dot x1 y1 (9 / 2)]"

text \<open>\<open>Math.atan2\<close> is the argument of the complex number, 0 for the origin.\<close>

definition atan2 :: "number \<Rightarrow> number \<Rightarrow> number" where
  "atan2 y x = Arg (Complex x y)"

definition headLength :: number where "headLength = 12"

definition head_point :: "number \<Rightarrow> number \<Rightarrow> number \<Rightarrow> number \<times> number" where
  "head_point x2 y2 a = (x2 - headLength * cos a, y2 - headLength * sin a)"

definition arrow_marks :: "number \<Rightarrow> number \<Rightarrow> number \<Rightarrow> number \<Rightarrow> mark list" where
  "arrow_marks x1 y1 x2 y2 =
     (let angle = atan2 (y2 - y1) (x2 - x1)
      in [Seg x1 y1 x2 y2, Head (x2, y2) (head_point x2 y2 (angle - pi / 6)) (head_point x2 y2 (angle + pi / 6))])"

definition channel_marks :: "scene \<Rightarrow> view \<Rightarrow> drawing \<Rightarrow> mark list" where
  "channel_marks s v d =
     (let line = (\<lambda>e. (dw_startX d, price_y s v (dw_startPrice d + e), dw_endX d, price_y s v (dw_endPrice d + e)));
          offsetVal = offset_of s d
      in Seg (dw_startX d) (price_y s v (dw_startPrice d)) (dw_endX d) (price_y s v (dw_endPrice d)) #
         (if dw_stage d \<noteq> Some 1
          then [case line offsetVal of (a, b, c, e) \<Rightarrow> Seg a b c e,
                case line (offsetVal / 2) of (a, b, c, e) \<Rightarrow> Mid_line a b c e]
          else []))"

section \<open>The range profile\<close>

definition bHeightStep :: "scene \<Rightarrow> view \<Rightarrow> drawing \<Rightarrow> number" where
  "bHeightStep s v d =
     (let y1 = price_y s v (dw_startPrice d); y2 = price_y s v (dw_endPrice d)
      in (max y1 y2 - min y1 y2) / real (bucketCount s d))"

text \<open>The vertical position of an edge of the bins: \<open>k\<close> bins below the top of the box.\<close>

definition bin_edge :: "scene \<Rightarrow> view \<Rightarrow> drawing \<Rightarrow> number \<Rightarrow> number" where
  "bin_edge s v d k =
     min (price_y s v (dw_startPrice d)) (price_y s v (dw_endPrice d)) + k * bHeightStep s v d"

definition profile_bar :: "scene \<Rightarrow> view \<Rightarrow> drawing \<Rightarrow> number list \<Rightarrow> nat \<Rightarrow> mark" where
  "profile_bar s v d bins b =
     (let maxDrawWidth = \<bar>dw_endX d - dw_startX d\<bar> * (82 / 100);
          drawW = (bins ! b / max 1 (fst (poc_bin bins))) * maxDrawWidth
      in Area (min (dw_startX d) (dw_endX d)) (bin_edge s v d (real b) + 1 / 2) drawW (bHeightStep s v d - 1))"

definition profile_bars :: "scene \<Rightarrow> view \<Rightarrow> drawing \<Rightarrow> number list \<Rightarrow> mark list" where
  "profile_bars s v d bins = map (profile_bar s v d bins) (filter (\<lambda>b. bins ! b \<noteq> 0) [0 ..< bucketCount s d])"

text \<open>The value area, the bars, the two borders of the value area, and the point of control.\<close>

definition profile_marks :: "scene \<Rightarrow> view \<Rightarrow> drawing \<Rightarrow> range_profile \<Rightarrow> mark list" where
  "profile_marks s v d r =
     (let minX = min (dw_startX d) (dw_endX d); maxX = max (dw_startX d) (dw_endX d);
          vaY1 = bin_edge s v d (real (rp_low r)); vaY2 = bin_edge s v d (real (rp_high r + 1));
          pocY = bin_edge s v d (real (rp_poc r) + 1 / 2)
      in [Area minX vaY1 \<bar>dw_endX d - dw_startX d\<bar> (vaY2 - vaY1)] @ profile_bars s v d (rp_bins r) @
         [Seg minX vaY1 maxX vaY1, Seg minX vaY2 maxX vaY2,
          Note ''VAH (70%)'' (maxX - 65) (vaY1 - 3), Note ''VAL (70%)'' (maxX - 65) (vaY2 + 9),
          Seg minX pocY maxX pocY, Note ''POC'' (minX + 5) (pocY - 4)])"

definition volume_marks :: "scene \<Rightarrow> view \<Rightarrow> candle list \<Rightarrow> drawing \<Rightarrow> mark list" where
  "volume_marks s v candles d =
     (let y1 = price_y s v (dw_startPrice d); y2 = price_y s v (dw_endPrice d); x1 = dw_startX d; x2 = dw_endX d
      in Area (min x1 x2) (min y1 y2) \<bar>x2 - x1\<bar> \<bar>y2 - y1\<bar> #
         (case rangeProfile s v d candles of None \<Rightarrow> [] | Some r \<Rightarrow> profile_marks s v d r))"

section \<open>All drawings\<close>

definition drawing_marks :: "scene \<Rightarrow> view \<Rightarrow> candle list \<Rightarrow> drawing \<Rightarrow> mark list" where
  "drawing_marks s v candles d =
     (let y1 = price_y s v (dw_startPrice d); y2 = price_y s v (dw_endPrice d); x1 = dw_startX d; x2 = dw_endX d
      in case dw_type d of
           Trend \<Rightarrow> trend_marks x1 y1 x2 y2
         | Horizontal \<Rightarrow> horizontal_marks v (dw_startPrice d) y1
         | Rect \<Rightarrow> rect_marks x1 y1 x2 y2
         | Fibonacci \<Rightarrow> fibonacci_marks s v d
         | Ruler \<Rightarrow> ruler_marks x1 y1 x2 y2
         | Text_note \<Rightarrow> text_marks (dw_text d) x1 y1
         | Arrow \<Rightarrow> arrow_marks x1 y1 x2 y2
         | Channel \<Rightarrow> channel_marks s v d
         | Volume \<Rightarrow> volume_marks s v candles d)"

definition allDrawings :: "board \<Rightarrow> drawing list" where
  "allDrawings br = br_drawings br @ (case br_inProgress br of Some d \<Rightarrow> [d] | None \<Rightarrow> [])"

definition selection_box :: "scene \<Rightarrow> view \<Rightarrow> drawing \<Rightarrow> mark list" where
  "selection_box s v d =
     (let y1 = price_y s v (dw_startPrice d); y2 = price_y s v (dw_endPrice d); x1 = dw_startX d; x2 = dw_endX d
      in if dw_type d \<noteq> Horizontal \<and> dw_type d \<noteq> Channel
         then [Area (min x1 x2) (min y1 y2) \<bar>x2 - x1\<bar> \<bar>y2 - y1\<bar>] else [])"

definition selection_handles :: "scene \<Rightarrow> view \<Rightarrow> drawing \<Rightarrow> mark list" where
  "selection_handles s v d =
     (let y1 = price_y s v (dw_startPrice d); y2 = price_y s v (dw_endPrice d); x1 = dw_startX d; x2 = dw_endX d
      in map (\<lambda>(x, y). Dot x y 5)
           (if dw_type d = Channel
            then [(x1, y1), (x2, y2), (x2, price_y s v (dw_endPrice d + offset_of s d)),
                  (x1, price_y s v (dw_startPrice d + offset_of s d))]
            else [(x1, y1), (x2, y2), (x2, y1), (x1, y2)]))"

definition selected_drawing :: "board \<Rightarrow> drawing option" where
  "selected_drawing br = (case br_selected br of None \<Rightarrow> None | Some i \<Rightarrow> find (\<lambda>d. dw_id d = i) (br_drawings br))"

definition paint_board :: "scene \<Rightarrow> candle list \<Rightarrow> board \<Rightarrow> mark list" where
  "paint_board s candles br =
     concat (map (drawing_marks s (br_view br) candles) (allDrawings br)) @
     (case selected_drawing br of None \<Rightarrow> []
      | Some d \<Rightarrow> selection_box s (br_view br) d @ selection_handles s (br_view br) d)"

section \<open>Lemmas on marks\<close>

text \<open>The point at a share of the way along a line.\<close>

definition along :: "number \<Rightarrow> number \<Rightarrow> number \<Rightarrow> number" where
  "along u a b = a + u * (b - a)"

lemma along_same [simp]: "along u a a = a"
  by (simp add: along_def)

lemma along_between: "0 \<le> u \<Longrightarrow> u \<le> 1 \<Longrightarrow> min a b \<le> along u a b \<and> along u a b \<le> max a b"
  using mult_left_le_one_le [of "b - a" u] mult_left_le_one_le [of "a - b" u] mult_nonneg_nonneg [of u "b - a"]
    mult_nonneg_nonneg [of u "a - b"] by (simp add: along_def min_def max_def algebra_simps)

lemma screen_along: "screen_x v (along u a b) = along u (screen_x v a) (screen_x v b)"
  by (simp add: along_def screen_x_def algebra_simps)

lemma price_y_along: "price_y s v (a + (b - a) * u) = along u (price_y s v a) (price_y s v b)"
  using price_y_line [of s v a u b 0] by (simp add: along_def mult.commute)

lemma in_box_screen:
  "in_box 0 (screen_x v x) y (screen_x v x1) y1 (screen_x v x2) y2 \<longleftrightarrow>
   min x1 x2 \<le> x \<and> x \<le> max x1 x2 \<and> min y1 y2 \<le> y \<and> y \<le> max y1 y2"
  by (auto simp: in_box_def screen_x_def min_def max_def)

lemma in_box_wider: "in_box 0 x y x1 y1 x2 y2 \<Longrightarrow> in_box 10 x y x1 y1 x2 y2"
  by (auto simp: in_box_def)

definition line_type :: "tool \<Rightarrow> bool" where
  "line_type t \<longleftrightarrow> t = Trend \<or> t = Arrow \<or> t = Channel"

definition box_type :: "tool \<Rightarrow> bool" where
  "box_type t \<longleftrightarrow> t = Volume \<or> t = Rect \<or> t = Ruler \<or> t = Text_note \<or> t = Fibonacci"

lemma hits_main_line:
  assumes "line_type (dw_type d)" "0 \<le> u" "u \<le> 1"
  shows "hits s v (screen_x v (along u (dw_startX d) (dw_endX d)))
           (along u (price_y s v (dw_startPrice d)) (price_y s v (dw_endPrice d))) d"
  using assms(1) point_on_line [OF assms(2,3), of "screen_x v (dw_startX d)" "screen_x v (dw_endX d)"
      "price_y s v (dw_startPrice d)" "price_y s v (dw_endPrice d)"]
  unfolding screen_along by (auto simp: hits_def Let_def line_type_def along_def)

lemma hits_parallel:
  assumes "line_type (dw_type d)" "0 \<le> u" "u \<le> 1"
  shows "hits s v (screen_x v (along u (dw_startX d) (dw_endX d)))
           (along u (price_y s v (dw_startPrice d + offset_of s d)) (price_y s v (dw_endPrice d + offset_of s d))) d"
  using assms(1) point_on_line [OF assms(2,3), of "screen_x v (dw_startX d)" "screen_x v (dw_endX d)"
      "price_y s v (dw_startPrice d + offset_of s d)" "price_y s v (dw_endPrice d + offset_of s d)"]
  unfolding screen_along by (auto simp: hits_def Let_def line_type_def along_def)

lemma hits_box:
  assumes "box_type (dw_type d)"
    and "min (dw_startX d) (dw_endX d) \<le> x" "x \<le> max (dw_startX d) (dw_endX d)"
    and "min (price_y s v (dw_startPrice d)) (price_y s v (dw_endPrice d)) \<le> y"
    and "y \<le> max (price_y s v (dw_startPrice d)) (price_y s v (dw_endPrice d))"
  shows "hits s v (screen_x v x) y d"
proof -
  have "in_box 0 (screen_x v x) y (screen_x v (dw_startX d)) (price_y s v (dw_startPrice d))
          (screen_x v (dw_endX d)) (price_y s v (dw_endPrice d))"
    using assms by (simp add: in_box_screen)
  then show ?thesis using assms(1) in_box_wider by (auto simp: hits_def Let_def box_type_def)
qed


section \<open>Lemmas on the range profile\<close>

lemma profile_of_bins_poc: "poc_bin bins = (m, p) \<Longrightarrow> rp_poc (profile_of_bins bins) = p"
  by (auto simp: profile_of_bins_def Let_def split: prod.split)

text \<open>Whatever the bins hold, the value area and the point of control are among them.\<close>

lemma profile_of_bins_range:
  assumes "bins \<noteq> []"
  shows "rp_low (profile_of_bins bins) \<le> rp_high (profile_of_bins bins) \<and>
         rp_high (profile_of_bins bins) < length bins \<and> rp_poc (profile_of_bins bins) < length bins"
proof -
  obtain m p where mp: "poc_bin bins = (m, p)" by fastforce
  note ok = poc_bin_ok [OF mp]
  then have p: "p < length bins" using assms by (cases "0 < m") auto
  obtain l h va where g: "va_grow bins (sum_list bins * (7 / 10)) p p (bins ! p) = (l, h, va)" using prod_cases3 by blast
  have "va_ok bins (sum_list bins * (7 / 10)) p p (l, h, va)"
    using va_grow_ok [of p p bins "bins ! p" "sum_list bins * (7 / 10)"] p g by (simp add: segment_def)
  then have "l \<le> h" "h < length bins" by (auto simp: va_ok_def)
  then show ?thesis using p g
    by (cases "0 < sum_list bins \<and> 0 < m") (auto simp: profile_of_bins_def Let_def mp)
qed

lemma rangeProfile_range:
  assumes "rangeProfile s v d candles = Some r"
  shows "rp_low r \<le> rp_high r \<and> rp_high r < bucketCount s d \<and> rp_poc r < bucketCount s d \<and>
         length (rp_bins r) = bucketCount s d"
proof -
  define bins where "bins = profileBins s v d (range_candles v d candles)"
  have len: "length bins = bucketCount s d" by (simp add: bins_def profileBins_sum)
  have "0 < bucketCount s d" by (simp add: bucketCount_def)
  then have "bins \<noteq> []" using len by auto
  moreover have r: "r = profile_of_bins bins"
    using assms by (auto simp: rangeProfile_def Let_def bins_def split: prod.splits if_splits)
  ultimately show ?thesis using profile_of_bins_range [of bins] len by (simp add: profile0_bins)
qed

lemma bin_edge_in_box:
  assumes "0 \<le> k" "k \<le> real (bucketCount s d)"
  shows "min (price_y s v (dw_startPrice d)) (price_y s v (dw_endPrice d)) \<le> bin_edge s v d k \<and>
         bin_edge s v d k \<le> max (price_y s v (dw_startPrice d)) (price_y s v (dw_endPrice d))"
proof -
  have n: "0 < real (bucketCount s d)" by (simp add: bucketCount_def)
  define a b where "a = min (price_y s v (dw_startPrice d)) (price_y s v (dw_endPrice d))"
    and "b = max (price_y s v (dw_startPrice d)) (price_y s v (dw_endPrice d))"
  have step: "bHeightStep s v d = (b - a) / real (bucketCount s d)" by (simp add: bHeightStep_def Let_def a_def b_def)
  have ab: "a \<le> b" by (simp add: a_def b_def)
  then have "0 \<le> k * bHeightStep s v d" using assms n by (simp add: step)
  moreover have "k * bHeightStep s v d \<le> real (bucketCount s d) * bHeightStep s v d"
    using assms(2) ab n by (intro mult_right_mono) (simp_all add: step)
  moreover have "real (bucketCount s d) * bHeightStep s v d = b - a" using n by (simp add: step)
  ultimately show ?thesis by (simp add: bin_edge_def flip: a_def b_def)
qed

section \<open>Properties\<close>

lemma fibLevels_range: "(r, l) \<in> set fibLevels \<Longrightarrow> 0 \<le> r \<and> r \<le> 1"
  by (auto simp: fibLevels_def)

lemma fib_seg:
  assumes "Seg x1 y1 x2 y2 \<in> set (fibonacci_marks s v d)"
  shows "\<exists>r. 0 \<le> r \<and> r \<le> 1 \<and> x1 = dw_startX d \<and> x2 = dw_endX d \<and>
             y1 = price_y s v (dw_startPrice d + (dw_endPrice d - dw_startPrice d) * r) \<and> y2 = y1"
  using assms fibLevels_range by (fastforce simp: fibonacci_marks_def Let_def)

text \<open>
  C7. A finished drawing can be taken hold of wherever one of its lines is painted: a press on any point of a line of a trend,
  arrow, level, ruler, Fibonacci grid, channel border, or of the borders and the point of control of a range profile passes
  the hit test of this drawing. (The middle line of a channel is no such line.)
\<close>

theorem painted_lines_are_hit:
  assumes m: "Seg x1 y1 x2 y2 \<in> set (drawing_marks s v candles d)" and u: "0 \<le> u" "u \<le> 1"
  shows "hits s v (screen_x v (along u x1 x2)) (along u y1 y2) d"
proof (cases "dw_type d")
  case Channel
  then have t: "line_type (dw_type d)" by (simp add: line_type_def)
  show ?thesis
    using m Channel hits_main_line [OF t u] hits_parallel [OF t u]
    by (auto simp: drawing_marks_def channel_marks_def Let_def split: if_splits)
next
  case Fibonacci
  then have t: "box_type (dw_type d)" by (simp add: box_type_def)
  obtain r where r: "0 \<le> r" "r \<le> 1" "x1 = dw_startX d" "x2 = dw_endX d"
    "y1 = price_y s v (dw_startPrice d + (dw_endPrice d - dw_startPrice d) * r)" "y2 = y1"
    using m Fibonacci fib_seg [of x1 y1 x2 y2 s v d] by (auto simp: drawing_marks_def Let_def)
  show ?thesis using along_between [OF u] along_between [OF r(1,2)] unfolding r(3-6) along_same price_y_along
    by (intro hits_box [OF t]) blast+
next
  case Volume
  then have t: "box_type (dw_type d)" by (simp add: box_type_def)
  obtain r where r: "rangeProfile s v d candles = Some r"
    and seg: "Seg x1 y1 x2 y2 \<in> set (profile_marks s v d r)"
    using m Volume by (cases "rangeProfile s v d candles") (auto simp: drawing_marks_def volume_marks_def Let_def)
  have "x1 = min (dw_startX d) (dw_endX d) \<and> x2 = max (dw_startX d) (dw_endX d) \<and> y2 = y1 \<and>
      y1 \<in> bin_edge s v d ` {real (rp_low r), real (rp_high r + 1), real (rp_poc r) + 1 / 2}"
    using seg by (auto simp: profile_marks_def Let_def profile_bars_def profile_bar_def)
  moreover have "k \<in> {real (rp_low r), real (rp_high r + 1), real (rp_poc r) + 1 / 2} \<Longrightarrow>
      0 \<le> k \<and> k \<le> real (bucketCount s d)" for k
    using rangeProfile_range [OF r] by auto
  ultimately have "\<exists>k. 0 \<le> k \<and> k \<le> real (bucketCount s d) \<and> x1 = min (dw_startX d) (dw_endX d) \<and>
      x2 = max (dw_startX d) (dw_endX d) \<and> y1 = bin_edge s v d k \<and> y2 = y1" by blast
  then obtain k where k: "0 \<le> k" "k \<le> real (bucketCount s d)" "x1 = min (dw_startX d) (dw_endX d)"
      "x2 = max (dw_startX d) (dw_endX d)" "y1 = bin_edge s v d k" "y2 = y1" by blast
  show ?thesis using along_between [OF u, of x1 x2] bin_edge_in_box [OF k(1,2), of v] unfolding k(3-6) along_same
    by (intro hits_box [OF t]) auto
qed (use m u hits_main_line [of d u s v] hits_box [of d _ s v] along_between [OF u] in
    \<open>auto simp: drawing_marks_def trend_marks_def horizontal_marks_def rect_marks_def ruler_marks_def text_marks_def
      arrow_marks_def Let_def line_type_def box_type_def hits_def [of s v _ _ d]\<close>)


text \<open>
  The bars of a range profile stay inside its box: every bar starts at its left border, takes at most 82 percent of its width,
  and the bar of the point of control is the widest.
\<close>

theorem profile_bars_fit:
  assumes r: "rangeProfile s v d candles = Some r" and pos: "\<And>b. b \<in> set (rp_bins r) \<Longrightarrow> 0 \<le> b"
    and m: "Area x y w h \<in> set (profile_bars s v d (rp_bins r))"
  shows "x = min (dw_startX d) (dw_endX d) \<and> 0 \<le> w \<and> w \<le> 82 / 100 * \<bar>dw_endX d - dw_startX d\<bar> \<and>
         (1 \<le> rp_bins r ! rp_poc r \<longrightarrow>
          w \<le> (case profile_bar s v d (rp_bins r) (rp_poc r) of Area _ _ w' _ \<Rightarrow> w' | _ \<Rightarrow> 0))"
proof -
  obtain mx p where mp: "poc_bin (rp_bins r) = (mx, p)" by fastforce
  note ok = poc_bin_ok [OF mp]
  define W where "W = \<bar>dw_endX d - dw_startX d\<bar> * (82 / 100)"
  obtain b where b: "b < bucketCount s d" "w = (rp_bins r ! b / max 1 mx) * W" "x = min (dw_startX d) (dw_endX d)"
    using m by (auto simp: profile_bars_def profile_bar_def Let_def mp W_def)
  have mem: "rp_bins r ! b \<in> set (rp_bins r)" using b(1) rangeProfile_range [OF r] by simp
  have "0 \<le> rp_bins r ! b" "rp_bins r ! b \<le> max 1 mx" using pos [OF mem] ok mem by auto
  then have "0 \<le> rp_bins r ! b / max 1 mx * W \<and> rp_bins r ! b / max 1 mx * W \<le> W"
    by (rule share_width) (simp_all add: W_def)
  moreover have "W \<le> (case profile_bar s v d (rp_bins r) (rp_poc r) of Area _ _ w' _ \<Rightarrow> w' | _ \<Rightarrow> 0)"
    if "1 \<le> rp_bins r ! rp_poc r"
  proof -
    have "r = profile_of_bins (rp_bins r)"
      using r by (auto simp: rangeProfile_def Let_def profile0_bins split: prod.splits if_splits)
    then have "rp_poc r = p" using profile_of_bins_poc [OF mp] by metis
    moreover have "rp_bins r ! p \<in> set (rp_bins r)" if "rp_poc r = p" using that rangeProfile_range [OF r] by simp
    ultimately have "rp_bins r ! rp_poc r = mx" "1 \<le> mx" using that ok by (fastforce, fastforce)
    then show ?thesis by (simp add: profile_bar_def Let_def mp W_def)
  qed
  ultimately show ?thesis using b(2,3) by (auto simp: W_def)
qed

text \<open>
  The head of an arrow sits on its shaft: both wings are 12 pixels from the tip, and the point half way between them lies on
  the shaft's line, \<open>12 cos 30\<close> degrees before the tip.
\<close>

theorem arrow_head_sits_on_shaft:
  assumes m: "Head tip a b \<in> set (arrow_marks x1 y1 x2 y2)"
  shows "pdist (fst a) (snd a) (fst tip) (snd tip) = 12 \<and> pdist (fst b) (snd b) (fst tip) (snd tip) = 12 \<and>
         pdist x2 y2 x1 y1 * (fst tip - (fst a + fst b) / 2) = 12 * cos (pi / 6) * (x2 - x1) \<and>
         pdist x2 y2 x1 y1 * (snd tip - (snd a + snd b) / 2) = 12 * cos (pi / 6) * (y2 - y1)"
proof -
  define t where "t = atan2 (y2 - y1) (x2 - x1)"
  have e: "tip = (x2, y2)" "a = head_point x2 y2 (t - pi / 6)" "b = head_point x2 y2 (t + pi / 6)"
    using m by (auto simp: arrow_marks_def Let_def t_def)
  have n: "pdist x2 y2 x1 y1 = cmod (Complex (x2 - x1) (y2 - y1))"
    by (simp add: pdist_def complex_norm power2_eq_square)
  have polar: "pdist x2 y2 x1 y1 * cos t = x2 - x1" "pdist x2 y2 x1 y1 * sin t = y2 - y1"
    using rcis_cmod_Arg [of "Complex (x2 - x1) (y2 - y1)"] unfolding n t_def atan2_def
    by (simp_all add: rcis_def cis.ctr complex_eq_iff)
  have wing: "pdist (fst (head_point x2 y2 c)) (snd (head_point x2 y2 c)) x2 y2 = 12" for c
  proof -
    have "(12 * cos c) * (12 * cos c) + (12 * sin c) * (12 * sin c) = 144 * ((cos c)\<^sup>2 + (sin c)\<^sup>2)"
      unfolding power2_eq_square by algebra
    also have "\<dots> = 12\<^sup>2" by simp
    finally show ?thesis by (simp add: pdist_def head_point_def headLength_def)
  qed
  have mid: "x2 - (fst (head_point x2 y2 (t - q)) + fst (head_point x2 y2 (t + q))) / 2 = 12 * cos q * cos t"
    "y2 - (snd (head_point x2 y2 (t - q)) + snd (head_point x2 y2 (t + q))) / 2 = 12 * cos q * sin t" for q
    by (simp_all add: head_point_def headLength_def cos_add cos_diff sin_add sin_diff field_simps)
  define q where "q = pi / 6"
  show ?thesis unfolding e fst_conv snd_conv wing mid q_def [symmetric]
    using polar by (simp add: mult.left_commute)
qed


section \<open>Witnesses\<close>

definition fib0 :: drawing where
  "fib0 = trend0\<lparr>dw_type := Fibonacci, dw_endPrice := 15\<rparr>"

theorem painted_lines_are_hit_witness: "hits scene0 view0 200 220 fib0"
proof -
  have "Seg 100 220 300 220 \<in> set (drawing_marks scene0 view0 [] fib0)"
    by (simp add: drawing_marks_def fibonacci_marks_def fibLevels_def Let_def fib0_def trend0_def)
  from painted_lines_are_hit [OF this, of "1 / 2"] show ?thesis by (simp add: along_def)
qed


lemma poc0: "poc_bin [0, 0, 1, 3] = (3, 3)"
  by (simp add: poc_bin_def upt_rec)

theorem profile_bars_fit_witness:
  "profile_bar scene0 view0 volume0 [0, 0, 1, 3] 2 = Area 60 (521 / 2) (164 / 15) 4 \<and> (164 / 15 :: number) \<le> 82 / 100 * 40"
proof
  show bar: "profile_bar scene0 view0 volume0 [0, 0, 1, 3] 2 = Area 60 (521 / 2) (164 / 15) 4"
    by (simp add: profile_bar_def Let_def poc0 bin_edge_def bHeightStep_def bucketCount0 volume0_prices)
      (simp add: volume0_def)
  have "Area 60 (521 / 2) (164 / 15) 4 \<in> set (profile_bars scene0 view0 volume0 (rp_bins (profile_of_bins [0, 0, 1, 3])))"
    by (simp add: profile_bars_def profile0_bins bucketCount0 image_iff flip: bar) (rule exI [of _ 2], simp)
  from profile_bars_fit [OF profile0 _ this] show "(164 / 15 :: number) \<le> 82 / 100 * 40"
    by (simp add: profile0_bins volume0_def)
qed

theorem arrow_head_sits_on_shaft_witness:
  "pdist (fst (head_point 3 4 (atan2 4 3 - pi / 6))) (snd (head_point 3 4 (atan2 4 3 - pi / 6))) 3 4 = 12"
  using arrow_head_sits_on_shaft [of "(3, 4)" "head_point 3 4 (atan2 4 3 - pi / 6)"
      "head_point 3 4 (atan2 4 3 + pi / 6)" 0 0 3 4]
  by (simp add: arrow_marks_def Let_def)

end
