(* ===== verification/LiveSeries.thy ===== *)
theory LiveSeries
  imports ChartFeed
begin

text \<open>
  What the live feed of a chart (\<open>frontend-chart/src/App.tsx\<close>) promises, apart from how it keeps its array: the candles
  shown are a map from times to candles; a candle received is pending until the next flush, which enters it
  unless a later candle is shown, and then forgets all but the newest ones of the tier's limit. The array operations
  of \<open>ChartFeed\<close> implement that.
\<close>

section \<open>Specification\<close>

type_synonym 'c series = "number \<rightharpoonup> 'c"

definition newest :: "nat option \<Rightarrow> 'c series \<Rightarrow> 'c series" where
  "newest cap m =
     (case cap of None \<Rightarrow> m | Some k \<Rightarrow> m |` {t \<in> dom m. card {t' \<in> dom m. t < t'} < k})"

definition enter :: "('c \<Rightarrow> number) \<Rightarrow> nat option \<Rightarrow> 'c \<Rightarrow> 'c series \<Rightarrow> 'c series" where
  "enter ts cap c m = (if \<exists>t \<in> dom m. ts c < t then m else newest cap (m(ts c \<mapsto> c)))"

datatype 'c live_event = Receive 'c | Flush

fun spec_event :: "('c \<Rightarrow> number) \<Rightarrow> nat option \<Rightarrow> 'c live_event \<Rightarrow> 'c series \<times> 'c option \<Rightarrow> 'c series \<times> 'c option" where
  "spec_event ts cap (Receive c) (m, p) = (m, Some c)"
| "spec_event ts cap Flush (m, p) = (case p of None \<Rightarrow> (m, None) | Some c \<Rightarrow> (enter ts cap c m, None))"

section \<open>Implementation\<close>

fun feed_event :: "('c \<Rightarrow> number) \<Rightarrow> (setting \<Rightarrow> number option) \<Rightarrow> 'c live_event \<Rightarrow> 'c feed \<Rightarrow> 'c feed" where
  "feed_event ts maxc (Receive c) f = receive c f"
| "feed_event ts maxc Flush f = flush ts maxc f"

definition by_time :: "('c \<Rightarrow> number) \<Rightarrow> 'c list \<Rightarrow> 'c series" where
  "by_time ts xs = map_of (map (\<lambda>c. (ts c, c)) xs)"

definition shown :: "('c \<Rightarrow> number) \<Rightarrow> 'c feed \<Rightarrow> 'c series \<times> 'c option" where
  "shown ts f = (by_time ts (fd_candles f), fd_buffer f)"

definition within_cap :: "nat option \<Rightarrow> 'c list \<Rightarrow> bool" where
  "within_cap cap xs = (case cap of None \<Rightarrow> True | Some k \<Rightarrow> 0 < k \<and> length xs \<le> k)"

section \<open>Lemmas\<close>

lemma dom_by_time: "dom (by_time ts xs) = ts ` set xs"
  by (force simp: by_time_def dom_map_of_conv_image_fst)

lemma by_time_append: "by_time ts (xs @ ys) = by_time ts xs ++ by_time ts ys"
  if "ts ` set xs \<inter> ts ` set ys = {}"
proof -
  have "dom (by_time ts xs) \<inter> dom (by_time ts ys) = {}" using that by (simp add: dom_by_time)
  then have "by_time ts ys ++ by_time ts xs = by_time ts xs ++ by_time ts ys" by (rule map_add_comm [symmetric])
  then show ?thesis by (simp add: by_time_def)
qed

lemma chronological_split:
  "chronological ts (xs @ ys) \<longleftrightarrow> chronological ts xs \<and> chronological ts ys \<and> (\<forall>x \<in> set xs. \<forall>y \<in> set ys. ts x < ts y)"
  by (simp add: chronological_def sorted_wrt_append)

lemma chronological_disjoint: "chronological ts (xs @ ys) \<Longrightarrow> ts ` set xs \<inter> ts ` set ys = {}"
  by (force simp: chronological_split)

lemma chronological_card: "chronological ts xs \<Longrightarrow> card (ts ` set xs) = length xs"
proof (induction xs)
  case (Cons x xs)
  then have "ts x \<notin> ts ` set xs" by (force simp: chronological_def)
  then show ?case using Cons by (simp add: chronological_def)
qed simp

lemma newest_by_time:
  assumes "chronological ts xs"
  shows "newest (Some k) (by_time ts xs) = by_time ts (drop (length xs - k) xs)"
proof
  fix t
  define us vs where "us = take (length xs - k) xs" and "vs = drop (length xs - k) xs"
  have xs: "xs = us @ vs" by (simp add: us_def vs_def)
  have ch: "chronological ts vs" "\<And>u v. u \<in> set us \<Longrightarrow> v \<in> set vs \<Longrightarrow> ts u < ts v"
    using assms unfolding xs chronological_split by auto
  note dis = chronological_disjoint [OF assms [unfolded xs]]
  have bt: "by_time ts xs = by_time ts us ++ by_time ts vs" unfolding xs by (rule by_time_append [OF dis])
  let ?later = "{t' \<in> dom (by_time ts xs). t < t'}"
  have fin: "finite ?later" by (simp add: dom_by_time)
  consider (new) "t \<in> ts ` set vs" | (old) "t \<in> ts ` set us" | (none) "t \<notin> ts ` set xs" unfolding xs by auto
  then show "newest (Some k) (by_time ts xs) t = by_time ts (drop (length xs - k) xs) t"
  proof cases
    case new
    then have "?later \<subset> ts ` set vs" unfolding dom_by_time xs using ch(2) by fastforce
    then have "card ?later < card (ts ` set vs)" by (intro psubset_card_mono) simp_all
    also have "\<dots> = length vs" by (rule chronological_card [OF ch(1)])
    also have "\<dots> \<le> k" by (simp add: vs_def)
    finally have "card ?later < k" .
    moreover have "t \<in> dom (by_time ts xs)" using new by (auto simp: dom_by_time xs)
    moreover have "t \<in> dom (by_time ts vs)" using new by (simp add: dom_by_time)
    ultimately show ?thesis unfolding newest_def bt vs_def [symmetric] by (auto simp: restrict_map_def map_add_def)
  next
    case old
    then have "us \<noteq> []" by auto
    then have "k = length vs" by (auto simp: us_def vs_def)
    also have "\<dots> = card (ts ` set vs)" by (simp add: chronological_card [OF ch(1)])
    also have "\<dots> \<le> card ?later" using fin old ch(2) by (intro card_mono) (auto simp: dom_by_time xs)
    finally have "\<not> card ?later < k" by simp
    moreover have "t \<notin> dom (by_time ts vs)" using old dis by (auto simp: dom_by_time)
    ultimately show ?thesis unfolding newest_def vs_def [symmetric] by (simp add: restrict_map_def domIff)
  next
    case none
    then have "t \<notin> dom (by_time ts xs)" "t \<notin> dom (by_time ts vs)" by (auto simp: dom_by_time xs)
    then show ?thesis unfolding newest_def vs_def [symmetric] by (simp add: restrict_map_def domIff)
  qed
qed

definition js_cap :: "nat option \<Rightarrow> number option" where
  "js_cap cap = map_option real cap"

lemma newest_keep_last:
  assumes "chronological ts xs" "within_cap cap ys"
  shows "newest cap (by_time ts xs) = by_time ts (keep_last (js_cap cap) xs)"
  using assms newest_by_time [OF assms(1)]
  by (cases cap) (simp_all add: newest_def js_cap_def keep_last_def within_cap_def slice_last_of_nat)

lemma newest_within: "chronological ts xs \<Longrightarrow> within_cap cap xs \<Longrightarrow> newest cap (by_time ts xs) = by_time ts xs"
  by (cases cap) (simp_all add: newest_by_time within_cap_def newest_def [of None])

lemma by_time_snoc: "ts c \<notin> ts ` set xs \<Longrightarrow> by_time ts (xs @ [c]) = (by_time ts xs)(ts c \<mapsto> c)"
  using by_time_append [of ts xs "[c]"] by (auto simp: by_time_def [of ts "[c]"])

lemma enter_flush_candles:
  assumes ch: "chronological ts xs" and cap: "within_cap cap xs"
  shows "by_time ts (flush_candles ts (js_cap cap) c xs) = enter ts cap c (by_time ts xs)"
proof (cases xs rule: rev_cases)
  case Nil
  have "within_cap cap [c]" using cap by (auto simp: within_cap_def split: option.splits)
  then have "newest cap (by_time ts [c]) = by_time ts [c]" by (intro newest_within) simp_all
  then show ?thesis by (simp add: Nil flush_candles_cases enter_def dom_by_time) (simp add: by_time_def)
next
  case (snoc ys y)
  have le: "t \<le> ts y" if "t \<in> ts ` set xs" for t using that ch unfolding snoc chronological_split by force
  have no_later: "\<not> (\<exists>t \<in> dom (by_time ts xs). ts c < t)" if "ts y \<le> ts c"
  proof
    assume "\<exists>t \<in> dom (by_time ts xs). ts c < t"
    then obtain t where "t \<in> ts ` set xs" "ts c < t" by (auto simp: dom_by_time)
    then show False using le [of t] that by simp
  qed
  consider "ts y < ts c" | "ts c = ts y" | "ts c < ts y" by (rule linorder_cases [of "ts y" "ts c"]) auto
  then show ?thesis
  proof cases
    case 1
    have ch': "chronological ts (xs @ [c])" using ch 1 unfolding snoc by (intro chronological_snoc) simp_all
    have "ts c \<notin> ts ` set xs" using le [of "ts c"] 1 by auto
    moreover have "\<not> (\<exists>t \<in> dom (by_time ts xs). ts c < t)" using no_later 1 by simp
    ultimately have "enter ts cap c (by_time ts xs) = newest cap (by_time ts (xs @ [c]))" by (simp add: enter_def by_time_snoc)
    also have "\<dots> = by_time ts (keep_last (js_cap cap) (xs @ [c]))" by (rule newest_keep_last [OF ch' cap])
    finally show ?thesis using 1 by (simp add: snoc flush_candles_cases)
  next
    case 2
    have n: "ts y \<notin> ts ` set ys" using ch unfolding snoc chronological_split by force
    have "by_time ts (ys @ [c]) = (by_time ts xs)(ts c \<mapsto> c)" using n 2 by (simp add: snoc by_time_snoc)
    moreover have "chronological ts (ys @ [c])" "within_cap cap (ys @ [c])"
      using ch cap 2 unfolding snoc by (simp_all add: chronological_split within_cap_def split: option.splits)
    moreover have "\<not> (\<exists>t \<in> dom (by_time ts xs). ts c < t)" using no_later 2 by simp
    ultimately show ?thesis using 2 newest_within [of ts "ys @ [c]" cap] by (simp add: snoc flush_candles_cases enter_def)
  next
    case 3
    then show ?thesis by (auto simp: snoc flush_candles_cases enter_def dom_by_time)
  qed
qed

lemma flush_candles_within:
  assumes "within_cap cap xs" shows "within_cap cap (flush_candles ts (js_cap cap) c xs)"
  using assms flush_candles_length [of "real (the cap)" xs ts c]
  by (cases cap) (simp_all add: within_cap_def js_cap_def)

lemma feed_event_refines:
  assumes "chronological ts (fd_candles f)" "within_cap cap (fd_candles f)" "maxc (fd_setting f) = js_cap cap"
  shows "shown ts (feed_event ts maxc e f) = spec_event ts cap e (shown ts f) \<and>
         chronological ts (fd_candles (feed_event ts maxc e f)) \<and> within_cap cap (fd_candles (feed_event ts maxc e f)) \<and>
         fd_setting (feed_event ts maxc e f) = fd_setting f"
  using assms
  by (cases e; cases "fd_buffer f")
    (simp_all add: shown_def receive_def flush_def enter_flush_candles flush_candles_chronological flush_candles_within)

section \<open>Property\<close>

text \<open>
  C2. The live feed implements its specification: for every sequence of received candles and flushes, the candles a chart
  shows and the pending one are what the map of the newest candles by time yields.
\<close>

theorem live_feed_refines_series:
  assumes "chronological ts (fd_candles f)" "within_cap cap (fd_candles f)" "maxc (fd_setting f) = js_cap cap"
  shows "shown ts (fold (feed_event ts maxc) es f) = fold (spec_event ts cap) es (shown ts f)"
  using assms
proof (induction es arbitrary: f)
  case (Cons e es)
  have r: "shown ts (feed_event ts maxc e f) = spec_event ts cap e (shown ts f) \<and>
      chronological ts (fd_candles (feed_event ts maxc e f)) \<and> within_cap cap (fd_candles (feed_event ts maxc e f)) \<and>
      fd_setting (feed_event ts maxc e f) = fd_setting f"
    by (rule feed_event_refines) (use Cons.prems in simp_all)
  then have "shown ts (fold (feed_event ts maxc) es (feed_event ts maxc e f)) =
      fold (spec_event ts cap) es (shown ts (feed_event ts maxc e f))"
    using Cons.prems(3) by (intro Cons.IH) simp_all
  then show ?case using r by simp
qed simp

theorem live_feed_refines_series_witness:
  "shown id (fold (feed_event id (\<lambda>_. Some 2)) [Receive 3, Flush] (wit_feed [1, 2 :: number])) =
   (enter id (Some 2) 3 [2 \<mapsto> 2, 1 \<mapsto> 1], None)"
proof -
  have "by_time id [1, 2 :: number] = [2 \<mapsto> 2, 1 \<mapsto> 1]" by (simp add: by_time_def)
  then show ?thesis
    using live_feed_refines_series [of id "wit_feed [1, 2 :: number]" "Some 2" "\<lambda>_. Some 2" "[Receive 3, Flush]"]
    by (simp add: wit_feed_def chronological_def within_cap_def js_cap_def shown_def)
qed

end
