(* ===== verification/WsRecovery.thy ===== *)
theory WsRecovery
  imports WsClient
begin

text \<open>
  Liveness of the live data client (\<open>frontend-chart/src/lib/wsClient.ts\<close>): how it comes back after the connection was lost.
  The events that do not depend on the page are the reconnect timer, the opening of the current socket and the end
  of its closing. The number of such events that are left before the client is connected is bounded, and one of
  them is due as long as it is not connected.
\<close>

section \<open>Recovery steps\<close>

inductive recover :: "ws_client \<Rightarrow> ws_client \<Rightarrow> bool" where
  fires: "w_timer c \<noteq> None \<Longrightarrow> recover c (timer_fired c)"
| opens: "w_ws c = Some i \<Longrightarrow> so_ready (w_sockets c ! i) = CONNECTING \<Longrightarrow>
     recover c (with_handler i (handle_open i) (upd_socket i (\<lambda>s. s\<lparr>so_ready := OPEN\<rparr>) c))"
| closes: "w_ws c = Some i \<Longrightarrow> so_ready (w_sockets c ! i) = CLOSING \<Longrightarrow>
     recover c (with_handler i handle_close (upd_socket i (\<lambda>s. s\<lparr>so_ready := CLOSED\<rparr>) c))"

inductive_simps recover_iff: "recover c c'"

text \<open>How many recovery steps are left at most.\<close>

definition rank :: "ws_client \<Rightarrow> nat" where
  "rank c =
     (let t = (if w_timer c = None then 0 else 1)
      in case ready_of c of
           Some OPEN \<Rightarrow> t | Some CONNECTING \<Rightarrow> 1 + t | Some CLOSING \<Rightarrow> 3 | Some CLOSED \<Rightarrow> 3 | None \<Rightarrow> 2)"

definition started :: "ws_client \<Rightarrow> bool" where
  "started c \<longleftrightarrow> \<not> w_destroyed c \<and> w_sockets c \<noteq> []"

section \<open>Lemmas\<close>

lemma current_live:
  assumes "ws_inv c" "w_ws c = Some i"
  shows "i < length (w_sockets c) \<and> so_attached (w_sockets c ! i) \<and> so_ready (w_sockets c ! i) \<noteq> CLOSED \<and>
         \<not> w_destroyed c"
  using assms current_not_destroyed [OF assms] by (simp add: ws_inv_def sockets_inv_def live_def)

lemma recover_is_step: "recover c c' \<Longrightarrow> ws_inv c \<Longrightarrow> ws_step c c'"
  by (induction rule: recover.induct)
    (auto dest: current_live intro: ws_step.timer ws_step.opened ws_step.closed)

lemma timer_fired_fields:
  assumes "\<not> w_destroyed c"
  shows "w_timer (timer_fired c) = None" "w_activeSubs (timer_fired c) = w_activeSubs c" "\<not> w_destroyed (timer_fired c)"
    "ready_of (timer_fired c) = (if ready_of c = Some OPEN then Some OPEN else Some CONNECTING)"
proof -
  let ?c = "connect (c\<lparr>w_timer := None\<rparr>)"
  have t: "timer_fired c = ?c\<lparr>w_reconnectDelay := min (w_reconnectDelay ?c * 2) maxReconnectDelay\<rparr>"
    using assms by (simp add: timer_fired_def Let_def)
  show "w_timer (timer_fired c) = None" "w_activeSubs (timer_fired c) = w_activeSubs c" "\<not> w_destroyed (timer_fired c)"
    using assms by (simp_all add: t)
  show "ready_of (timer_fired c) = (if ready_of c = Some OPEN then Some OPEN else Some CONNECTING)"
    using assms unfolding t by (auto simp: connect_def ready_of_def Let_def nth_append split: option.splits)
qed


lemma opened_fields:
  assumes "ws_inv c" "w_ws c = Some i" "so_ready (w_sockets c ! i) = CONNECTING"
  defines "c' \<equiv> with_handler i (handle_open i) (upd_socket i (\<lambda>s. s\<lparr>so_ready := OPEN\<rparr>) c)"
  shows "w_timer c' = w_timer c" "w_activeSubs c' = w_activeSubs c" "w_destroyed c' = w_destroyed c"
    "ready_of c' = Some OPEN" "w_sockets c' \<noteq> []"
proof -
  note l = current_live [OF assms(1,2)]
  let ?c1 = "upd_socket i (\<lambda>s. s\<lparr>so_ready := OPEN\<rparr>) c"
  let ?c2 = "emit (cfg_onConnect (w_config c)) (OnConnect (cfg_id (w_config c))) (?c1\<lparr>w_reconnectDelay := 1000\<rparr>)"
  have "c' = fold sendSubscribe (map snd (w_activeSubs c)) ?c2"
    using l by (simp add: c'_def with_handler_def handle_open_def Let_def)
  also have "\<dots> = upd_socket i (\<lambda>s. s\<lparr>so_sent := so_sent s @ map Subscribe (map snd (w_activeSubs c))\<rparr>) ?c2"
    by (rule fold_sendSubscribe) (use l assms(2) in simp_all)
  finally show "w_timer c' = w_timer c" "w_activeSubs c' = w_activeSubs c" "w_destroyed c' = w_destroyed c"
    "ready_of c' = Some OPEN" "w_sockets c' \<noteq> []"
    using l assms(2) by (auto simp: ready_of_def)
qed

lemma closed_fields:
  assumes "ws_inv c" "w_ws c = Some i"
  defines "c' \<equiv> with_handler i handle_close (upd_socket i (\<lambda>s. s\<lparr>so_ready := CLOSED\<rparr>) c)"
  shows "w_timer c' \<noteq> None" "w_activeSubs c' = w_activeSubs c" "\<not> w_destroyed c'" "ready_of c' = None" "w_sockets c' \<noteq> []"
  using current_live [OF assms(1,2)]
  by (auto simp: c'_def with_handler_def handle_close_def scheduleReconnect_def ready_of_def)

lemma recover_rank:
  assumes "recover c c'" "ws_inv c" "started c"
  shows "rank c' < rank c \<and> started c' \<and> w_activeSubs c' = w_activeSubs c"
  using assms
proof (induction rule: recover.induct)
  case (fires c)
  then have nd: "\<not> w_destroyed c" by (simp add: started_def)
  note f = timer_fired_fields [OF nd]
  have "ws_inv (timer_fired c)" by (rule ws_inv_timer [OF fires(2)])
  moreover obtain i where "w_ws (timer_fired c) = Some i" using f(4) by (auto simp: ready_of_def split: option.splits if_splits)
  ultimately have "w_sockets (timer_fired c) \<noteq> []" using current_live [of "timer_fired c" i] by auto
  then show ?case using f fires(1) by (auto simp: rank_def started_def split: option.splits ready_state.splits)
next
  case (opens c i)
  then show ?case using opened_fields [OF opens(3,1,2)]
    by (simp add: rank_def started_def ready_of_def [of c])
next
  case (closes c i)
  then show ?case using closed_fields [OF closes(3,1)]
    by (simp add: rank_def started_def ready_of_def [of c])
qed

lemma recover_enabled:
  assumes "ws_inv c" "started c" "\<not> isConnected c"
  shows "\<exists>c'. recover c c'"
proof (cases "w_ws c")
  case None
  then have "w_timer c \<noteq> None" using assms(1,2) by (simp add: ws_inv_def alive_inv_def started_def)
  then show ?thesis using recover.fires by blast
next
  case (Some i)
  then have "so_ready (w_sockets c ! i) \<noteq> OPEN" using assms(3) by (simp add: isConnected_iff)
  then have "so_ready (w_sockets c ! i) = CONNECTING \<or> so_ready (w_sockets c ! i) = CLOSING"
    using current_live [OF assms(1) Some] by (cases "so_ready (w_sockets c ! i)") simp_all
  then show ?thesis using recover.opens [OF Some] recover.closes [OF Some] by blast
qed

lemma recover_run:
  assumes "(recover ^^ n) c c'" "ws_inv c" "started c"
  shows "ws_inv c' \<and> started c' \<and> w_activeSubs c' = w_activeSubs c \<and> rank c' + n \<le> rank c"
  using assms(1)
proof (induction n arbitrary: c')
  case 0
  then show ?case using assms by simp
next
  case (Suc n)
  then obtain d where d: "(recover ^^ n) c d" "recover d c'" by auto
  note IH = Suc.IH [OF d(1)]
  then have "rank c' < rank d \<and> started c' \<and> w_activeSubs c' = w_activeSubs d" "ws_inv c'"
    using recover_rank [OF d(2)] ws_step_inv [OF recover_is_step [OF d(2)]] by auto
  then show ?case using IH by auto
qed

lemma rank_le: "ws_inv c \<Longrightarrow> rank c \<le> 3"
  by (auto simp: rank_def Let_def split: option.splits ready_state.splits)

section \<open>Property\<close>


text \<open>After the loss of its connection the client below schedules the timer, reconnects and subscribes again.\<close>

definition wit_lost :: ws_client where
  "wit_lost = with_handler 0 handle_close (upd_socket 0 (\<lambda>s. s\<lparr>so_ready := CLOSED\<rparr>) wit_connected)"

lemma wit_lost_state:
  "ws_reachable wit_lost" "w_sockets wit_lost \<noteq> []" "\<not> w_destroyed wit_lost" "w_timer wit_lost = Some 1000"
proof -
  have s: "ws_inv wit_connected" "w_ws wit_connected = Some 0"
    using ws_reachable_inv [OF wit_connected_reachable] wit_connected_state by simp_all
  note l = current_live [OF s]
  show "ws_reachable wit_lost" unfolding wit_lost_def
    by (rule ws_reachable.step [OF wit_connected_reachable], rule ws_step.closed) (use l in auto)
  show "w_sockets wit_lost \<noteq> []" "\<not> w_destroyed wit_lost" using closed_fields [OF s] by (simp_all add: wit_lost_def)
  show "w_timer wit_lost = Some 1000"
    using l by (simp add: wit_lost_def with_handler_def handle_close_def scheduleReconnect_def)
      (simp add: wit_connected_def with_handler_def handle_open_def connect_def subscribe_def sendSubscribe_def
        send_wire_def isConnected_def ready_of_def ws_new_def Let_def)
qed

definition wit_back :: ws_client where
  "wit_back = with_handler 1 (handle_open 1) (upd_socket 1 (\<lambda>s. s\<lparr>so_ready := OPEN\<rparr>) (timer_fired wit_lost))"

lemma wit_lost_fields: "w_ws wit_lost = None" "length (w_sockets wit_lost) = 1"
  by (simp_all add: wit_lost_def wit_connected_def with_handler_def handle_close_def scheduleReconnect_def handle_open_def
      connect_def subscribe_def sendSubscribe_def send_wire_def isConnected_def ready_of_def ws_new_def Let_def)

lemma wit_back_run: "(recover ^^ 2) wit_lost wit_back" "rank wit_back = 0"
proof -
  have t: "w_ws (timer_fired wit_lost) = Some 1" "so_ready (w_sockets (timer_fired wit_lost) ! 1) = CONNECTING"
    using wit_lost_fields wit_lost_state(3)
    by (simp_all add: timer_fired_def connect_def ready_of_def Let_def nth_append)
  have inv: "ws_inv (timer_fired wit_lost)" by (rule ws_inv_timer [OF ws_reachable_inv [OF wit_lost_state(1)]])
  have "recover wit_lost (timer_fired wit_lost)" "recover (timer_fired wit_lost) wit_back"
    unfolding wit_back_def using wit_lost_state(4) t by (auto intro: recover.fires recover.opens)
  then show "(recover ^^ 2) wit_lost wit_back" by (auto simp: numeral_2_eq_2)
  show "rank wit_back = 0"
    using opened_fields [OF inv t] timer_fired_fields [OF wit_lost_state(3)] by (simp add: rank_def wit_back_def)
qed


end
