(* ===== verification/TerminalMenus.thy ===== *)
theory TerminalMenus
  imports AppState ChartFeed AuthStubs "HOL-Library.Product_Lexorder"
begin

text \<open>
  The menus of the terminal: the bar above the charts (\<open>frontend-chart/src/App.tsx\<close>) with its tickers,
  intervals and compression levels, the pages it switches between, the workspace menu of the chart
  (\<open>components/ClusterChart.tsx\<close>), and the account menu of the header (\<open>components/Header.tsx\<close>).

  The order \<open>localeCompare\<close> gives to the symbols is the argument \<open>collate\<close>, a sort key of the browser's collation.
\<close>

section \<open>Tickers and intervals\<close>

definition is_favorite :: "market \<Rightarrow> favorites \<Rightarrow> crypto_pair \<Rightarrow> bool" where
  "is_favorite m f p \<longleftrightarrow> JStr (pair_symbol p) \<in> set (fav_list m f)"

definition menu_pairs ::
  "(string \<Rightarrow> nat) \<Rightarrow> market \<Rightarrow> favorites \<Rightarrow> crypto_pair list \<Rightarrow> crypto_pair list" where
  "menu_pairs collate m f pairs =
     sort_key (\<lambda>p. (if is_favorite m f p then 0 :: nat else 1, collate (pair_symbol p))) pairs"

definition intervals_of :: "market \<Rightarrow> string list" where
  "intervals_of m =
     (if m = SPOT then [''15m'', ''30m'', ''1h'', ''4h'']
      else [''1m'', ''5m'', ''15m'', ''30m'', ''1h'', ''4h'', ''50t''])"

section \<open>Compression levels\<close>

record compression_option =
  co_multiplier :: int
  co_actualValue :: int
  co_isLocked :: bool

definition shown_base :: "string \<Rightarrow> market \<Rightarrow> int" where
  "shown_base symbol m =
     (if str_includes (toUpperCase symbol) ''BTC'' then (if m = FUTURES then 25 else 500) else 25)"

text \<open>The comparison with a limit that is not a number is false, so that nothing is locked.\<close>

definition level_locked :: "jobj \<Rightarrow> number \<Rightarrow> bool" where
  "level_locked limits multiplier \<longleftrightarrow>
     (case to_number (map_of limits ''compressionLevels'') of Some n \<Rightarrow> multiplier > n | None \<Rightarrow> False)"

definition compression_options :: "jobj \<Rightarrow> string \<Rightarrow> market \<Rightarrow> compression_option list" where
  "compression_options limits symbol m =
     map (\<lambda>k. \<lparr>co_multiplier = k, co_actualValue = shown_base symbol m * k, co_isLocked = level_locked limits (of_int k)\<rparr>)
       [1 .. 10]"

text \<open>A disabled option cannot be chosen.\<close>

definition choose_compression :: "compression_option \<Rightarrow> app \<Rightarrow> app" where
  "choose_compression c a = (if co_isLocked c then a else setCompressionMultiplier (of_int (co_multiplier c)) a)"

section \<open>Open menus, pages, side bar\<close>

datatype page_view = Terminal_view | Admin_view | Profile_view

record menus =
  mn_ticker :: bool
  mn_palette :: bool

text \<open>A press anywhere: the menus whose element does not contain the target close.\<close>

definition handleClickOutside :: "(string \<Rightarrow> bool) \<Rightarrow> menus \<Rightarrow> menus" where
  "handleClickOutside inside m =
     \<lparr>mn_ticker = (mn_ticker m \<and> inside ''ticker''), mn_palette = (mn_palette m \<and> inside ''palette'')\<rparr>"

text \<open>Each chart has a workspace menu of its own, open or closed.\<close>

definition chart_click_outside :: "bool \<Rightarrow> bool \<Rightarrow> bool" where
  "chart_click_outside inside open_menu \<longleftrightarrow> open_menu \<and> inside"

definition pick_ticker :: "crypto_pair \<Rightarrow> app \<times> menus \<Rightarrow> app \<times> menus" where
  "pick_ticker p s = (setActivePair (pair_symbol p) (fst s), (snd s)\<lparr>mn_ticker := False\<rparr>)"

definition pick_palette :: "string \<Rightarrow> app \<times> menus \<Rightarrow> app \<times> menus" where
  "pick_palette val s =
     (set_active_config (\<lambda>c. c\<lparr>cf_candlePalette := val\<rparr>) (fst s), (snd s)\<lparr>mn_palette := False\<rparr>)"

definition setCandleType :: "string \<Rightarrow> app \<Rightarrow> app" where
  "setCandleType val = set_active_config (\<lambda>c. c\<lparr>cf_candleType := val\<rparr>)"

definition setCandleDataType :: "string \<Rightarrow> app \<Rightarrow> app" where
  "setCandleDataType val = set_active_config (\<lambda>c. c\<lparr>cf_candleDataType := val\<rparr>)"

definition onOpenAdmin :: "page_view \<Rightarrow> page_view" where
  "onOpenAdmin v = (if v = Admin_view then Terminal_view else Admin_view)"

definition init_collapsed :: "local_storage \<Rightarrow> bool" where
  "init_collapsed ls \<longleftrightarrow> storage_get ls ''procluster_sidebar_collapsed'' = Some ''true''"

definition toggle_sidebar :: "bool \<times> local_storage \<Rightarrow> bool \<times> local_storage" where
  "toggle_sidebar s =
     (\<not> fst s, storage_set ''procluster_sidebar_collapsed'' (if \<not> fst s then ''true'' else ''false'') (snd s))"

text \<open>The entries of the workspace menu; two charts need a plan with two workspaces.\<close>

definition layout_locked :: "number \<Rightarrow> layout \<Rightarrow> bool" where
  "layout_locked workspacesCount l \<longleftrightarrow> workspacesCount < 2 \<and> l \<noteq> Single"

definition pick_layout :: "number \<Rightarrow> layout \<Rightarrow> layout \<times> bool \<Rightarrow> layout \<times> bool" where
  "pick_layout workspacesCount l s = (if layout_locked workspacesCount l then s else (l, False))"

text \<open>Dragging the splitter with a finger; a move without touches changes nothing.\<close>

definition splitter_touch ::
  "layout \<Rightarrow> number \<times> number \<Rightarrow> number \<times> number \<Rightarrow> (number \<times> number) list \<Rightarrow> number \<Rightarrow> number" where
  "splitter_touch l horizontal vertical touches ratio =
     (case touches of [] \<Rightarrow> ratio | pos # _ \<Rightarrow> splitter_move l horizontal vertical pos)"

section \<open>Alerts\<close>

record alert =
  al_id :: string
  al_dismissed :: bool

definition shown_alerts :: "bool \<Rightarrow> alert list \<Rightarrow> alert list" where
  "shown_alerts searchActive alerts = (if searchActive then take 3 (filter (\<lambda>a. \<not> al_dismissed a) alerts) else [])"

definition dismiss :: "string \<Rightarrow> alert list \<Rightarrow> alert list" where
  "dismiss i = map (\<lambda>a. if al_id a = i then a\<lparr>al_dismissed := True\<rparr> else a)"

definition alert_allowed :: "string \<Rightarrow> bool" where
  "alert_allowed userRole \<longleftrightarrow> userRole = ''VIP'' \<or> userRole = ''Admin''"

section \<open>The account menu\<close>

definition is_admin_account :: "auth_user option \<Rightarrow> bool" where
  "is_admin_account u =
     (case u of None \<Rightarrow> False
      | Some a \<Rightarrow> au_name a = JStr ''Admin'' \<or> au_email a = JStr ''admin@procluster.io'')"

text \<open>The roles offered; the selector exists for administrators only.\<close>

definition role_options :: "string \<Rightarrow> auth_user option \<Rightarrow> string list" where
  "role_options userRole u =
     (if userRole \<noteq> ''Admin'' then []
      else if is_admin_account u then [''Guest'', ''Free'', ''Pro'', ''VIP'', ''Admin''] else [''Guest'', ''VIP'', ''Admin''])"

definition open_login :: "header_state \<Rightarrow> header_state" where
  "open_login h = h\<lparr>hd_authError := [], hd_authTab := LoginTab, hd_showLoginModal := True\<rparr>"

definition choose_tab :: "auth_tab \<Rightarrow> header_state \<Rightarrow> header_state" where
  "choose_tab t h = h\<lparr>hd_authError := [], hd_authTab := t\<rparr>"

datatype login_field = Name_field | Email_field | Password_field | Confirm_field

definition type_field :: "login_field \<Rightarrow> string \<Rightarrow> header_state \<Rightarrow> header_state" where
  "type_field fld val h0 =
     (let h = h0\<lparr>hd_authError := []\<rparr> in
      case fld of
        Name_field \<Rightarrow> h\<lparr>hd_loginName := val\<rparr> | Email_field \<Rightarrow> h\<lparr>hd_loginEmail := val\<rparr>
      | Password_field \<Rightarrow> h\<lparr>hd_loginPassword := val\<rparr> | Confirm_field \<Rightarrow> h\<lparr>hd_confirmPassword := val\<rparr>)"

definition close_login :: "header_state \<Rightarrow> header_state" where
  "close_login h = h\<lparr>hd_showLoginModal := False\<rparr>"

definition auto_login ::
  "codec \<Rightarrow> local_storage \<times> header_state \<Rightarrow> storage_exn + (local_storage \<times> header_state)" where
  "auto_login cd s =
     (case authenticateWithAdmin cd (fst s) of
        Inl e \<Rightarrow> Inl e
      | Inr (ls', u) \<Rightarrow> Inr (ls', (snd s)\<lparr>hd_user := Some u, hd_showLoginModal := False\<rparr>))"

definition toggle_dropdown :: "header_state \<Rightarrow> header_state" where
  "toggle_dropdown h = h\<lparr>hd_dropdownOpen := \<not> hd_dropdownOpen h\<rparr>"

definition header_click_outside :: "bool \<Rightarrow> header_state \<Rightarrow> header_state" where
  "header_click_outside inside h = (if inside then h else h\<lparr>hd_dropdownOpen := False\<rparr>)"

text \<open>An entry of the menu that leads to a page.\<close>

definition go_to :: "page_view \<Rightarrow> header_state \<times> page_view \<Rightarrow> header_state \<times> page_view" where
  "go_to p s = ((fst s)\<lparr>hd_dropdownOpen := False\<rparr>, p)"


section \<open>The workspace\<close>

text \<open>
  The second chart exists in the split layouts only, and its menu is closed when it appears again. A press inside a chart
  makes it the active one, whose settings the bar above the charts shows and changes; the workspace menu is inside each
  chart, so that choosing a layout is a press inside it.
\<close>

record workspace =
  ws_layout :: layout
  ws_open :: "nat \<Rightarrow> bool"
  ws_app :: app

definition visible_charts :: "layout \<Rightarrow> nat list" where
  "visible_charts l = (if l = Single then [0] else [0, 1])"

definition click_chart :: "nat \<Rightarrow> app \<Rightarrow> app" where
  "click_chart i a = (if ap_active a \<noteq> i then setActiveChartIndex i a else a)"

definition choose_layout :: "number \<Rightarrow> nat \<Rightarrow> layout \<Rightarrow> workspace \<Rightarrow> workspace" where
  "choose_layout workspacesCount i l w =
     (if i \<in> set (visible_charts (ws_layout w))
      then let r = pick_layout workspacesCount l (ws_layout w, ws_open w i)
           in w\<lparr>ws_layout := fst r,
                ws_open := (\<lambda>k. k \<in> set (visible_charts (fst r)) \<and> (if k = i then snd r else ws_open w k)),
                ws_app := click_chart i (ws_app w)\<rparr>
      else w)"

section \<open>Properties\<close>

lemma sort_key_cong2: "(\<And>x. x \<in> set xs \<Longrightarrow> f x = g x) \<Longrightarrow> sort_key f xs = sort_key g xs"
proof (rule properties_for_sort_key)
  assume eq: "\<And>x. x \<in> set xs \<Longrightarrow> f x = g x"
  then have m: "map f (sort_key g xs) = map g (sort_key g xs)" by simp
  show "sorted (map f (sort_key g xs))" unfolding m by (rule sorted_sort_key)
  fix x assume "x \<in> set (sort_key g xs)"
  then have "filter (\<lambda>y. f x = f y) (sort_key g xs) = filter (\<lambda>y. g x = g y) (sort_key g xs)"
    "filter (\<lambda>y. f x = f y) xs = filter (\<lambda>y. g x = g y) xs"
    using eq by (auto intro!: filter_cong)
  then show "filter (\<lambda>y. f x = f y) (sort_key g xs) = filter (\<lambda>y. f x = f y) xs"
    using sort_key_stable [of g "g x" xs] by (simp add: eq_commute)
qed simp

lemma sort_key_filter_eq:
  assumes "\<And>x. x \<in> set xs \<Longrightarrow> P x \<Longrightarrow> f x = g x"
  shows "filter P (sort_key f xs) = sort_key g (filter P xs)"
proof -
  have "filter P (sort_key f xs) = sort_key f (filter P xs)" by (rule filter_sort)
  also have "\<dots> = sort_key g (filter P xs)" using assms by (intro sort_key_cong2) auto
  finally show ?thesis .
qed

lemma sort_key_const_pair: "sort_key (\<lambda>p. (k :: nat, h p :: nat)) xs = sort_key h xs"
proof (rule properties_for_sort_key)
  show "mset (sort_key h xs) = mset xs" by simp
  show "sorted (map (\<lambda>p. (k, h p)) (sort_key h xs))"
    using sorted_sort_key [of h xs] by (simp add: sorted_map sorted_wrt_map)
  fix x assume "x \<in> set (sort_key h xs)"
  show "filter (\<lambda>y. (k, h x) = (k, h y)) (sort_key h xs) = filter (\<lambda>y. (k, h x) = (k, h y)) xs"
    using sort_key_stable [of h "h x" xs] by (simp add: eq_commute)
qed

lemma sorted_partition:
  "sorted (map (\<lambda>x. (if P x then 0 :: nat else 1, h x :: nat)) xs) \<Longrightarrow> xs = filter P xs @ filter (\<lambda>x. \<not> P x) xs"
proof (induction xs)
  case (Cons x xs)
  then have IH: "xs = filter P xs @ filter (\<lambda>x. \<not> P x) xs" by simp
  show ?case
  proof (cases "P x")
    case True
    then show ?thesis using IH by simp
  next
    case False
    then have "\<not> P y" if "y \<in> set xs" for y using Cons.prems that by (auto simp: less_eq_prod_def split: if_splits)
    then show ?thesis using False by (simp add: filter_id_conv)
  qed
qed simp

text \<open>
  The ticker menu lists every pair once, the favorites before all others, and both groups in alphabetical order; marking or
  unmarking a favorite moves only this ticker: the others keep their order.
\<close>

theorem ticker_menu_order:
  fixes collate :: "string \<Rightarrow> nat"
  shows "mset (menu_pairs collate m f pairs) = mset pairs \<and>
         menu_pairs collate m f pairs =
           sort_key (collate \<circ> pair_symbol) (filter (is_favorite m f) pairs) @
           sort_key (collate \<circ> pair_symbol) (filter (\<lambda>p. \<not> is_favorite m f p) pairs) \<and>
         filter (\<lambda>p. pair_symbol p \<noteq> symbol) (menu_pairs collate m (fst (toggleFavorite cd symbol m (f, ls))) pairs) =
         filter (\<lambda>p. pair_symbol p \<noteq> symbol) (menu_pairs collate m f pairs)"
proof (intro conjI)
  let ?h = "collate \<circ> pair_symbol" and ?k = "\<lambda>f p. (if is_favorite m f p then 0 :: nat else 1, collate (pair_symbol p))"
  show "mset (menu_pairs collate m f pairs) = mset pairs" by (simp add: menu_pairs_def)
  have part: "filter (is_favorite m f) (menu_pairs collate m f pairs) = sort_key ?h (filter (is_favorite m f) pairs)"
    "filter (\<lambda>p. \<not> is_favorite m f p) (menu_pairs collate m f pairs) =
     sort_key ?h (filter (\<lambda>p. \<not> is_favorite m f p) pairs)"
    unfolding menu_pairs_def
    using sort_key_filter_eq [of pairs "is_favorite m f" "?k f" "\<lambda>p. (0, ?h p)"]
      sort_key_filter_eq [of pairs "\<lambda>p. \<not> is_favorite m f p" "?k f" "\<lambda>p. (1, ?h p)"]
    by (simp_all add: sort_key_const_pair comp_def)
  have "sorted (map (?k f) (menu_pairs collate m f pairs))" by (simp add: menu_pairs_def)
  then have "menu_pairs collate m f pairs = filter (is_favorite m f) (menu_pairs collate m f pairs) @
      filter (\<lambda>p. \<not> is_favorite m f p) (menu_pairs collate m f pairs)"
    by (rule sorted_partition)
  then show "menu_pairs collate m f pairs = sort_key ?h (filter (is_favorite m f) pairs) @
           sort_key ?h (filter (\<lambda>p. \<not> is_favorite m f p) pairs)"
    unfolding part .
  have same: "is_favorite m (fst (toggleFavorite cd symbol m (f, ls))) p = is_favorite m f p"
    if "pair_symbol p \<noteq> symbol" for p
    using that by (cases m) (auto simp: is_favorite_def fav_list_def toggleFavorite_def toggle_list_def Let_def)
  show "filter (\<lambda>p. pair_symbol p \<noteq> symbol) (menu_pairs collate m (fst (toggleFavorite cd symbol m (f, ls))) pairs) =
        filter (\<lambda>p. pair_symbol p \<noteq> symbol) (menu_pairs collate m f pairs)"
    unfolding menu_pairs_def filter_sort
    by (rule sort_key_cong2) (simp add: same)
qed

text \<open>
  The compression shown next to a level is the one that is requested: for the setting of a chart, the value of an
  option of the menu is what the REST requests and the subscription ask for after it is chosen.
\<close>

theorem shown_compression_is_requested:
  assumes "c \<in> set (compression_options limits (se_symbol st) (if isFutures st then FUTURES else SPOT))"
  shows "co_actualValue c = compression (st\<lparr>se_multiplier := co_multiplier c\<rparr>)"
  using assms by (auto simp: compression_options_def shown_base_def compression_def baseCompression_def isFutures_def Let_def)


lemma settle_keeps_interval:
  "\<not> corrected (active_config cur) \<Longrightarrow> cf_interval (active_config (settle cd pr prev cur)) = cf_interval (active_config cur)"
  using same_active [OF settle_settings [of cd pr prev cur]] by (simp add: settings_effect_active Let_def)

text \<open>
  The spot market keeps an interval it does not have: the correction on a change of the market knows the intervals of one and
  five minutes only, so a chart of the futures market with 50 ticks per candle stays at 50 ticks when it is
  switched to the spot market, where the bar has no button for it.
\<close>

theorem spot_market_keeps_tick_interval:
  fixes cd :: codec and pr :: "number \<Rightarrow> string" and a :: app
  assumes "cf_market (active_config a) = FUTURES" "cf_interval (active_config a) = ''50t''"
  defines "s \<equiv> settle cd pr (Some a) (setMarketType SPOT a)"
  shows "cf_market (active_config s) = SPOT \<and> cf_interval (active_config s) = ''50t'' \<and>
         cf_interval (active_config s) \<notin> set (intervals_of (cf_market (active_config s)))"
proof -
  let ?c = "setMarketType SPOT a"
  have act: "active_config ?c = (active_config a)\<lparr>cf_market := SPOT\<rparr>" by (simp add: setMarketType_def)
  have "cf_interval (active_config s) = cf_interval (active_config ?c)"
    unfolding s_def by (rule settle_keeps_interval) (simp add: act corrected_def assms(2))
  moreover have "cf_market (active_config s) = SPOT" unfolding s_def using settle_active(6) act by simp
  ultimately show ?thesis using act assms(2) by (simp add: intervals_of_def)
qed

text \<open>
  The bar above the charts can act on a chart that is not there: choosing the layout of one chart in the menu of the second
  chart leaves the second chart active, so that every setting made in the bar goes to the hidden chart and
  the visible one never changes.
\<close>

theorem hidden_chart_stays_active:
  fixes n :: number
  assumes "ws_layout w \<noteq> Single"
  defines "w' \<equiv> choose_layout n 1 Single w"
  shows "visible_charts (ws_layout w') = [0] \<and> ap_active (ws_app w') = 1 \<and>
         ap_config0 (set_active_config f (ws_app w')) = ap_config0 (ws_app w) \<and>
         ap_config1 (set_active_config f (ws_app w')) = f (ap_config1 (ws_app w))"
  using assms(1)
  by (simp add: w'_def choose_layout_def Let_def visible_charts_def pick_layout_def layout_locked_def click_chart_def
      setActiveChartIndex_def set_active_config_def)


section \<open>Witnesses\<close>

theorem shown_compression_is_requested_witness:
  "shown_base ''BTCUSDT'' SPOT * 2 = compression (wit_setting\<lparr>se_multiplier := 2\<rparr>)"
proof -
  have "\<lparr>co_multiplier = 2, co_actualValue = shown_base ''BTCUSDT'' SPOT * 2, co_isLocked = level_locked [] (of_int 2)\<rparr>
      \<in> set (compression_options [] (se_symbol wit_setting) (if isFutures wit_setting then FUTURES else SPOT))"
    by (auto simp: compression_options_def isFutures_def wit_setting_def)
  from shown_compression_is_requested [OF this] show ?thesis by simp
qed

lemma wit_app_market: "cf_market (active_config wit_app) = SPOT"
  by (simp add: wit_app_def active_config_def wit_config_def)


definition wit_tick_app :: app where
  "wit_tick_app = setMarketType FUTURES (setInterval ''50t'' wit_app)"

theorem spot_market_keeps_tick_interval_witness:
  "cf_interval (active_config (settle wit_no_json (\<lambda>_. []) (Some wit_tick_app) (setMarketType SPOT wit_tick_app))) = ''50t''"
  using spot_market_keeps_tick_interval [of wit_tick_app wit_no_json "\<lambda>_. []"]
  by (simp add: wit_tick_app_def setMarketType_def setInterval_def)

theorem hidden_chart_stays_active_witness:
  "ap_active (ws_app (choose_layout 2 1 Single \<lparr>ws_layout = Split_h, ws_open = (\<lambda>k. k = 1), ws_app = wit_app\<rparr>)) = 1"
  using hidden_chart_stays_active [of "\<lparr>ws_layout = Split_h, ws_open = (\<lambda>k. k = 1), ws_app = wit_app\<rparr>" 2] by simp

end
