(* ===== verification/ChartOverlay.thy ===== *)
theory ChartOverlay
  imports FootprintPaint IndicatorDialog
begin

text \<open>
  What surrounds the canvas of \<open>frontend-chart/src/components/ClusterChart.tsx\<close>: the price scale on the right with its
  labels, its wheel and its drags, the values and buttons above the sub-panels, the tooltip of the cluster search, and
  the counter of frames.

  \<open>loc\<close> is \<open>toLocaleString\<close> with a minimum of decimals, a function of the browser's locale.
\<close>

section \<open>Labels of the price scale\<close>

definition price_digits :: "scene \<Rightarrow> nat" where
  "price_digits s = (if sc_priceStep s < 1 / 10 then 3 else 1)"

definition price_text :: "(nat \<Rightarrow> number \<Rightarrow> string) \<Rightarrow> scene \<Rightarrow> number \<Rightarrow> string" where
  "price_text loc s p = CHR ''$'' # loc (price_digits s) p"

definition tick_price :: "scene \<Rightarrow> view \<Rightarrow> nat \<Rightarrow> number" where
  "tick_price s v i =
     (let b = sc_bounds s; vs = v_verticalScale v; off = v_priceCenterOffset v; ratio = real i / 5
      in minPrice b vs off + ratio * (maxPrice b vs off - minPrice b vs off))"

definition price_ticks :: "(nat \<Rightarrow> number \<Rightarrow> string) \<Rightarrow> scene \<Rightarrow> view \<Rightarrow> shape list" where
  "price_ticks loc s v =
     concat (map (\<lambda>i. let price = tick_price s v i; gridY = price_y s v price
                      in [Line 0 gridY 5 gridY, Label (price_text loc s price) 8 (gridY + 4)]) [0..<6])"

definition active_price_label :: "(nat \<Rightarrow> number \<Rightarrow> string) \<Rightarrow> scene \<Rightarrow> view \<Rightarrow> number \<Rightarrow> shape list" where
  "active_price_label loc s v price =
     (let y = price_y s v price in
      if y \<ge> margin_top \<and> y \<le> margin_top + chartHeight (sc_panels s)
      then [Fill_rect 3 (y - 8) 82 16 Plain, Label (price_text loc s price) 8 (y + 4)] else [])"

definition panel_dividers :: "panels \<Rightarrow> shape list" where
  "panel_dividers p =
     (if pn_delta p \<or> pn_cvd p then [Line 0 (margin_top + chartHeight p) 90 (margin_top + chartHeight p)] else []) @
     (if pn_delta p \<and> pn_cvd p
      then let y = deltaTopY p + pn_deltaPanelHeight p + panelGap / 2 in [Line 0 y 90 y] else [])"

definition K_text :: "number \<Rightarrow> string" where
  "K_text x = fixed_text 1 x @ ''K''"

definition delta_labels :: "panels \<Rightarrow> number \<Rightarrow> candle list \<Rightarrow> shape list" where
  "delta_labels p deltaScale candles =
     (if pn_delta p
      then let top = deltaTopY p; h = pn_deltaPanelHeight p; m = zoomedMaxCandleDelta deltaScale candles
           in [Label (''+'' @ K_text m) 8 (top + h * (1 / 10) + 4), Label ''0.0K'' 8 (top + h / 2 + 4),
               Label (''-'' @ K_text m) 8 (top + h * (9 / 10) + 4)]
      else [])"

definition cvdCenterVal :: "number \<times> number \<times> number \<Rightarrow> number" where
  "cvdCenterVal r = (fst (snd r) + fst r) / 2"

definition zoomedCvdMax :: "number \<Rightarrow> number \<times> number \<times> number \<Rightarrow> number" where
  "zoomedCvdMax cvdScale r = cvdCenterVal r + zoomedCvdDeltaRange cvdScale r * (1 / 2)"

definition cvd_labels :: "panels \<Rightarrow> number \<Rightarrow> number \<times> number \<times> number \<Rightarrow> shape list" where
  "cvd_labels p cvdScale r =
     (if pn_cvd p
      then let top = cvdTopY p; h = pn_cvdPanelHeight p
           in [Label (''+'' @ K_text (zoomedCvdMax cvdScale r)) 8 (top + h * (1 / 10) + 4),
               Label (K_text (cvdCenterVal r)) 8 (top + h / 2 + 4),
               Label (K_text (zoomedCvdMin cvdScale r)) 8 (top + h * (9 / 10) + 4)]
      else [])"

definition crosshair_label :: "(nat \<Rightarrow> number \<Rightarrow> string) \<Rightarrow> scene \<Rightarrow> (number \<times> number \<times> number) option \<Rightarrow> shape list" where
  "crosshair_label loc s cross =
     (case cross of
        None \<Rightarrow> []
      | Some (x, y, price) \<Rightarrow> [Fill_rect 2 (y - 8) 82 16 Plain, Label (price_text loc s price) 8 (y + 4)])"

definition price_scale ::
  "(nat \<Rightarrow> number \<Rightarrow> string) \<Rightarrow> scene \<Rightarrow> view \<Rightarrow> number \<Rightarrow> number \<Rightarrow> number \<Rightarrow> candle list \<Rightarrow>
   (number \<times> number \<times> number) option \<Rightarrow> shape list" where
  "price_scale loc s v price deltaScale cvdScale candles cross =
     (let p = sc_panels s; total = totalSvgHeight p
      in [Fill_rect 0 0 90 total Plain, Line 0 0 0 total] @ price_ticks loc s v @ active_price_label loc s v price @
         panel_dividers p @ delta_labels p deltaScale candles @
         cvd_labels p cvdScale (cvd_range v (cumulativeDeltaPoints v candles)) @ crosshair_label loc s cross)"

section \<open>Dragging the scales\<close>

record scales =
  sl_view :: view
  sl_delta :: number
  sl_cvd :: number

datatype scale_drag = Delta_drag number number | Cvd_drag number number | Price_drag number number

text \<open>A press of the left button at \<open>clickY\<close> of the scale remembers where it began and the scale it will change.\<close>

definition press_scale :: "panels \<Rightarrow> nat \<Rightarrow> number \<Rightarrow> number \<Rightarrow> scales \<Rightarrow> scale_drag option" where
  "press_scale p button clickY clientY s =
     (if button \<noteq> 0 then None
      else if pn_delta p \<and> clickY \<ge> deltaTopY p \<and> clickY < cvdTopY p then Some (Delta_drag clientY (sl_delta s))
      else if pn_cvd p \<and> clickY \<ge> cvdTopY p then Some (Cvd_drag clientY (sl_cvd s))
      else Some (Price_drag clientY (v_verticalScale (sl_view s))))"

fun move_scale :: "scale_drag \<Rightarrow> number \<Rightarrow> scales \<Rightarrow> scales" where
  "move_scale (Delta_drag y0 s0) y s = s\<lparr>sl_delta := drag_panel_scale s0 y0 y\<rparr>"
| "move_scale (Cvd_drag y0 s0) y s = s\<lparr>sl_cvd := drag_panel_scale s0 y0 y\<rparr>"
| "move_scale (Price_drag y0 s0) y s = s\<lparr>sl_view := drag_price_scale s0 y0 y (sl_view s)\<rparr>"

section \<open>Values and buttons of the sub-panels\<close>

definition signed_text :: "number \<Rightarrow> string" where
  "signed_text x = (if x \<ge> 0 then ''+'' else []) @ K_text x"

definition deltaValueText :: "view \<Rightarrow> candle list \<Rightarrow> number option \<Rightarrow> string" where
  "deltaValueText v candles cross =
     (let i = (case cross of Some x \<Rightarrow> overlay_column_at v x | None \<Rightarrow> - 1) in
      if i \<ge> 0 \<and> i < real (length candles) then signed_text (c_delta (candles ! nat \<lfloor>i\<rfloor>)) else ''--'')"

definition cvdValueText :: "view \<Rightarrow> candle list \<Rightarrow> number option \<Rightarrow> string" where
  "cvdValueText v candles cross =
     (let i = (case cross of Some x \<Rightarrow> overlay_column_at v x | None \<Rightarrow> - 1); pts = cumulativeDeltaPoints v candles in
      if i \<ge> 0 \<and> i < real (length pts) then signed_text (snd (pts ! nat \<lfloor>i\<rfloor>)) else ''--'')"

text \<open>The eye and the bin of the delta panel, which is on the chart while its indicator is shown.\<close>

definition hide_delta :: "dialog \<Rightarrow> dialog" where
  "hide_delta = onToggleIndicator ''delta''"

definition remove_delta :: "dialog \<Rightarrow> dialog" where
  "remove_delta = onRemoveIndicator ''delta''"

definition hide_cvd :: "dialog \<Rightarrow> dialog" where
  "hide_cvd = onToggleIndicator ''cvd''"

definition remove_cvd :: "dialog \<Rightarrow> dialog" where
  "remove_cvd = onRemoveIndicator ''cvd''"

text \<open>The indicators named in the header of the chart, with whether they are visible.\<close>

definition without_brand :: "string \<Rightarrow> string" where
  "without_brand s =
     (case find (\<lambda>k. startsWith (drop k s) ''(PROCLUSTER) '') [0..<length s] of
        Some k \<Rightarrow> take k s @ drop (k + 13) s | None \<Rightarrow> s)"

definition header_chips :: "indicator list \<Rightarrow> (string \<times> bool) list" where
  "header_chips inds = map (\<lambda>i. (without_brand (ind_label i), ind_isVisible i \<noteq> Some False)) (filter ind_isActive inds)"

section \<open>The tooltip of the cluster search\<close>

definition formatCoinsVolume :: "(number \<Rightarrow> string) \<Rightarrow> number \<Rightarrow> string \<Rightarrow> string" where
  "formatCoinsVolume loc valInCoins symbol = loc (js_round valInCoins) @ '' '' @ toUpperCase symbol"

definition formatUsdtVolume :: "number \<Rightarrow> string" where
  "formatUsdtVolume val =
     (if val \<ge> 1000000000 then fixed_text 1 (val / 1000000000) @ ''b USDT''
      else fixed_text 1 (val / 1000000) @ ''m USDT'')"

datatype intensity = Low | Medium | High

definition anomalyIntensity :: "cs_match \<Rightarrow> intensity" where
  "anomalyIntensity m =
     (let maxPercent = max (cm_bidPercent m) (cm_askPercent m)
      in if maxPercent > 70 then High else if maxPercent \<ge> 60 then Medium else Low)"

definition imbalanceValueStr :: "cs_match \<Rightarrow> string" where
  "imbalanceValueStr m =
     (if cm_bidPercent m > cm_askPercent m then ''-'' @ fixed_text 1 (cm_bidPercent m) @ ''%''
      else ''+'' @ fixed_text 1 (cm_askPercent m) @ ''%'')"

text \<open>The corner of the tooltip, relative to the whole chart, for a shape at \<open>(x, y)\<close> of the canvas.\<close>

definition tooltip_corner :: "number \<Rightarrow> number \<Rightarrow> number \<Rightarrow> number \<Rightarrow> number \<times> number" where
  "tooltip_corner clientWidth svgHeight x y =
     (if x > or_else clientWidth 800 - 275 then x - 200 else x + 55,
      if y > or_else svgHeight 550 - 180 then y - 155 else y + 15)"

definition tooltip_width :: number where "tooltip_width = 230"

record tooltip =
  tt_corner :: "number \<times> number"
  tt_intensity :: intensity
  tt_coins :: string
  tt_usdt :: string
  tt_imbalance :: string

text \<open>What the handler of the mouse keeps of the shape it found: its place on the canvas at that time.\<close>

definition hovered_shape :: "scene \<Rightarrow> view \<Rightarrow> nat \<times> cs_match \<Rightarrow> number \<times> number \<times> cs_match" where
  "hovered_shape s v h =
     (let c = shape_center s v (fst h) (cm_price (snd h)) in (fst c, snd c, snd h))"

definition cluster_tooltip ::
  "(number \<Rightarrow> string) \<Rightarrow> string \<Rightarrow> number \<Rightarrow> number \<Rightarrow> (number \<times> number \<times> cs_match) option \<Rightarrow> tooltip option" where
  "cluster_tooltip loc symbol clientWidth svgHeight hovered =
     map_option (\<lambda>(x, y, m).
        \<lparr>tt_corner = tooltip_corner clientWidth svgHeight x y, tt_intensity = anomalyIntensity m,
         tt_coins = formatCoinsVolume loc (cm_sumVolume m) (str_or (Some (before_slash symbol)) ''BTC''),
         tt_usdt = formatUsdtVolume (cm_sumVolume m * cm_price m), tt_imbalance = imbalanceValueStr m\<rparr>) hovered"

section \<open>The counter of frames\<close>

record frames =
  fr_count :: nat
  fr_last :: number
  fr_fps :: number

text \<open>\<open>now\<close> is the time of the animation frame in milliseconds.\<close>

definition measure_frame :: "number \<Rightarrow> frames \<Rightarrow> frames" where
  "measure_frame now f =
     (let n = fr_count f + 1; elapsed = now - fr_last f in
      if elapsed \<ge> 1000 then \<lparr>fr_count = 0, fr_last = now, fr_fps = js_round (real n * 1000 / elapsed)\<rparr>
      else f\<lparr>fr_count := n\<rparr>)"

section \<open>Labels and curves\<close>

lemma window_span:
  assumes "0 < bd_priceRange b"
  shows "maxPrice b vs off = minPrice b vs off + window_range b vs off"
  using window_range_eq [OF assms, of vs off] by (simp add: maxPrice_def minPrice_def)

lemma price_y_tick:
  assumes "0 < bd_priceRange (sc_bounds s)"
  shows "price_y s v (tick_price s v i) = margin_top + chartHeight (sc_panels s) * (1 - real i / 5)"
proof -
  define b vs off where "b = sc_bounds s" and "vs = v_verticalScale v" and "off = v_priceCenterOffset v"
  have r: "maxPrice b vs off - minPrice b vs off = window_range b vs off" "0 < window_range b vs off"
    using window_span [of b vs off] window_range_pos [of b vs off] assms by (simp_all add: b_def)
  then show ?thesis
    by (simp add: price_y_def priceToY_def tick_price_def Let_def flip: b_def vs_def off_def)
qed

text \<open>
  The labels of the price scale divide the chart into five equal parts: however it is zoomed and shifted, the lowest label
  is at the lower edge of the chart, the highest at the upper edge, and neighbours are a fifth of its height apart.
\<close>

theorem price_ticks_divide_chart:
  assumes "0 < bd_priceRange (sc_bounds s)"
  shows "price_y s v (tick_price s v 0) = margin_top + chartHeight (sc_panels s) \<and>
         price_y s v (tick_price s v 5) = margin_top \<and>
         price_y s v (tick_price s v i) - price_y s v (tick_price s v (Suc i)) = chartHeight (sc_panels s) / 5"
  by (simp add: price_y_tick [OF assms] field_simps)

lemma chartHeight_pos: "150 \<le> chartHeight p"
  by (simp add: chartHeight_def)

text \<open>
  The label of the last price is on the scale exactly while this price is inside the window of prices that the chart shows.
\<close>

theorem active_price_label_in_window:
  assumes "0 < bd_priceRange (sc_bounds s)"
  shows "active_price_label loc s v price \<noteq> [] \<longleftrightarrow>
         minPrice (sc_bounds s) (v_verticalScale v) (v_priceCenterOffset v) \<le> price \<and>
         price \<le> maxPrice (sc_bounds s) (v_verticalScale v) (v_priceCenterOffset v)"
proof -
  define b vs off where "b = sc_bounds s" and "vs = v_verticalScale v" and "off = v_priceCenterOffset v"
  define mn R ch where "mn = minPrice b vs off" and "R = window_range b vs off" and "ch = chartHeight (sc_panels s)"
  have R: "maxPrice b vs off = mn + R" "0 < R"
    using window_span [of b vs off] window_range_pos [of b vs off] assms by (simp_all add: b_def mn_def R_def)
  have ch: "0 < ch" using chartHeight_pos [of "sc_panels s"] by (simp add: ch_def)
  define q where "q = (price - mn) / R"
  have y: "price_y s v price = margin_top + ch * (1 - q)"
    by (simp add: price_y_def priceToY_def q_def b_def vs_def off_def mn_def R_def ch_def)
  have "ch * (1 - q) \<ge> 0 \<longleftrightarrow> q \<le> 1" "ch * (1 - q) \<le> ch \<longleftrightarrow> 0 \<le> q"
    using ch by (auto simp: zero_le_mult_iff mult_le_cancel_left1)
  moreover have "q \<le> 1 \<longleftrightarrow> price \<le> mn + R" "0 \<le> q \<longleftrightarrow> mn \<le> price"
    using R by (auto simp: q_def divide_le_eq zero_le_divide_iff)
  ultimately show ?thesis
    using R by (auto simp: active_price_label_def y Let_def simp flip: b_def vs_def off_def mn_def ch_def)
qed

lemma getCvdY_at:
  assumes "0 < zoomedCvdDeltaRange k r"
  shows "getCvdY k r (zoomedCvdMin k r + t * zoomedCvdDeltaRange k r) h = h * (9 / 10) - t * (h * (8 / 10))"
  using assms by (simp add: getCvdY_def field_simps)

lemma cvd_range_pos: "0 < snd (snd (cvd_range v pts))"
  by (auto simp: cvd_range_def split: option.splits)

lemma zoomedCvdDeltaRange_pos: "0 < zoomedCvdDeltaRange k (cvd_range v pts)"
  using cvd_range_pos [of v pts] by (simp add: zoomedCvdDeltaRange_def)

lemma zoomedCvd_ends:
  "zoomedCvdMax k r = zoomedCvdMin k r + 1 * zoomedCvdDeltaRange k r"
  "cvdCenterVal r = zoomedCvdMin k r + (1 / 2) * zoomedCvdDeltaRange k r"
  "zoomedCvdMin k r = zoomedCvdMin k r + 0 * zoomedCvdDeltaRange k r"
  by (simp_all add: zoomedCvdMax_def zoomedCvdMin_def cvdCenterVal_def)

text \<open>
  C27. The labels of the sub-panels are beside what they name: each value of the CVD scale is printed at the height where the line of
  the cumulative delta has this value, four pixels below for the text's baseline, and the largest delta of the
  delta scale at the end of the bar of a candle with that delta.
\<close>

theorem panel_labels_meet_curves:
  fixes k kd :: number and candles :: "candle list" and v :: view and p :: panels and c :: candle
    and r :: "number \<times> number \<times> number"
  assumes "50 \<le> pn_deltaPanelHeight p" "\<bar>c_delta c\<bar> = zoomedMaxCandleDelta kd candles"
  defines "r \<equiv> cvd_range v (cumulativeDeltaPoints v candles)"
    and "cvdY \<equiv> \<lambda>x. cvdTopY p + getCvdY k r x (pn_cvdPanelHeight p) + 4"
    and "bar \<equiv> delta_bar_height kd (pn_deltaPanelHeight p) candles c"
    and "mid \<equiv> deltaTopY p + pn_deltaPanelHeight p / 2"
  shows "cvd_labels p k r =
           (if pn_cvd p
            then [Label (''+'' @ K_text (zoomedCvdMax k r)) 8 (cvdY (zoomedCvdMax k r)),
                  Label (K_text (cvdCenterVal r)) 8 (cvdY (cvdCenterVal r)),
                  Label (K_text (zoomedCvdMin k r)) 8 (cvdY (zoomedCvdMin k r))]
            else []) \<and>
         delta_labels p kd candles =
           (if pn_delta p
            then [Label (''+'' @ K_text \<bar>c_delta c\<bar>) 8 (mid - bar + 4), Label ''0.0K'' 8 (mid + 4),
                  Label (''-'' @ K_text \<bar>c_delta c\<bar>) 8 (mid + bar + 4)]
            else [])"
proof -
  have pos: "0 < zoomedCvdDeltaRange k r" by (simp add: r_def zoomedCvdDeltaRange_pos)
  have h: "getCvdY k r (zoomedCvdMax k r) h = h * (1 / 10)" "getCvdY k r (cvdCenterVal r) h = h / 2"
    "getCvdY k r (zoomedCvdMin k r) h = h * (9 / 10)" for h
    using getCvdY_at [OF pos, of 1 h] getCvdY_at [OF pos, of "1 / 2" h] getCvdY_at [OF pos, of 0 h]
    unfolding zoomedCvd_ends(1) zoomedCvd_ends(2) [of r k] by simp_all
  have "0 < zoomedMaxCandleDelta kd candles"
    using scan_max_ge_init [of 1 "\<lambda>c. \<bar>c_delta c\<bar>" candles] by (simp add: zoomedMaxCandleDelta_def maxCandleDelta_def)
  then have "bar = pn_deltaPanelHeight p * (2 / 5)"
    using assms(1,2) by (simp add: bar_def delta_bar_height_def)
  then show ?thesis using assms(2) h by (auto simp: cvd_labels_def delta_labels_def Let_def cvdY_def mid_def)
qed

text \<open>
  The upper label of the CVD scale has two signs when the cumulative delta on the screen is negative: the plus is constant and
  the number brings its own minus.
\<close>

theorem negative_cvd_label_has_two_signs:
  assumes "pn_cvd p" "zoomedCvdMax k r < 0"
  shows "\<exists>t y rest. cvd_labels p k r = Label (''+-'' @ t) 8 y # rest"
  using assms by (simp add: cvd_labels_def Let_def K_text_def fixed_text_def)

section \<open>Crosshair\<close>

text \<open>
  The price beside the crosshair is the price at its height as long as it is over the chart, and below the chart, over the
  sub-panels, it is the lowest price of the window, whatever the height.
\<close>

theorem crosshair_label_reads_price:
  fixes en :: bool and cs :: jobj
  assumes "0 < bd_priceRange (sc_bounds s)" "hv_crosshair (handleSvgMouseMove s v en cs candles x y) = Some (x', y', price)"
  shows "y' = y \<and>
         (if y \<le> margin_top + chartHeight (sc_panels s) then price_y s v price = y
          else price = minPrice (sc_bounds s) (v_verticalScale v) (v_priceCenterOffset v))"
proof -
  let ?ch = "chartHeight (sc_panels s)"
  have ch: "1 \<le> ?ch" using chartHeight_pos [of "sc_panels s"] by simp
  have m: "y' = y" "margin_top \<le> y" "price = y_price s v (min (margin_top + ?ch) (max margin_top y))"
    using assms(2) by (auto simp: handleSvgMouseMove_def Let_def split: if_splits)
  then have p: "price = y_price s v (min (margin_top + ?ch) y)" by simp
  have "price_y s v (y_price s v z) = z" for z
    using price_axis.to_of [of "(sc_bounds s, v_verticalScale v, v_priceCenterOffset v, ?ch)" z] assms(1) ch
    by (simp add: win_ok_def win_toY_def win_toPrice_def price_y_def y_price_def)
  moreover have "y_price s v (margin_top + ?ch) = minPrice (sc_bounds s) (v_verticalScale v) (v_priceCenterOffset v)"
    using ch by (simp add: y_price_def yToPrice_def max_def)
  ultimately show ?thesis using m(1) p by (auto simp: min_def)
qed

section \<open>The scales\<close>

definition scales_ok :: "scales \<Rightarrow> bool" where
  "scales_ok s \<longleftrightarrow> scale_ok (v_verticalScale (sl_view s)) \<and>
     1 / 100 \<le> sl_delta s \<and> sl_delta s \<le> 200 \<and> 1 / 100 \<le> sl_cvd s \<and> sl_cvd s \<le> 200"

lemma drag_panel_scale_start: "1 / 100 \<le> k \<Longrightarrow> k \<le> 200 \<Longrightarrow> drag_panel_scale k y y = k"
  by (simp add: drag_panel_scale_def)

lemma drag_price_scale_start: "scale_ok k \<Longrightarrow> drag_price_scale k y y v = v\<lparr>v_verticalScale := k\<rparr>"
  by (simp add: drag_price_scale_def scale_ok_def)

text \<open>
  A press on the scale drags the panel it is beside: at the height of the delta panel the delta scale, at the height of the CVD panel
  the CVD scale, over the chart the price scale, and only this one; and moving back to where the press was undoes
  the drag, however far the mouse has been.
\<close>

theorem scale_drag_acts_on_its_panel:
  assumes "press_scale p 0 clickY clientY s = Some d" "scales_ok s" "0 \<le> pn_deltaPanelHeight p"
  shows "(pn_delta p \<and> deltaTopY p \<le> clickY \<and> clickY < deltaTopY p + pn_deltaPanelHeight p \<longrightarrow>
            sl_view (move_scale d y s) = sl_view s \<and> sl_cvd (move_scale d y s) = sl_cvd s) \<and>
         (pn_cvd p \<and> cvdTopY p \<le> clickY \<longrightarrow>
            sl_view (move_scale d y s) = sl_view s \<and> sl_delta (move_scale d y s) = sl_delta s) \<and>
         (clickY < margin_top + chartHeight p \<longrightarrow>
            sl_delta (move_scale d y s) = sl_delta s \<and> sl_cvd (move_scale d y s) = sl_cvd s) \<and>
         move_scale d clientY (move_scale d y s) = s"
proof -
  have tops: "margin_top + chartHeight p \<le> deltaTopY p" "deltaTopY p \<le> cvdTopY p"
    "pn_delta p \<Longrightarrow> deltaTopY p + pn_deltaPanelHeight p \<le> cvdTopY p"
    using assms(3) by (simp_all add: deltaTopY_def cvdTopY_def panelGap_def)
  from assms(1) consider
      (delta) "d = Delta_drag clientY (sl_delta s)" "deltaTopY p \<le> clickY" "clickY < cvdTopY p"
    | (cvd) "d = Cvd_drag clientY (sl_cvd s)" "cvdTopY p \<le> clickY"
    | (price) "d = Price_drag clientY (v_verticalScale (sl_view s))"
        "\<not> (pn_delta p \<and> deltaTopY p \<le> clickY \<and> clickY < cvdTopY p)" "\<not> (pn_cvd p \<and> cvdTopY p \<le> clickY)"
    by (auto simp: press_scale_def split: if_splits)
  then show ?thesis
  proof cases
    case delta
    then show ?thesis using tops assms(2) by (auto simp: drag_panel_scale_start scales_ok_def)
  next
    case cvd
    then show ?thesis using tops assms(2) by (auto simp: drag_panel_scale_start scales_ok_def)
  next
    case price
    have "move_scale d clientY (move_scale d y s) = s"
      using assms(2) by (simp add: price(1) scales_ok_def drag_price_scale_def scale_ok_def)
    then show ?thesis using price tops by (auto simp: drag_price_scale_def)
  qed
qed

section \<open>Buttons of a panel\<close>

text \<open>
  The button "Hide Delta" does not hide: while the panel is on the chart and the identifiers of the indicators are distinct, the eye
  does what the bin does, it deactivates the indicator, and the visibility which the dialog keeps is not touched.
\<close>

theorem hiding_delta_removes_it:
  assumes "distinct (map ind_id (dg_indicators d))" "shown_on_chart [''delta''] (dg_indicators d)"
  shows "hide_delta d = remove_delta d \<and> \<not> shown_on_chart [''delta''] (dg_indicators (hide_delta d)) \<and>
         map ind_isVisible (dg_indicators (hide_delta d)) = map ind_isVisible (dg_indicators d)"
proof -
  let ?inds = "dg_indicators d"
  from assms(2) obtain i where i: "find (\<lambda>i. ind_id i \<in> set [''delta'']) ?inds = Some i" "ind_isActive i"
    by (auto simp: shown_on_chart_def split: option.splits)
  then have "i \<in> set ?inds" "ind_id i = ''delta''" by (auto simp: find_Some_iff)
  then have act: "ind_isActive j" if "j \<in> set ?inds" "ind_id j = ''delta''" for j
    using assms(1) i(2) that by (metis eq_key_imp_eq_value image_eqI distinct_map inj_onD)
  then have eq: "map_id ''delta'' (\<lambda>i. i\<lparr>ind_isActive := \<not> ind_isActive i\<rparr>) ?inds =
      map_id ''delta'' (\<lambda>i. i\<lparr>ind_isActive := False\<rparr>) ?inds"
    by (auto simp: map_id_def)
  define e where "e = map_id ''delta'' (\<lambda>i. i\<lparr>ind_isActive := False\<rparr>) ?inds"
  have "ind_id j = ''delta'' \<Longrightarrow> \<not> ind_isActive j" if "j \<in> set e" for j
    using that by (auto simp: e_def map_id_def split: if_splits)
  then have "\<not> shown_on_chart [''delta''] e"
    by (auto simp: shown_on_chart_def find_Some_iff split: option.splits)
  moreover have "map ind_isVisible e = map ind_isVisible ?inds" by (simp add: e_def map_id_def)
  moreover have "dg_indicators (open_effect (d\<lparr>dg_indicators := e\<rparr>)) = e" by (simp add: open_effect_def)
  ultimately show ?thesis
    unfolding hide_delta_def remove_delta_def onToggleIndicator_def onRemoveIndicator_def eq by (simp flip: e_def)
qed

section \<open>The tooltip\<close>

text \<open>
  The tooltip never covers the mouse and never leaves the canvas to the right: with the tool bar of 44 pixels to the left of the canvas,
  it lies beside the shape it describes, on the right side while there is room and else on the left, for every
  shape that is between the margins.
\<close>

theorem tooltip_beside_shape:
  fixes W h x y :: number
  assumes "0 < W" "margin_left \<le> x" "x \<le> W - margin_right"
  defines "left \<equiv> fst (tooltip_corner W h x y) - 44"
  shows "(left + tooltip_width < x \<or> x < left) \<and> left + tooltip_width \<le> W \<and>
         \<bar>left + tooltip_width / 2 - x\<bar> \<le> tooltip_width / 2 + 14"
  using assms(1-3) by (auto simp: left_def tooltip_corner_def tooltip_width_def margin_defs or_else_def)

section \<open>Frames per second\<close>

definition run_frames :: "number list \<Rightarrow> frames \<Rightarrow> frames" where
  "run_frames ts f = fold measure_frame ts f"

lemma run_frames_append: "run_frames (ts @ us) f = run_frames us (run_frames ts f)"
  by (simp add: run_frames_def)

definition frame_times :: "number \<Rightarrow> number \<Rightarrow> nat \<Rightarrow> number list" where
  "frame_times t d n = map (\<lambda>k. t + real (Suc k) * d) [0..<n]"

lemma frame_times_Suc: "frame_times t d (Suc n) = frame_times t d n @ [t + real (Suc n) * d]"
  by (simp add: frame_times_def)

text \<open>
  A regular rhythm is measured exactly: when animation frames come every \<open>d\<close> milliseconds, the counter shows the rounded
  \<open>1000 / d\<close> from the first full second on, and until then what it showed before.
\<close>

theorem regular_frames_are_measured:
  assumes "0 < d" "fr_count f = 0" "fr_last f = t"
  shows "fr_fps (run_frames (frame_times t d n) f) = (if 1000 \<le> real n * d then js_round (1000 / d) else fr_fps f)"
proof -
  let ?g = "\<lambda>n. run_frames (frame_times t d n) f"
  have "fr_last (?g n) = t + (real n - real (fr_count (?g n))) * d \<and>
      fr_fps (?g n) = (if 1000 \<le> real n * d then js_round (1000 / d) else fr_fps f) \<and>
      (real n * d < 1000 \<longrightarrow> fr_count (?g n) = n)" for n
  proof (induction n)
    case 0
    show ?case using assms by (simp add: run_frames_def frame_times_def)
  next
    case (Suc n)
    define g where "g = ?g n"
    define m where "m = fr_count g + 1"
    have IH: "fr_last g = t + (real n - real (fr_count g)) * d"
      "fr_fps g = (if 1000 \<le> real n * d then js_round (1000 / d) else fr_fps f)" "real n * d < 1000 \<longrightarrow> fr_count g = n"
      using Suc by (simp_all add: g_def)
    have step: "?g (Suc n) = measure_frame (t + real (Suc n) * d) g"
      by (simp add: frame_times_Suc run_frames_append g_def run_frames_def)
    have el: "t + real (Suc n) * d - fr_last g = real m * d" by (simp add: IH(1) m_def algebra_simps)
    have "0 < m" by (simp add: m_def)
    then have ratio: "real m * 1000 / (real m * d) = 1000 / d" using assms(1) by simp
    show ?case
    proof (cases "1000 \<le> real m * d")
      case True
      have "?g (Suc n) = \<lparr>fr_count = 0, fr_last = t + real (Suc n) * d, fr_fps = js_round (1000 / d)\<rparr>"
        using True ratio unfolding step measure_frame_def el Let_def m_def [symmetric] by simp
      moreover have "m \<le> Suc n \<or> 1000 \<le> real n * d" using IH(3) by (auto simp: m_def not_le)
      then have "1000 \<le> real (Suc n) * d"
        using True assms(1) mult_right_mono [of "real m" "real (Suc n)" d] by (auto simp: distrib_right)
      ultimately show ?thesis by simp
    next
      case False
      have "?g (Suc n) = g\<lparr>fr_count := m\<rparr>"
        using False unfolding step measure_frame_def el Let_def m_def [symmetric] by simp
      moreover have "1000 \<le> real n * d \<longleftrightarrow> 1000 \<le> real (Suc n) * d"
      proof (cases "1000 \<le> real n * d")
        case True
        then show ?thesis using assms(1) by (simp add: distrib_right)
      next
        case small: False
        then have "m = Suc n" using IH(3) by (simp add: m_def)
        then show ?thesis using small False by simp
      qed
      ultimately show ?thesis using IH by (auto simp: m_def algebra_simps)
    qed
  qed
  then show ?thesis by simp
qed

section \<open>Witnesses\<close>

lemma scene0_facts: "0 < bd_priceRange (sc_bounds scene0)" "chartHeight (sc_panels scene0) = 290"
  by (simp_all add: scene0_def chartHeight_def deltaHeightTotal_def cvdHeightTotal_def margin_defs)

theorem price_ticks_divide_chart_witness: "price_y scene0 view0 (tick_price scene0 view0 5) = 30"
  using price_ticks_divide_chart [OF scene0_facts(1), of view0 0] by (simp add: margin_defs)

theorem active_price_label_in_window_witness: "active_price_label (\<lambda>_ _. []) scene0 view0 10 \<noteq> []"
proof -
  have "minPrice (sc_bounds scene0) 1 0 = 0" "maxPrice (sc_bounds scene0) 1 0 = 29"
    by (simp_all add: scene0_def minPrice_def maxPrice_def priceCenter_def zoomedPriceRange_def max_def)
  then show ?thesis using active_price_label_in_window [OF scene0_facts(1)] by (simp add: view0_def)
qed

theorem panel_labels_meet_curves_witness:
  "delta_labels wit_panels 1 [candle0] =
   [Label (''+'' @ K_text \<bar>c_delta candle0\<bar>) 8 (deltaTopY wit_panels + 16), Label ''0.0K'' 8 (deltaTopY wit_panels + 64),
    Label (''-'' @ K_text \<bar>c_delta candle0\<bar>) 8 (deltaTopY wit_panels + 112)]"
proof -
  have z: "\<bar>c_delta candle0\<bar> = zoomedMaxCandleDelta 1 [candle0]"
    by (simp add: candle0_def maxCandleDelta_def zoomedMaxCandleDelta_def)
  have p: "pn_deltaPanelHeight wit_panels = 120" "pn_delta wit_panels" by (simp_all add: wit_panels_def)
  from z have "delta_bar_height 1 120 [candle0] candle0 = 48"
    using scan_max_ge_init [of 1 "\<lambda>c. \<bar>c_delta c\<bar>" "[candle0]"]
    by (simp add: delta_bar_height_def zoomedMaxCandleDelta_def maxCandleDelta_def)
  then show ?thesis using panel_labels_meet_curves [OF _ z, of wit_panels 1 view0] p by simp
qed

theorem negative_cvd_label_has_two_signs_witness:
  "\<exists>t y rest. cvd_labels wit_panels 1 (- 10, - 5, 5) = Label (''+-'' @ t) 8 y # rest"
  by (rule negative_cvd_label_has_two_signs)
    (simp_all add: wit_panels_def zoomedCvdMax_def cvdCenterVal_def zoomedCvdDeltaRange_def)

theorem crosshair_label_reads_price_witness:
  "price_y scene0 view0 (y_price scene0 view0 100) = 100"
proof -
  have "hv_crosshair (handleSvgMouseMove scene0 view0 False [] [] 200 100) = Some (200, 100, y_price scene0 view0 100)"
    using scene0_facts(2)
    by (simp add: handleSvgMouseMove_def Let_def totalSvgHeight_def margin_defs deltaHeightTotal_def cvdHeightTotal_def)
      (simp add: view0_def scene0_def or_else_def)
  from crosshair_label_reads_price [OF scene0_facts(1) this] show ?thesis by (simp add: scene0_facts(2) margin_defs)
qed

definition wit_scales :: scales where
  "wit_scales = \<lparr>sl_view = view0, sl_delta = 1, sl_cvd = 1\<rparr>"

theorem scale_drag_acts_on_its_panel_witness:
  "move_scale (Delta_drag 400 1) 400 (move_scale (Delta_drag 400 1) 900 wit_scales) = wit_scales"
proof -
  have "press_scale wit_panels 0 300 400 wit_scales = Some (Delta_drag 400 1)"
    by (simp add: press_scale_def wit_panels_def wit_scales_def deltaTopY_def cvdTopY_def chartHeight_def
        deltaHeightTotal_def cvdHeightTotal_def panelGap_def margin_defs max_def)
  from scale_drag_acts_on_its_panel [OF this] show ?thesis
    by (simp add: scales_ok_def wit_scales_def scale_ok_def view0_def wit_panels_def)
qed

theorem hiding_delta_removes_it_witness:
  "hide_delta (init_dialog wit_inds) = remove_delta (init_dialog wit_inds)"
  using hiding_delta_removes_it [of "init_dialog wit_inds"] by (simp add: wit_dialog shown_on_chart_def)

theorem tooltip_beside_shape_witness: "fst (tooltip_corner 1000 500 900 20) - 44 + tooltip_width < 900"
  using tooltip_beside_shape [of 1000 900 500 20]
  by (simp add: margin_defs tooltip_corner_def tooltip_width_def or_else_def)

theorem regular_frames_are_measured_witness:
  "fr_fps (run_frames (frame_times 0 20 50) \<lparr>fr_count = 0, fr_last = 0, fr_fps = 0\<rparr>) = 50"
  using regular_frames_are_measured [of 20 "\<lparr>fr_count = 0, fr_last = 0, fr_fps = 0\<rparr>" 0 50]
    js_round_int [of 50] by simp

end
