(* ===== verification/DomLadder.thy ===== *)
theory DomLadder
  imports DomTrading StorageLib
begin

text \<open>
  What \<open>frontend-chart/src/components/DOMSidebar.tsx\<close> shows of the order book: the rows of the price ladder with their
  bars and pending orders, the gauge of the fear and greed index, the timer that centers the ladder; and how the state of the
  simulator is saved and read again.

  The texts of numbers (\<open>show_num\<close>, \<open>parse_num\<close>) and of the list of orders (\<open>enc\<close>, \<open>dec\<close>) are arguments.
\<close>

section \<open>The ladder\<close>

record ladder_row =
  lr_price :: number
  lr_width :: number
  lr_opacity :: number
  lr_wall :: bool
  lr_selected :: bool
  lr_pending :: number

definition hasPendingLimit :: "side \<Rightarrow> number \<Rightarrow> limit_order list \<Rightarrow> limit_order list" where
  "hasPendingLimit sd price orders =
     filter (\<lambda>od. lo_side od = sd \<and> \<bar>lo_price od - price\<bar> < 1 / 1000) orders"

definition depthPercentage :: "order_book \<Rightarrow> order_book_row \<Rightarrow> number" where
  "depthPercentage ob r = (row_amount r / maxAmountInBook ob) * 100"

definition bgOpacity :: "order_book \<Rightarrow> order_book_row \<Rightarrow> number" where
  "bgOpacity ob r = 3 / 100 + (row_amount r / maxAmountInBook ob) powr (13 / 10) * (72 / 100)"

definition ladder_row_of :: "order_book \<Rightarrow> dom \<Rightarrow> side \<Rightarrow> order_book_row \<Rightarrow> ladder_row" where
  "ladder_row_of ob d sd r =
     \<lparr>lr_price = row_price r, lr_width = min 100 (depthPercentage ob r), lr_opacity = bgOpacity ob r,
      lr_wall = (row_amount r / maxAmountInBook ob > 45 / 100),
      lr_selected = (\<bar>limitPrice d - row_price r\<bar> < 1 / 100),
      lr_pending = sum_list (map lo_size (hasPendingLimit sd (row_price r) (d_limitOrders d)))\<rparr>"

text \<open>The rows above and below the row of the last price.\<close>

definition ask_ladder :: "order_book \<Rightarrow> dom \<Rightarrow> ladder_row list" where
  "ask_ladder ob d = map (ladder_row_of ob d Sell_side) (reversedAsks ob)"

definition bid_ladder :: "order_book \<Rightarrow> dom \<Rightarrow> ladder_row list" where
  "bid_ladder ob d = map (ladder_row_of ob d Buy_side) (slicedBids ob)"

text \<open>The badge of a row cancels the orders it counts, one after the other.\<close>

definition cancel_row :: "side \<Rightarrow> number \<Rightarrow> dom \<Rightarrow> dom" where
  "cancel_row sd price d = fold cancelLimitOrder (map lo_id (hasPendingLimit sd price (d_limitOrders d))) d"

section \<open>Centering\<close>

record centering =
  ce_lastInteraction :: number
  ce_autoCentering :: bool
  ce_scrollTop :: number

definition ladder_scrolled :: "number \<Rightarrow> centering \<Rightarrow> centering" where
  "ladder_scrolled now c = (if ce_autoCentering c then c else c\<lparr>ce_lastInteraction := now\<rparr>)"

definition ladder_mouse_move :: "number \<Rightarrow> centering \<Rightarrow> centering" where
  "ladder_mouse_move now c = c\<lparr>ce_lastInteraction := now\<rparr>"

text \<open>Mounting, and a change of the pair or of the length of the book.\<close>

definition center_now :: "number \<Rightarrow> nat \<Rightarrow> number \<Rightarrow> number \<Rightarrow> centering \<Rightarrow> centering" where
  "center_now now asks clientHeight maxTop c =
     c\<lparr>ce_scrollTop := max 0 (min maxTop (scroll_midpoint asks clientHeight)), ce_lastInteraction := now\<rparr>"

text \<open>
  The timer of 200 milliseconds asks for a smooth scroll, whose end the browser clamps to the scrollable range; 600 milliseconds
  later the flag is reset.
\<close>

definition center_tick :: "number \<Rightarrow> nat \<Rightarrow> number \<Rightarrow> centering \<Rightarrow> centering \<times> number option" where
  "center_tick now asks clientHeight c =
     (case auto_center now (ce_lastInteraction c) asks clientHeight (ce_scrollTop c) of
        None \<Rightarrow> (c, None) | Some pos \<Rightarrow> (c\<lparr>ce_autoCentering := True\<rparr>, Some pos))"

definition smooth_scroll_end :: "number \<Rightarrow> number \<Rightarrow> centering \<Rightarrow> centering" where
  "smooth_scroll_end maxTop pos c = c\<lparr>ce_scrollTop := max 0 (min maxTop pos)\<rparr>"

definition centering_done :: "centering \<Rightarrow> centering" where
  "centering_done c = c\<lparr>ce_autoCentering := False\<rparr>"

section \<open>The gauge\<close>

definition gauge_rad :: "number \<Rightarrow> number" where
  "gauge_rad val = ((- 180 + (val / 100) * 180) * pi) / 180"

definition gauge_badge :: "number \<Rightarrow> number \<times> number" where
  "gauge_badge val = (75 + 55 * cos (gauge_rad val), 80 + 55 * sin (gauge_rad val))"

section \<open>Saving\<close>

definition save_simulator ::
  "codec \<Rightarrow> (number \<Rightarrow> string) \<Rightarrow> (limit_order list \<Rightarrow> json) \<Rightarrow> dom \<Rightarrow> local_storage \<Rightarrow> local_storage" where
  "save_simulator cd show_num enc d ls =
     storage_setJson cd ''procluster_limit_orders_v2'' (enc (d_limitOrders d))
       (storage_set ''procluster_entry_price_v2'' (show_num (d_entryPrice d))
         (storage_set ''procluster_position_v2'' (show_num (d_position d))
           (storage_set ''procluster_balance_v2'' (show_num (d_balance d)) ls)))"

text \<open>\<open>saved ? parseFloat(saved) : default\<close>, for a text that is a number.\<close>

definition saved_number :: "(string \<Rightarrow> number) \<Rightarrow> local_storage \<Rightarrow> string \<Rightarrow> number option" where
  "saved_number parse_num ls k = (if truthy_str (storage_get ls k) then Some (parse_num (the (storage_get ls k))) else None)"

definition load_simulator ::
  "codec \<Rightarrow> (string \<Rightarrow> number) \<Rightarrow> (json \<Rightarrow> limit_order list) \<Rightarrow> local_storage \<Rightarrow> number \<Rightarrow> dom" where
  "load_simulator cd parse_num dec ls price =
     dom_init (saved_number parse_num ls ''procluster_balance_v2'') (saved_number parse_num ls ''procluster_position_v2'')
       (saved_number parse_num ls ''procluster_entry_price_v2'')
       (dec (storage_getJson cd ls ''procluster_limit_orders_v2'' (JArr []))) price"

section \<open>Properties of the ladder\<close>

lemma maxAmountInBook_ge:
  "r \<in> set (ob_bids ob) \<union> set (ob_asks ob) \<Longrightarrow> row_amount r \<le> maxAmountInBook ob" "1 \<le> maxAmountInBook ob"
  unfolding maxAmountInBook_def by (auto intro!: Max_ge)

lemma ladder_rows_in_book:
  "set (reversedAsks ob) \<subseteq> set (ob_asks ob)" "set (slicedBids ob) \<subseteq> set (ob_bids ob)"
  by (auto simp: reversedAsks_def slicedBids_def dest: in_set_takeD)

lemma sorted_wrt_take: "sorted_wrt P xs \<Longrightarrow> sorted_wrt P (take n xs)"
  by (metis append_take_drop_id sorted_wrt_append)

text \<open>
  The ladder goes from high to low: for a book with ascending asks, descending bids and the best ask above the best bid, the prices of
  all rows from top to bottom descend strictly; the best ask is the last row above the row of the last price, and the best
  bid the first one below.
\<close>

theorem ladder_descends:
  assumes "sorted_wrt (\<lambda>r q. row_price r < row_price q) (ob_asks ob)"
    "sorted_wrt (\<lambda>r q. row_price q < row_price r) (ob_bids ob)"
    "ob_asks ob \<noteq> []" "ob_bids ob \<noteq> []" "row_price (hd (ob_bids ob)) < row_price (hd (ob_asks ob))"
  shows "sorted_wrt (\<lambda>r q. lr_price q < lr_price r) (ask_ladder ob d @ bid_ladder ob d) \<and>
         lr_price (last (ask_ladder ob d)) = row_price (hd (ob_asks ob)) \<and>
         lr_price (hd (bid_ladder ob d)) = row_price (hd (ob_bids ob)) \<and>
         length (ask_ladder ob d @ bid_ladder ob d) \<le> 400"
proof (intro conjI)
  obtain a as b bs where ab: "ob_asks ob = a # as" "ob_bids ob = b # bs" using assms(3,4) by (meson neq_Nil_conv)
  have a: "row_price a \<le> row_price r" if "r \<in> set (ob_asks ob)" for r using that assms(1) ab by auto
  have b: "row_price r \<le> row_price b" if "r \<in> set (ob_bids ob)" for r using that assms(2) ab by auto
  have "sorted_wrt (\<lambda>r q. row_price q < row_price r) (reversedAsks ob)"
    using sorted_wrt_take [OF assms(1)] by (simp add: reversedAsks_def sorted_wrt_rev)
  moreover have "sorted_wrt (\<lambda>r q. row_price q < row_price r) (slicedBids ob)"
    using sorted_wrt_take [OF assms(2)] by (simp add: slicedBids_def)
  moreover have "row_price q < row_price r" if "r \<in> set (reversedAsks ob)" "q \<in> set (slicedBids ob)" for r q
    using a [of r] b [of q] that ladder_rows_in_book [of ob] assms(5) ab by fastforce
  ultimately show "sorted_wrt (\<lambda>r q. lr_price q < lr_price r) (ask_ladder ob d @ bid_ladder ob d)"
    by (simp add: ask_ladder_def bid_ladder_def sorted_wrt_append sorted_wrt_map ladder_row_of_def)
  show "lr_price (last (ask_ladder ob d)) = row_price (hd (ob_asks ob))"
    "lr_price (hd (bid_ladder ob d)) = row_price (hd (ob_bids ob))"
    by (simp_all add: ask_ladder_def bid_ladder_def reversedAsks_def slicedBids_def ab ladder_row_of_def)
  show "length (ask_ladder ob d @ bid_ladder ob d) \<le> 400"
    by (simp add: ask_ladder_def bid_ladder_def reversedAsks_def slicedBids_def)
qed

text \<open>
  The bars are to scale: for amounts that are not negative, the width of a bar is between 0 and 100 percent and its opacity
  between 0.03 and 0.75, the row with the larger amount has the wider and the denser bar on both sides of the book, and widths
  are proportional to amounts.
\<close>

theorem ladder_bars_to_scale:
  fixes ob :: order_book and d :: dom and sd sd' :: side and r q :: order_book_row
  assumes "r \<in> set (ob_bids ob) \<union> set (ob_asks ob)" "q \<in> set (ob_bids ob) \<union> set (ob_asks ob)"
    "0 \<le> row_amount r" "row_amount r \<le> row_amount q"
  defines "x \<equiv> ladder_row_of ob d sd r" and "y \<equiv> ladder_row_of ob d sd' q"
  shows "0 \<le> lr_width x \<and> lr_width x \<le> lr_width y \<and> lr_width y \<le> 100 \<and>
         3 / 100 \<le> lr_opacity x \<and> lr_opacity x \<le> lr_opacity y \<and> lr_opacity y \<le> 75 / 100 \<and>
         lr_width x * row_amount q = lr_width y * row_amount r"
proof -
  define m where "m = maxAmountInBook ob"
  define s t where "s = row_amount r / m" and "t = row_amount q / m"
  have m: "1 \<le> m" "row_amount q \<le> m" using maxAmountInBook_ge(1) [of q ob] maxAmountInBook_ge(2) [of ob] assms(2) by (simp_all add: m_def)
  have st: "0 \<le> s" "s \<le> t" "t \<le> 1"
    using m assms(3,4) by (simp_all add: s_def t_def divide_right_mono divide_le_eq)
  have w: "lr_width x = s * 100" "lr_width y = t * 100"
    using st unfolding x_def y_def ladder_row_of_def depthPercentage_def m_def [symmetric] s_def [symmetric] t_def [symmetric]
    by simp_all
  have op: "lr_opacity x = 3 / 100 + s powr (13 / 10) * (72 / 100)" "lr_opacity y = 3 / 100 + t powr (13 / 10) * (72 / 100)"
    by (simp_all add: x_def y_def ladder_row_of_def bgOpacity_def s_def t_def m_def)
  have p: "0 \<le> s powr (13 / 10)" "s powr (13 / 10) \<le> t powr (13 / 10)" "t powr (13 / 10) \<le> 1"
    using st by (simp_all add: powr_mono2 powr_le1)
  have "s * row_amount q = t * row_amount r" by (simp add: s_def t_def)
  then show ?thesis using st p unfolding w op by (simp add: mult_ac)
qed

text \<open>
  A click on a row of the ladder marks this row: the price it puts into the order form is rounded to two decimals, which moves it
  by at most half a cent, less than the distance that counts as selected, for every price with any number of decimals.
\<close>

theorem clicked_row_is_marked:
  "lr_selected (ladder_row_of ob (handleRowPriceClick (row_price r) d) sd r)"
  using toFixed_close [of 2 "row_price r"]
  by (simp add: ladder_row_of_def handleRowPriceClick_def limitPrice_def or_else_def abs_minus_commute)

section \<open>Cancelling by the badge\<close>

lemma cancel_orders: "d_limitOrders (cancelLimitOrder i d) = filter (\<lambda>od. lo_id od \<noteq> i) (d_limitOrders d)"
  by (auto simp: cancelLimitOrder_def find_None_iff filter_id_conv split: option.split)

lemma cancel_account:
  "account_of (cancelLimitOrder i d) = account_of d" "limitPrice (cancelLimitOrder i d) = limitPrice d"
  by (simp_all add: cancelLimitOrder_def account_of_def limitPrice_def split: option.split)

lemma cancel_each_orders:
  "d_limitOrders (fold cancelLimitOrder is d) = filter (\<lambda>od. lo_id od \<notin> set is) (d_limitOrders d)"
  by (induction "is" arbitrary: d) (auto simp: cancel_orders intro!: filter_cong)

lemma cancel_each_account: "account_of (fold cancelLimitOrder is d) = account_of d"
  by (induction "is" arbitrary: d) (simp_all add: cancel_account)

text \<open>
  C34. The badge of a row takes back the orders of this row and no others: the orders of the same side within a thousandth of its price are
  gone, all other orders stay in their order, the badge disappears, and balance, position and entry price are untouched,
  as long as the identifiers of the orders are distinct.
\<close>

theorem badge_cancels_its_row:
  assumes "distinct (map lo_id (d_limitOrders d))"
  shows "d_limitOrders (cancel_row sd (row_price r) d) =
           filter (\<lambda>od. \<not> (lo_side od = sd \<and> \<bar>lo_price od - row_price r\<bar> < 1 / 1000)) (d_limitOrders d) \<and>
         lr_pending (ladder_row_of ob (cancel_row sd (row_price r) d) sd r) = 0 \<and>
         account_of (cancel_row sd (row_price r) d) = account_of d"
proof (intro conjI)
  let ?P = "\<lambda>od. lo_side od = sd \<and> \<bar>lo_price od - row_price r\<bar> < 1 / 1000"
  have inj: "inj_on lo_id (set (d_limitOrders d))" using assms by (simp add: distinct_map)
  show eq: "d_limitOrders (cancel_row sd (row_price r) d) = filter (\<lambda>od. \<not> ?P od) (d_limitOrders d)"
    unfolding cancel_row_def cancel_each_orders hasPendingLimit_def
    by (rule filter_cong [OF refl]) (auto dest: inj_onD [OF inj])
  show "lr_pending (ladder_row_of ob (cancel_row sd (row_price r) d) sd r) = 0"
    by (simp add: ladder_row_of_def hasPendingLimit_def eq)
  show "account_of (cancel_row sd (row_price r) d) = account_of d"
    by (simp add: cancel_row_def cancel_each_account)
qed

section \<open>Centering\<close>

text \<open>
  An order book that does not fill its box never comes to rest: the middle lies above the top of the list, where no scroll position is,
  so that whenever the mouse has been away for a second every tick of the timer asks for the same smooth scroll,
  which ends where it began; the empty book, the initial one, does this in every box higher than 54 pixels.
\<close>

theorem short_ladder_never_settles:
  assumes "real (min 200 asks) * 18 + 27 < clientHeight / 2" "0 \<le> ce_scrollTop c" "0 \<le> maxTop"
    "1000 \<le> now - ce_lastInteraction c"
  shows "snd (center_tick now asks clientHeight c) = Some (scroll_midpoint asks clientHeight) \<and>
         ce_scrollTop (smooth_scroll_end maxTop (scroll_midpoint asks clientHeight) (fst (center_tick now asks clientHeight c))) = 0 \<and>
         ce_lastInteraction (ladder_scrolled now' (fst (center_tick now asks clientHeight c))) = ce_lastInteraction c"
proof -
  have mid: "scroll_midpoint asks clientHeight < - 5" using assms(1) by (simp add: scroll_midpoint_def)
  then have "auto_center now (ce_lastInteraction c) asks clientHeight (ce_scrollTop c) = Some (scroll_midpoint asks clientHeight)"
    using assms(2,4) by (simp add: auto_center_def Let_def)
  then show ?thesis using mid by (simp add: center_tick_def smooth_scroll_end_def ladder_scrolled_def)
qed

text \<open>
  A ladder that can be centered comes to rest: if the middle lies in the scrollable range, one tick after a second without the
  mouse scrolls there, and no later tick asks for another scroll.
\<close>

theorem long_ladder_settles:
  assumes "0 \<le> scroll_midpoint asks clientHeight" "scroll_midpoint asks clientHeight \<le> maxTop"
    "snd (center_tick now asks clientHeight c) = Some pos"
  shows "ce_scrollTop (smooth_scroll_end maxTop pos (fst (center_tick now asks clientHeight c))) =
           scroll_midpoint asks clientHeight \<and>
         snd (center_tick later asks clientHeight
                (centering_done (smooth_scroll_end maxTop pos (fst (center_tick now asks clientHeight c))))) = None"
proof -
  have "pos = scroll_midpoint asks clientHeight"
    using assms(3) by (auto simp: center_tick_def auto_center_def Let_def split: option.splits if_splits)
  then show ?thesis using assms(1,2)
    by (simp add: smooth_scroll_end_def centering_done_def center_tick_def auto_center_def Let_def)
qed

section \<open>The gauge\<close>

lemma gauge_rad_eq: "gauge_rad val = - (pi * (1 - val / 100))"
  by (simp add: gauge_rad_def field_simps)

text \<open>
  The badge of the gauge reads the index: it is on the arc for every index from 0 to 100, above its base line, and further to the right for
  the larger index.
\<close>

theorem gauge_reads_index:
  assumes "0 \<le> u" "u < w" "w \<le> 100"
  shows "(fst (gauge_badge u) - 75)\<^sup>2 + (snd (gauge_badge u) - 80)\<^sup>2 = 55\<^sup>2 \<and> snd (gauge_badge u) \<le> 80 \<and>
         fst (gauge_badge u) < fst (gauge_badge w)"
proof (intro conjI)
  let ?a = "\<lambda>val. pi * (1 - val / 100)"
  have r: "0 \<le> ?a val" "?a val \<le> pi" if "0 \<le> val" "val \<le> 100" for val
    using that mult_left_le [of "1 - val / 100" pi] by simp_all
  have "(55 * cos t)\<^sup>2 + (55 * sin t)\<^sup>2 = 55\<^sup>2 * ((cos t)\<^sup>2 + (sin t)\<^sup>2)" for t :: number
    unfolding power_mult_distrib distrib_left ..
  then show "(fst (gauge_badge u) - 75)\<^sup>2 + (snd (gauge_badge u) - 80)\<^sup>2 = 55\<^sup>2"
    by (simp add: gauge_badge_def del: sin_cos_squared_add)
  show "snd (gauge_badge u) \<le> 80"
    using r [of u] assms sin_ge_zero [of "?a u"] by (simp add: gauge_badge_def gauge_rad_eq)
  have "?a w < ?a u" using assms by simp
  then have "cos (?a u) < cos (?a w)" using r [of u] r [of w] assms by (intro cos_monotone_0_pi) simp_all
  then show "fst (gauge_badge u) < fst (gauge_badge w)" by (simp add: gauge_badge_def gauge_rad_eq)
qed

section \<open>Saving and loading\<close>

lemma writable_set [simp]: "writable (storage_set k v ls) = writable ls"
  by (intro ext) (auto simp: writable_def storage_set_def setItem_def)

text \<open>
  C40. The simulator survives a reload: if the browser stores what it is given and the texts of numbers and orders can be read back, the
  next visit begins with the balance, the position, the entry price and the orders of the last one.
\<close>

theorem simulator_survives_reload:
  fixes d :: dom and ls :: local_storage and cd :: codec and price :: number and parse_num :: "string \<Rightarrow> number"
    and show_num :: "number \<Rightarrow> string" and enc :: "limit_order list \<Rightarrow> json" and dec :: "json \<Rightarrow> limit_order list"
  assumes "\<And>x. x \<in> {d_balance d, d_position d, d_entryPrice d} \<Longrightarrow> parse_num (show_num x) = x \<and> show_num x \<noteq> []"
    "dec (enc (d_limitOrders d)) = d_limitOrders d"
    "json_stringify cd (enc (d_limitOrders d)) = Some raw" "json_parse cd raw = Some (enc (d_limitOrders d))"
    "\<And>k v. writable ls k v"
  defines "d' \<equiv> load_simulator cd parse_num dec (save_simulator cd show_num enc d ls) price"
  shows "account_of d' = account_of d \<and> d_limitOrders d' = d_limitOrders d"
proof -
  let ?ls = "save_simulator cd show_num enc d ls"
  have "saved_number parse_num ?ls ''procluster_balance_v2'' = Some (d_balance d)"
    "saved_number parse_num ?ls ''procluster_position_v2'' = Some (d_position d)"
    "saved_number parse_num ?ls ''procluster_entry_price_v2'' = Some (d_entryPrice d)"
    using assms(1,5)
    by (simp_all add: saved_number_def save_simulator_def storage_get_setJson_other ls.get_put_cases truthy_str_def)
  moreover have "storage_getJson cd ?ls ''procluster_limit_orders_v2'' (JArr []) = enc (d_limitOrders d)"
    using assms(3,4,5) unfolding save_simulator_def by (intro storage_getJson_setJson) simp_all
  ultimately show ?thesis
    using assms(2) by (simp add: d'_def load_simulator_def dom_init_def account_of_def)
qed

section \<open>Witnesses\<close>

definition wit_row :: "number \<Rightarrow> number \<Rightarrow> order_book_row" where
  "wit_row p a = \<lparr>row_price = p, row_amount = a, row_total = a, row_percentage = 100\<rparr>"

definition wit_book :: order_book where
  "wit_book = \<lparr>ob_bids = [wit_row 10 4, wit_row 9 2], ob_asks = [wit_row 11 1, wit_row 12 3]\<rparr>"

definition wit_simulator :: dom where
  "wit_simulator =
     dom_init None None None [\<lparr>lo_id = 1, lo_price = 10, lo_size = 2, lo_side = Buy_side, lo_symbol = []\<rparr>] 10"

lemmas wit_ladder = wit_book_def wit_row_def wit_simulator_def dom_init_def

theorem ladder_descends_witness: "lr_price (last (ask_ladder wit_book wit_simulator)) = 11"
  using ladder_descends [of wit_book wit_simulator] by (simp add: wit_book_def wit_row_def)

theorem ladder_bars_to_scale_witness:
  "lr_width (ladder_row_of wit_book wit_simulator Sell_side (wit_row 11 1)) * 4 =
   lr_width (ladder_row_of wit_book wit_simulator Buy_side (wit_row 10 4))"
  using ladder_bars_to_scale [of "wit_row 11 1" wit_book "wit_row 10 4" wit_simulator Sell_side Buy_side]
  by (simp add: wit_book_def wit_row_def)

theorem badge_cancels_its_row_witness: "d_limitOrders (cancel_row Buy_side 10 wit_simulator) = []"
  using badge_cancels_its_row [of wit_simulator Buy_side "wit_row 10 4"] by (simp add: wit_ladder)

definition wit_centering :: "number \<Rightarrow> centering" where
  "wit_centering pos = \<lparr>ce_lastInteraction = 0, ce_autoCentering = False, ce_scrollTop = pos\<rparr>"

theorem short_ladder_never_settles_witness:
  "snd (center_tick 1000 0 400 (wit_centering 0)) = Some (scroll_midpoint 0 400)"
  using short_ladder_never_settles [of 0 400 "wit_centering 0" 0 1000] by (simp add: wit_centering_def)

theorem long_ladder_settles_witness:
  "snd (center_tick 9000 200 400 (centering_done (smooth_scroll_end 7000 3422 (fst (center_tick 1000 200 400 (wit_centering 0))))))
   = None"
proof -
  have "snd (center_tick 1000 200 400 (wit_centering 0)) = Some 3422"
    by (simp add: center_tick_def auto_center_def wit_centering_def scroll_midpoint_def)
  then show ?thesis using long_ladder_settles [of 200 400 7000 1000 "wit_centering 0" 3422 9000]
    by (simp add: scroll_midpoint_def)
qed

theorem gauge_reads_index_witness: "fst (gauge_badge 0) < fst (gauge_badge 50)"
  using gauge_reads_index [of 0 50] by simp

theorem simulator_survives_reload_witness:
  "d_limitOrders
     (load_simulator \<lparr>json_stringify = \<lambda>_. Some [], json_parse = \<lambda>_. Some JNull\<rparr> (\<lambda>t. if t = ''0'' then 0 else 100000)
        (\<lambda>_. d_limitOrders wit_simulator)
        (save_simulator \<lparr>json_stringify = \<lambda>_. Some [], json_parse = \<lambda>_. Some JNull\<rparr> (\<lambda>x. if x = 0 then ''0'' else ''1'')
           (\<lambda>_. JNull) wit_simulator \<lparr>ls_items = Map.empty, ls_denied = False, ls_quota = \<lambda>_ _. False\<rparr>) 10) =
   d_limitOrders wit_simulator"
  by (rule conjunct2 [OF simulator_survives_reload]) (auto simp: wit_simulator_def dom_init_def writable_def)

end
