(* ===== verification/IndicatorForm.thy ===== *)
theory IndicatorForm
  imports IndicatorDialog FootprintPaint
begin

text \<open>
  The settings of an indicator in \<open>frontend-chart/src/components/IndicatorsModal.tsx\<close>: the inputs of the form for each
  indicator, the value each one shows for the settings of the draft and the value it writes, against the settings
  that \<open>components/ClusterChart.tsx\<close> reads.

  What the user enters is a check mark, or a text together with what \<open>parseFloat\<close> and \<open>parseInt\<close> make of it
  (\<open>None\<close> is \<open>NaN\<close>).
\<close>

section \<open>Inputs\<close>

datatype entry = Toggled bool | Typed "number option" "int option" string

fun checked_of :: "entry \<Rightarrow> bool" where
  "checked_of (Toggled b) = b" | "checked_of (Typed _ _ _) = False"

fun float_of :: "entry \<Rightarrow> number option" where
  "float_of (Typed x _ _) = x" | "float_of (Toggled _) = None"

fun int_of :: "entry \<Rightarrow> number option" where
  "int_of (Typed _ n _) = map_option of_int n" | "int_of (Toggled _) = None"

fun text_of :: "entry \<Rightarrow> string" where
  "text_of (Typed _ _ t) = t" | "text_of (Toggled _) = []"

text \<open>\<open>s.k ?? d\<close> and \<open>s.k || d\<close>.\<close>

definition nullish :: "jobj \<Rightarrow> string \<Rightarrow> json \<Rightarrow> json" where
  "nullish s k d = (case map_of s k of None \<Rightarrow> d | Some j \<Rightarrow> if j = JNull then d else j)"

definition falsy_or :: "jobj \<Rightarrow> string \<Rightarrow> json \<Rightarrow> json" where
  "falsy_or s k d = (case map_of s k of None \<Rightarrow> d | Some j \<Rightarrow> if truthy j then j else d)"

text \<open>A parsed number that is written as it is; \<open>NaN\<close> is \<open>null\<close>, as it is saved.\<close>

definition parsed :: "number option \<Rightarrow> json" where
  "parsed v = (case v of None \<Rightarrow> JNull | Some n \<Rightarrow> JNum n)"

record field =
  fd_key :: string
  fd_shown :: "jobj \<Rightarrow> json"
  fd_value :: "entry \<Rightarrow> json"

definition check_field :: "string \<Rightarrow> field" where
  "check_field k =
     \<lparr>fd_key = k, fd_shown = \<lambda>s. JBool (not_false (map_of s k)), fd_value = \<lambda>e. JBool (checked_of e)\<rparr>"

definition alert_field :: "string \<Rightarrow> field" where
  "alert_field k = \<lparr>fd_key = k, fd_shown = \<lambda>s. nullish s k (JBool False), fd_value = \<lambda>e. JBool (checked_of e)\<rparr>"

definition float_field :: "string \<Rightarrow> number \<Rightarrow> field" where
  "float_field k d =
     \<lparr>fd_key = k, fd_shown = \<lambda>s. nullish s k (JNum d), fd_value = \<lambda>e. JNum (volume_input (float_of e))\<rparr>"

definition int_field :: "string \<Rightarrow> number \<Rightarrow> field" where
  "int_field k d =
     \<lparr>fd_key = k, fd_shown = \<lambda>s. nullish s k (JNum d), fd_value = \<lambda>e. JNum (volume_input (int_of e))\<rparr>"

definition merge_field :: "string \<Rightarrow> field" where
  "merge_field k =
     \<lparr>fd_key = k, fd_shown = \<lambda>s. nullish s k (nullish s ''csMergeLevels'' (JNum 1)),
      fd_value = \<lambda>e. JNum (merge_input (int_of e))\<rparr>"

definition imbalance_field :: "string \<Rightarrow> field" where
  "imbalance_field k =
     \<lparr>fd_key = k, fd_shown = \<lambda>s. nullish s k (nullish s ''csImbalancePercent'' (JNum 60)),
      fd_value = \<lambda>e. JNum (imbalance_input (int_of e))\<rparr>"

definition min_delta_field :: "string \<Rightarrow> field" where
  "min_delta_field k =
     \<lparr>fd_key = k, fd_shown = \<lambda>s. nullish s k (JNum 0), fd_value = \<lambda>e. JNum (min_delta_input (float_of e))\<rparr>"

definition text_field :: "string \<Rightarrow> string \<Rightarrow> field" where
  "text_field k d = \<lparr>fd_key = k, fd_shown = \<lambda>s. nullish s k (JStr d), fd_value = \<lambda>e. JStr (text_of e)\<rparr>"

definition opacity_field :: "string \<Rightarrow> number \<Rightarrow> field" where
  "opacity_field k d = \<lparr>fd_key = k, fd_shown = \<lambda>s. nullish s k (JNum d), fd_value = \<lambda>e. parsed (float_of e)\<rparr>"

text \<open>Sliders, and the ratio, whose value goes unchecked into the settings.\<close>

definition int_slider :: "string \<Rightarrow> number \<Rightarrow> field" where
  "int_slider k d = \<lparr>fd_key = k, fd_shown = \<lambda>s. falsy_or s k (JNum d), fd_value = \<lambda>e. parsed (int_of e)\<rparr>"

definition float_slider :: "string \<Rightarrow> number \<Rightarrow> field" where
  "float_slider k d = \<lparr>fd_key = k, fd_shown = \<lambda>s. falsy_or s k (JNum d), fd_value = \<lambda>e. parsed (float_of e)\<rparr>"

definition height_slider :: field where
  "height_slider =
     \<lparr>fd_key = ''volumeOnChartMaxHeightPercent'', fd_shown = \<lambda>s. nullish s ''volumeOnChartMaxHeightPercent'' (JNum 20),
      fd_value = \<lambda>e. parsed (int_of e)\<rparr>"

section \<open>Forms\<close>

definition med_fields :: "field list" where
  "med_fields =
     [check_field ''csMedEnabled'', float_field ''csMedMinVolume'' 100, float_field ''csMedMaxVolume'' 500,
      int_field ''csMedMinSize'' 4, int_field ''csMedMaxSize'' 12, merge_field ''csMedMergeLevels'',
      imbalance_field ''csMedImbalancePercent'', min_delta_field ''csMedMinDelta'', text_field ''csMedLocation'' ''any'',
      text_field ''csMedShape'' ''circle'', text_field ''csMedColorAsk'' ''#10b981'', text_field ''csMedColorBid'' ''#ef4444'',
      opacity_field ''csMedOpacity'' (7 / 10), alert_field ''csMedTgAlert'']"

definition large_fields :: "field list" where
  "large_fields =
     [check_field ''csLargeEnabled'', float_field ''csLargeMinVolume'' 500,
      int_field ''csLargeMinSize'' 10, int_field ''csLargeMaxSize'' 20, merge_field ''csLargeMergeLevels'',
      imbalance_field ''csLargeImbalancePercent'', min_delta_field ''csLargeMinDelta'', text_field ''csLargeLocation'' ''any'',
      text_field ''csLargeShape'' ''rhombus'', text_field ''csLargeColorAsk'' ''#34d399'',
      text_field ''csLargeColorBid'' ''#f43f5e'', opacity_field ''csLargeOpacity'' (9 / 10), alert_field ''csLargeTgAlert'']"

definition volume_fields :: "string \<Rightarrow> field list" where
  "volume_fields i =
     [float_slider ''opacity'' (4 / 10)] @
     (if i = ''volumeOnChart'' then [height_slider, float_field ''volumeOnChartDeltaThreshold'' 500] else []) @
     [check_field ''showLabels'']"

definition form_fields :: "string \<Rightarrow> field list" where
  "form_fields i =
     (if i = ''clusterSearch'' then med_fields @ large_fields
      else if i \<in> {''volume'', ''volumeOnChart'', ''volumeProfile''} then volume_fields i
      else if i = ''delta'' then [int_slider ''sensitivity'' 5, check_field ''showLabels'']
      else if i = ''cvd'' then [int_slider ''smoothing'' 10]
      else if i = ''stackedImbalance'' then [float_slider ''ratio'' 3]
      else [])"

definition shown_form :: "string \<Rightarrow> jobj \<Rightarrow> (string \<times> json) list" where
  "shown_form i s = map (\<lambda>f. (fd_key f, fd_shown f s)) (form_fields i)"

text \<open>An input of the form of the selected indicator. A plan that locks the form only takes the mouse away from it.\<close>

definition form_input :: "string \<Rightarrow> entry \<Rightarrow> dialog \<Rightarrow> dialog" where
  "form_input k e d =
     (case selectedIndicator d of
        None \<Rightarrow> d
      | Some i \<Rightarrow>
          (case find (\<lambda>f. fd_key f = k) (form_fields (ind_id i)) of
             None \<Rightarrow> d | Some f \<Rightarrow> updateSettings [(k, fd_value f e)] d))"

section \<open>What the charts read\<close>

text \<open>The settings objects handed to both charts.\<close>

definition settings_of :: "string \<Rightarrow> indicator list \<Rightarrow> jobj" where
  "settings_of k inds = (case find (\<lambda>i. ind_id i = k) inds of None \<Rightarrow> [] | Some i \<Rightarrow> ind_settings i)"

text \<open>Threshold, height and opacity of the volume bars; the values are numbers whenever the form has written them.\<close>

definition voc_settings :: "jobj \<Rightarrow> json \<times> json \<times> json" where
  "voc_settings s =
     (nullish s ''volumeOnChartDeltaThreshold'' (JNum 500), nullish s ''volumeOnChartMaxHeightPercent'' (JNum 20),
      nullish s ''opacity'' (JNum (4 / 10)))"

text \<open>The values in force for the fields of the two filters, in the order of the form.\<close>

definition med_in_force :: "jobj \<Rightarrow> cs_match \<Rightarrow> json list" where
  "med_in_force s m =
     (let F = med_filter s; it = draw_item s (m\<lparr>cm_large := False\<rparr>) in
      [JBool (fs_enabled F), JNum (fs_minVolume F), JNum (the (fs_maxVolume F)), JNum (fs_minSize F), JNum (fs_maxSize F),
       JNum (of_int (fs_mergeLevels F)), JNum (fs_imbalancePercent F), JNum (fs_minDelta F), fs_location F,
       ci_shape it, fs_colorAsk F, fs_colorBid F, JNum (ci_opacity it)])"

definition large_in_force :: "jobj \<Rightarrow> cs_match \<Rightarrow> json list" where
  "large_in_force s m =
     (let F = large_filter s; it = draw_item s (m\<lparr>cm_large := True\<rparr>) in
      [JBool (fs_enabled F), JNum (fs_minVolume F), JNum (fs_minSize F), JNum (fs_maxSize F),
       JNum (of_int (fs_mergeLevels F)), JNum (fs_imbalancePercent F), JNum (fs_minDelta F), fs_location F,
       ci_shape it, fs_colorAsk F, fs_colorBid F, JNum (ci_opacity it)])"

section \<open>Settings of the right types\<close>

definition num_keys :: "string list" where
  "num_keys =
     [''csMedMinVolume'', ''csMedMaxVolume'', ''csMedMinSize'', ''csMedMaxSize'', ''csImbalancePercent'',
      ''csMedImbalancePercent'', ''csMedMinDelta'', ''csMedOpacity'', ''csLargeMinVolume'', ''csLargeMinSize'',
      ''csLargeMaxSize'', ''csLargeImbalancePercent'', ''csLargeMinDelta'', ''csLargeOpacity'']"

definition int_keys :: "string list" where
  "int_keys = [''csMergeLevels'', ''csMedMergeLevels'', ''csLargeMergeLevels'']"

definition text_keys :: "string list" where
  "text_keys = [''csMedLocation'', ''csMedShape'', ''csMedColorAsk'', ''csMedColorBid'',
      ''csLargeLocation'', ''csLargeShape'', ''csLargeColorAsk'', ''csLargeColorBid'']"

fun num_value :: "json option \<Rightarrow> bool" where
  "num_value None = True" | "num_value (Some (JNum n)) = True" | "num_value _ = False"

fun int_value :: "json option \<Rightarrow> bool" where
  "int_value None = True" | "int_value (Some (JNum n)) = (of_int \<lfloor>n\<rfloor> = n)" | "int_value _ = False"

fun text_value :: "json option \<Rightarrow> bool" where
  "text_value None = True" | "text_value (Some (JStr t)) = (t \<noteq> [])" | "text_value _ = False"

definition typed_settings :: "jobj \<Rightarrow> bool" where
  "typed_settings s \<longleftrightarrow>
     (\<forall>k \<in> set num_keys. num_value (map_of s k)) \<and> (\<forall>k \<in> set int_keys. int_value (map_of s k)) \<and>
     (\<forall>k \<in> set text_keys. text_value (map_of s k))"

text \<open>What the browser's inputs deliver: sliders a number, selections and colors a text that is not empty.\<close>

definition sound_entry :: "entry \<Rightarrow> bool" where
  "sound_entry e \<longleftrightarrow> (case e of Toggled _ \<Rightarrow> False | Typed x n t \<Rightarrow> x \<noteq> None \<and> t \<noteq> [])"

lemmas field_defs = check_field_def alert_field_def float_field_def int_field_def merge_field_def imbalance_field_def
  min_delta_field_def text_field_def opacity_field_def

lemma nullish_num: "num_value (map_of s k) \<Longrightarrow> nullish s k (JNum d) = JNum (num_or d (map_of s k))"
  by (cases "map_of s k" rule: num_value.cases) (auto simp: nullish_def num_or_def)

lemma nullish_int:
  "int_value (map_of s k) \<Longrightarrow> int_value (map_of s k') \<Longrightarrow>
   nullish s k (nullish s k' (JNum (of_int n))) = JNum (of_int \<lfloor>num_or (num_or (of_int n) (map_of s k')) (map_of s k)\<rfloor>)"
  by (cases "map_of s k" rule: int_value.cases; cases "map_of s k'" rule: int_value.cases)
    (auto simp: nullish_def num_or_def)

lemma nullish_text: "text_value (map_of s k) \<Longrightarrow> nullish s k (JStr d) = str_prop_or d (map_of s k)"
  by (cases "map_of s k" rule: text_value.cases) (auto simp: nullish_def str_prop_or_def)

section \<open>The form and the charts agree\<close>

lemma typed_num: "typed_settings s \<Longrightarrow> k \<in> set num_keys \<Longrightarrow> num_value (map_of s k)"
  and typed_int: "typed_settings s \<Longrightarrow> k \<in> set int_keys \<Longrightarrow> int_value (map_of s k)"
  and typed_text: "typed_settings s \<Longrightarrow> k \<in> set text_keys \<Longrightarrow> text_value (map_of s k)"
  by (simp_all add: typed_settings_def)

lemmas shown_simps = field_defs num_keys_def int_keys_def text_keys_def draw_item_def Let_def

lemma merge_levels:
  "typed_settings s \<Longrightarrow> k \<in> set int_keys \<Longrightarrow>
   nullish s k (nullish s ''csMergeLevels'' (JNum 1)) =
   JNum (of_int \<lfloor>num_or (num_or 1 (map_of s ''csMergeLevels'')) (map_of s k)\<rfloor>)"
  using nullish_int [of s k "''csMergeLevels''" 1] by (simp add: typed_int int_keys_def)

lemma med_shown:
  assumes "typed_settings s"
  shows "map (\<lambda>f. fd_shown f s) (butlast med_fields) = med_in_force s m"
  by (simp add: med_fields_def med_in_force_def med_filter_def shown_simps nullish_num [OF typed_num [OF assms]]
      nullish_text [OF typed_text [OF assms]] merge_levels [OF assms])

lemma large_shown:
  assumes "typed_settings s"
  shows "map (\<lambda>f. fd_shown f s) (butlast large_fields) = large_in_force s m"
  by (simp add: large_fields_def large_in_force_def large_filter_def shown_simps nullish_num [OF typed_num [OF assms]]
      nullish_text [OF typed_text [OF assms]] merge_levels [OF assms])

section \<open>Typing\<close>

definition check_keys :: "string list" where
  "check_keys = [''csMedEnabled'', ''csMedTgAlert'', ''csLargeEnabled'', ''csLargeTgAlert'']"

text \<open>An input of the cluster search form: its field is found by its key, and check marks are toggled.\<close>

definition cluster_input :: "string \<times> entry \<Rightarrow> jobj \<Rightarrow> jobj" where
  "cluster_input i s =
     (case find (\<lambda>f. fd_key f = fst i) (form_fields ''clusterSearch'') of
        None \<Rightarrow> s | Some f \<Rightarrow> spread s [(fst i, fd_value f (snd i))])"

definition sound_input :: "string \<times> entry \<Rightarrow> bool" where
  "sound_input i \<longleftrightarrow> (if fst i \<in> set check_keys then (\<exists>b. snd i = Toggled b) else sound_entry (snd i))"

lemma find_field:
  "find (\<lambda>f. fd_key f = k) fs = Some f \<Longrightarrow> f \<in> set fs \<and> fd_key f = k"
  by (auto simp: find_Some_iff)

lemma typed_update:
  assumes "typed_settings s" "k \<in> set num_keys \<Longrightarrow> num_value (Some v)" "k \<in> set int_keys \<Longrightarrow> int_value (Some v)"
    "k \<in> set text_keys \<Longrightarrow> text_value (Some v)"
  shows "typed_settings (spread s [(k, v)])"
  using assms by (simp add: typed_settings_def)

lemma int_volume: "\<exists>n. volume_input (int_of e) = of_int n \<and> merge_input (int_of e) = of_int (max 1 n)"
proof (cases e)
  case (Typed x n t)
  then show ?thesis by (cases n) (auto simp: volume_input_def merge_input_def or_nan_def or_else_def)
qed (auto simp: volume_input_def merge_input_def or_nan_def or_else_def)

definition value_typed :: "entry \<Rightarrow> field \<Rightarrow> bool" where
  "value_typed e f \<longleftrightarrow>
     fd_key f \<in> set check_keys \<or>
     (fd_key f \<in> set num_keys \<longrightarrow> num_value (Some (fd_value f e))) \<and>
     (fd_key f \<in> set int_keys \<longrightarrow> int_value (Some (fd_value f e))) \<and>
     (fd_key f \<in> set text_keys \<longrightarrow> text_value (Some (fd_value f e)))"

lemma field_values_typed:
  assumes "merge_input (int_of e) = of_int k" "float_of e = Some x" "text_of e \<noteq> []"
  shows "list_all (value_typed e) (med_fields @ large_fields)"
  using assms by (simp add: value_typed_def med_fields_def large_fields_def field_defs num_keys_def int_keys_def text_keys_def
        check_keys_def parsed_def)

lemma field_value_typed:
  assumes "f \<in> set (form_fields ''clusterSearch'')" "fd_key f \<notin> set check_keys" "sound_entry e"
  shows "(fd_key f \<in> set num_keys \<longrightarrow> num_value (Some (fd_value f e))) \<and>
         (fd_key f \<in> set int_keys \<longrightarrow> int_value (Some (fd_value f e))) \<and>
         (fd_key f \<in> set text_keys \<longrightarrow> text_value (Some (fd_value f e)))"
proof -
  from assms(3) obtain x where "float_of e = Some x" "text_of e \<noteq> []"
    by (auto simp: sound_entry_def split: entry.splits)
  moreover obtain k where "merge_input (int_of e) = of_int k" using int_volume by blast
  ultimately have "list_all (value_typed e) (med_fields @ large_fields)" by (intro field_values_typed)
  then have "value_typed e f" using assms(1) unfolding list_all_iff form_fields_def by simp
  then show ?thesis using assms(2) by (simp add: value_typed_def)
qed

lemma cluster_input_typed: "typed_settings s \<Longrightarrow> sound_input i \<Longrightarrow> typed_settings (cluster_input i s)"
proof (cases "find (\<lambda>f. fd_key f = fst i) (form_fields ''clusterSearch'')")
  case (Some f)
  assume s: "typed_settings s" and i: "sound_input i"
  note f = find_field [OF Some]
  show ?thesis
  proof (cases "fst i \<in> set check_keys")
    case True
    then have "fst i \<notin> set num_keys \<union> set int_keys \<union> set text_keys"
      by (auto simp: check_keys_def num_keys_def int_keys_def text_keys_def)
    then show ?thesis using s by (auto simp: cluster_input_def Some intro!: typed_update)
  next
    case False
    then show ?thesis using s i f field_value_typed [of f "snd i"]
      by (auto simp: cluster_input_def Some sound_input_def intro!: typed_update)
  qed
qed (simp add: cluster_input_def)


section \<open>Inputs are shown and applied\<close>

lemma form_keys_distinct: "distinct (map fd_key (form_fields ''clusterSearch''))"
  by (simp add: form_fields_def med_fields_def large_fields_def field_defs)

lemma find_unique: "distinct (map fd_key fs) \<Longrightarrow> f \<in> set fs \<Longrightarrow> find (\<lambda>g. fd_key g = fd_key f) fs = Some f"
  by (induction fs) auto

definition shows_own :: "entry \<Rightarrow> jobj \<Rightarrow> field \<Rightarrow> bool" where
  "shows_own e s f \<longleftrightarrow>
     (fd_key f \<notin> set check_keys \<longrightarrow> float_of e \<noteq> None) \<longrightarrow> fd_shown f (spread s [(fd_key f, fd_value f e)]) = fd_value f e"

definition ignores :: "string \<Rightarrow> json \<Rightarrow> jobj \<Rightarrow> field \<Rightarrow> bool" where
  "ignores k v s f \<longleftrightarrow> k \<noteq> fd_key f \<longrightarrow> fd_shown f (spread s [(k, v)]) = fd_shown f s"

lemma fields_show_own: "list_all (shows_own e s) (med_fields @ large_fields)"
  by (simp add: shows_own_def med_fields_def large_fields_def field_defs check_keys_def nullish_def not_false_def parsed_def
      split: option.split)

lemma nullish_spread [simp]: "k' \<noteq> k \<Longrightarrow> nullish (spread s [(k, v)]) k' d = nullish s k' d"
  by (simp add: nullish_def)

lemma fields_ignore:
  "k \<noteq> ''csMergeLevels'' \<Longrightarrow> k \<noteq> ''csImbalancePercent'' \<Longrightarrow> list_all (ignores k v s) (med_fields @ large_fields)"
  by (simp add: ignores_def med_fields_def large_fields_def field_defs not_false_def)

lemma form_keys_own: "list_all (\<lambda>f. fd_key f \<noteq> ''csMergeLevels'' \<and> fd_key f \<noteq> ''csImbalancePercent'') (med_fields @ large_fields)"
  by (simp add: med_fields_def large_fields_def field_defs)

text \<open>
  What is entered is shown: after an input in the form of the cluster search its field shows exactly the value that was written,
  and all other fields show what they showed before.
\<close>

theorem entered_value_is_shown:
  assumes "f \<in> set (form_fields ''clusterSearch'')" "sound_input (fd_key f, e)"
    "g \<in> set (form_fields ''clusterSearch'')" "fd_key g \<noteq> fd_key f"
  shows "fd_shown f (cluster_input (fd_key f, e) s) = fd_value f e \<and>
         fd_shown g (cluster_input (fd_key f, e) s) = fd_shown g s"
proof -
  have fields: "form_fields ''clusterSearch'' = med_fields @ large_fields" by (simp add: form_fields_def)
  have "cluster_input (fd_key f, e) s = spread s [(fd_key f, fd_value f e)]"
    using find_unique [OF form_keys_distinct assms(1)] by (simp add: cluster_input_def)
  moreover have "shows_own e s f" using fields_show_own [of e s] assms(1) unfolding fields list_all_iff by blast
  then have "fd_shown f (spread s [(fd_key f, fd_value f e)]) = fd_value f e"
    using assms(2) by (auto simp: shows_own_def sound_input_def sound_entry_def split: entry.splits if_splits)
  moreover have "fd_key f \<noteq> ''csMergeLevels'' \<and> fd_key f \<noteq> ''csImbalancePercent''"
    using form_keys_own assms(1) unfolding fields list_all_iff by blast
  then have "ignores (fd_key f) (fd_value f e) s g"
    using fields_ignore [of "fd_key f" "fd_value f e" s] assms(3) unfolding fields list_all_iff by blast
  then have "fd_shown g (spread s [(fd_key f, fd_value f e)]) = fd_shown g s"
    using assms(4) by (auto simp: ignores_def)
  ultimately show ?thesis by simp
qed

lemma selected_in_draft: "selectedIndicator d = Some i \<Longrightarrow> i \<in> set (dg_draft d)"
  by (auto simp: selectedIndicator_def js_nth_def find_Some_iff split: option.splits if_splits)

lemma settings_of_map_id:
  assumes "distinct (map ind_id inds)" "i \<in> set inds" "\<And>j. ind_id (f j) = ind_id j"
  shows "settings_of (ind_id i) (map_id (ind_id i) f inds) = ind_settings (f i)"
  using assms(1,2) by (induction inds) (auto simp: settings_of_def map_id_def assms(3))

text \<open>
  C17. The inputs reach the charts: an input in the form of the cluster search, applied with the button of the dialog, changes the settings
  handed to both charts exactly as the input says, and not before the button.
\<close>

theorem applied_input_reaches_charts:
  assumes "selectedIndicator d = Some i" "ind_id i = ''clusterSearch''" "distinct (map ind_id (dg_draft d))"
  shows "settings_of ''clusterSearch'' (dg_indicators (handleApply (form_input k e d))) = cluster_input (k, e) (ind_settings i) \<and>
         dg_indicators (form_input k e d) = dg_indicators d"
proof (cases "find (\<lambda>f. fd_key f = k) (form_fields ''clusterSearch'')")
  case None
  have "settings_of (ind_id i) (dg_draft d) = ind_settings i"
    using settings_of_map_id [OF assms(3) selected_in_draft [OF assms(1)], of "\<lambda>j. j"] by (simp add: map_id_def)
  then show ?thesis using None assms(1,2)
    by (simp add: form_input_def cluster_input_def handleApply_def open_effect_def close_dialog_def)
next
  case (Some f)
  let ?upd = "\<lambda>j. j\<lparr>ind_settings := spread (ind_settings j) [(k, fd_value f e)]\<rparr>"
  have "dg_draft (form_input k e d) = map_id (ind_id i) ?upd (dg_draft d)"
    "dg_indicators (form_input k e d) = dg_indicators d"
    using Some assms(1,2) by (simp_all add: form_input_def updateSettings_def map_draft_def)
  moreover have "settings_of (ind_id i) (map_id (ind_id i) ?upd (dg_draft d)) = ind_settings (?upd i)"
    by (rule settings_of_map_id [OF assms(3) selected_in_draft [OF assms(1)]]) simp
  ultimately show ?thesis using Some assms(2)
    by (simp add: cluster_input_def handleApply_def open_effect_def close_dialog_def)
qed

text \<open>
  The switches for alerts are dead: whatever is written to them, the marks that the charts draw and those the mouse finds stay the same;
  no code reads them and none creates an alert.
\<close>

theorem alert_switches_do_nothing:
  assumes "k \<in> {''csMedTgAlert'', ''csLargeTgAlert''}"
  shows "itemsToDraw (spread cs [(k, v)]) c = itemsToDraw cs c \<and> hover_matches (spread cs [(k, v)]) c = hover_matches cs c"
proof -
  have other: "map_of (spread cs [(k, v)]) k' = map_of cs k'" if "k' \<notin> {''csMedTgAlert'', ''csLargeTgAlert''}" for k'
    using assms that by (simp add: map_add_def) blast
  have "med_filter (spread cs [(k, v)]) = med_filter cs" "large_filter (spread cs [(k, v)]) = large_filter cs"
    "draw_item (spread cs [(k, v)]) = draw_item cs"
    by (simp_all add: med_filter_def large_filter_def draw_item_def other fun_eq_iff del: map_of_spread)
  then show ?thesis by (simp add: itemsToDraw_def hover_matches_def)
qed

text \<open>
  The form of the volume bars shows what the charts use, too, as long as the opacity is a positive number, which the slider
  guarantees: threshold, height and opacity of the bars are those of the form.
\<close>

theorem volume_form_shows_what_charts_use:
  assumes "num_value (map_of s ''opacity'')" "map_of s ''opacity'' \<noteq> Some (JNum 0)"
  shows "voc_settings s =
         (the (map_of (shown_form ''volumeOnChart'' s) ''volumeOnChartDeltaThreshold''),
          the (map_of (shown_form ''volumeOnChart'' s) ''volumeOnChartMaxHeightPercent''),
          the (map_of (shown_form ''volumeOnChart'' s) ''opacity''))"
proof -
  have "nullish s ''opacity'' d = falsy_or s ''opacity'' d" for d
    using assms by (cases "map_of s ''opacity''" rule: num_value.cases) (auto simp: nullish_def falsy_or_def)
  then show ?thesis
    by (simp add: voc_settings_def shown_form_def form_fields_def volume_fields_def float_slider_def height_slider_def
        float_field_def check_field_def)
qed

section \<open>Witnesses\<close>

lemma typed_empty: "typed_settings []"
  by (simp add: typed_settings_def)

lemma wit_sound: "sound_input (''csMedMinVolume'', Typed (Some 250) (Some 250) ''250'')"
  by (simp add: sound_input_def sound_entry_def check_keys_def)


theorem entered_value_is_shown_witness:
  "fd_shown (float_field ''csMedMinVolume'' 100) (cluster_input (''csMedMinVolume'', Typed (Some 250) (Some 250) ''250'') []) = JNum 250"
proof -
  have "float_field ''csMedMinVolume'' 100 \<in> set (form_fields ''clusterSearch'')"
    "check_field ''csMedEnabled'' \<in> set (form_fields ''clusterSearch'')"
    by (simp_all add: form_fields_def med_fields_def)
  from entered_value_is_shown [OF this(1) _ this(2), of "Typed (Some 250) (Some 250) ''250''" "[]"] show ?thesis
    using wit_sound by (simp add: float_field_def check_field_def volume_input_def or_nan_def or_else_def)
qed

definition wit_form :: dialog where
  "wit_form = (init_dialog [])\<lparr>dg_draft := [wit_ind ''clusterSearch'' True]\<rparr>"

theorem applied_input_reaches_charts_witness:
  "dg_indicators (form_input ''csMedTgAlert'' (Toggled True) wit_form) = []"
proof -
  have "selectedIndicator wit_form = Some (wit_ind ''clusterSearch'' True)"
    by (simp add: wit_form_def selectedIndicator_def init_dialog_def wit_ind_def)
  from applied_input_reaches_charts [OF this] show ?thesis by (simp add: wit_form_def wit_ind_def init_dialog_def)
qed

theorem alert_switches_do_nothing_witness:
  "itemsToDraw (spread [] [(''csMedTgAlert'', JBool True)]) candle1 = itemsToDraw [] candle1"
  using alert_switches_do_nothing [of "''csMedTgAlert''"] by blast

theorem volume_form_shows_what_charts_use_witness:
  "voc_settings [(''opacity'', JNum (1 / 2))] = (JNum 500, JNum 20, JNum (1 / 2))"
  using volume_form_shows_what_charts_use [of "[(''opacity'', JNum (1 / 2))]"]
  by (simp add: shown_form_def form_fields_def volume_fields_def float_slider_def height_slider_def float_field_def
      check_field_def nullish_def falsy_or_def)

end
