(* ===== verification/ChartFrame.thy ===== *)
theory ChartFrame
  imports IndicatorForm
begin

text \<open>
  What \<open>frontend-chart/src/components/ClusterChart.tsx\<close> paints around and over the candles: the canvas with the lines
  between its panels and the strip of the time axis, the colors of a candle, and the shapes of the cluster search, which
  \<open>indicators/clusterSearch.ts\<close> draws. It also has the two computations that the painting effect makes
  for each cell and candle and never uses: the old filter of the cluster search and the cell of the
  point of control.
\<close>

section \<open>Size of the canvas\<close>

text \<open>What the observer does with the size it measures: a height or width of at most 100 pixels is ignored.\<close>

definition observed :: "number \<Rightarrow> number \<Rightarrow> number \<Rightarrow> number" where
  "observed client content old = (let size = or_else client content in if size > 100 then size else old)"

definition initially_observed :: "number \<Rightarrow> number \<Rightarrow> number" where
  "initially_observed client old = (if client > 100 then client else old)"

definition resized :: "number \<times> number \<Rightarrow> number \<times> number \<Rightarrow> scene \<times> view \<Rightarrow> scene \<times> view" where
  "resized client content sv =
     ((fst sv)\<lparr>sc_panels := (sc_panels (fst sv))\<lparr>pn_containerHeight :=
         observed (snd client) (snd content) (pn_containerHeight (sc_panels (fst sv)))\<rparr>\<rparr>,
      (snd sv)\<lparr>v_clientWidth := observed (fst client) (fst content) (v_clientWidth (snd sv))\<rparr>)"

text \<open>The resolution of the canvas in device pixels.\<close>

definition canvas_size :: "number \<Rightarrow> panels \<Rightarrow> view \<Rightarrow> number \<times> number" where
  "canvas_size dpr p v = (let r = or_else dpr 1 in (viewportWidth v * r, totalSvgHeight p * r))"

definition background :: "panels \<Rightarrow> view \<Rightarrow> shape" where
  "background p v = Fill_rect 0 0 (viewportWidth v) (totalSvgHeight p) Plain"

section \<open>Lines between the panels\<close>

definition panel_lines :: "panels \<Rightarrow> view \<Rightarrow> nat \<Rightarrow> shape list" where
  "panel_lines p v n =
     (let w = scrollWidth n (v_candleWidth v) (v_clientWidth v); y = margin_top + chartHeight p;
          mid = deltaTopY p + pn_deltaPanelHeight p + panelGap / 2
      in (if pn_delta p \<or> pn_cvd p then [Line 0 y w y] else []) @
         (if pn_delta p \<and> pn_cvd p then [Line 0 mid w mid] else []))"

definition time_strip :: "panels \<Rightarrow> view \<Rightarrow> shape list" where
  "time_strip p v =
     (let y = totalSvgHeight p - margin_bottom
      in [Fill_rect 0 y (viewportWidth v) margin_bottom Plain, Line 0 y (viewportWidth v) y])"

section \<open>Colors of a candle\<close>

record candle_colors =
  cc_fill :: string
  cc_border :: string
  cc_wick :: string

definition bull_colors :: "bool \<Rightarrow> bool \<Rightarrow> candle_colors" where
  "bull_colors useAltPalette isLight =
     (if useAltPalette
      then \<lparr>cc_fill = (if isLight then ''#E3E3E3'' else ''#B6B2B2''), cc_border = (if isLight then ''#2F2F2F'' else ''#D5D5D5''),
            cc_wick = (if isLight then ''#2F2F2F'' else ''#9D9D9D'')\<rparr>
      else \<lparr>cc_fill = ''#10b981'', cc_border = ''#10b981'', cc_wick = ''#10b981''\<rparr>)"

definition bear_colors :: "bool \<Rightarrow> bool \<Rightarrow> candle_colors" where
  "bear_colors useAltPalette isLight =
     (if useAltPalette
      then \<lparr>cc_fill = (if isLight then ''#292929'' else ''#5E5E5E''), cc_border = (if isLight then ''#3A3A3A'' else ''#AEA7A7''),
            cc_wick = (if isLight then ''#3C3C3C'' else ''#7F7F7F'')\<rparr>
      else \<lparr>cc_fill = ''#f43f5e'', cc_border = ''#f43f5e'', cc_wick = ''#f43f5e''\<rparr>)"

definition candle_palette :: "string \<Rightarrow> bool \<Rightarrow> candle \<Rightarrow> candle_colors" where
  "candle_palette candlePalette isLight c =
     (let alt = (candlePalette = ''alternative'')
      in if c_close c \<ge> c_open c then bull_colors alt isLight else bear_colors alt isLight)"

section \<open>Shapes of the cluster search\<close>

text \<open>
  The path of a shape. An arc with a negative radius is an error of the canvas, which ends the painting
  effect (\<open>None\<close>); a rectangle may have negative sides; an unknown shape leaves the path empty.
\<close>

datatype path =
    No_path
  | Arc_path number number number
  | Rect_path number number number number
  | Poly_path "(number \<times> number) list"

definition drawShape :: "json \<Rightarrow> number \<Rightarrow> number \<Rightarrow> number \<Rightarrow> path option" where
  "drawShape kind x y r =
     (if kind = JStr ''circle'' then (if r < 0 then None else Some (Arc_path x y r))
      else if kind = JStr ''square'' then Some (Rect_path (x - r) (y - r) (r * 2) (r * 2))
      else if kind = JStr ''rhombus'' then Some (Poly_path [(x, y - r), (x + r, y), (x, y + r), (x - r, y)])
      else Some No_path)"

text \<open>The points a filled path covers; the inside of a convex polygon whose corners go round clockwise on the screen.\<close>

definition right_of :: "number \<Rightarrow> number \<Rightarrow> (number \<times> number) \<times> (number \<times> number) \<Rightarrow> bool" where
  "right_of px py e =
     (case e of ((x1, y1), (x2, y2)) \<Rightarrow> (x2 - x1) * (py - y1) - (y2 - y1) * (px - x1) > 0)"

fun covers :: "path \<Rightarrow> number \<Rightarrow> number \<Rightarrow> bool" where
  "covers No_path px py \<longleftrightarrow> False"
| "covers (Arc_path x y r) px py \<longleftrightarrow> pdist px py x y \<le> r"
| "covers (Rect_path x y w h) px py \<longleftrightarrow> min x (x + w) \<le> px \<and> px \<le> max x (x + w) \<and> min y (y + h) \<le> py \<and> py \<le> max y (y + h)"
| "covers (Poly_path ps) px py \<longleftrightarrow> list_all (right_of px py) (zip ps (rotate1 ps))"

definition item_path :: "scene \<Rightarrow> view \<Rightarrow> nat \<Rightarrow> cs_item \<Rightarrow> path option" where
  "item_path s v col i =
     (let c = shape_center s v col (ci_price i) in drawShape (ci_shape i) (fst c) (snd c) (ci_size i / 2))"

text \<open>\<open>itemsToDraw.forEach\<close>: the first error ends the loop and the effect.\<close>

fun paint_items :: "scene \<Rightarrow> view \<Rightarrow> nat \<Rightarrow> cs_item list \<Rightarrow> path list option" where
  "paint_items s v col [] = Some []"
| "paint_items s v col (i # is) =
     (case item_path s v col i of
        None \<Rightarrow> None
      | Some p \<Rightarrow> (case paint_items s v col is of None \<Rightarrow> None | Some ps \<Rightarrow> Some (p # ps)))"

definition paint_clusters :: "bool \<Rightarrow> scene \<Rightarrow> view \<Rightarrow> jobj \<Rightarrow> candle list \<Rightarrow> nat \<Rightarrow> path list option" where
  "paint_clusters enabled s v cs candles col =
     (if enabled then paint_items s v col (itemsToDraw cs (candles ! col)) else Some [])"

section \<open>Computed and not used\<close>

text \<open>
  The old filter of the cluster search, with the settings \<open>mode\<close>, \<open>direction\<close>, \<open>location\<close> and \<open>sensitivity\<close>. Its result
  \<open>matchesClusterSearch\<close> is read nowhere, so these four settings have no effect on the chart.
\<close>

definition old_settings :: "jobj option \<Rightarrow> jobj" where
  "old_settings cs =
     (case cs of
        Some s \<Rightarrow> s
      | None \<Rightarrow> [(''mode'', JStr ''Volume''), (''direction'', JStr ''Both''), (''location'', JStr ''Any''),
                 (''sensitivity'', JNum 4), (''useMinMax'', JBool False)])"

definition sensFactor :: "jobj \<Rightarrow> number" where
  "sensFactor cs = 1 - num_or 4 (map_of cs ''sensitivity'') * (6 / 100)"

definition isTargetMode :: "number \<Rightarrow> number \<Rightarrow> jobj \<Rightarrow> cell \<Rightarrow> bool" where
  "isTargetMode maxVol maxDelta cs c \<longleftrightarrow>
     (if map_of cs ''mode'' = Some (JStr ''Delta'')
      then \<bar>cell_ask c - cell_bid c\<bar> \<ge> maxDelta * sensFactor cs
      else cell_volume c \<ge> maxVol * sensFactor cs)"

definition isTargetDirection :: "jobj \<Rightarrow> cell \<Rightarrow> bool" where
  "isTargetDirection cs c \<longleftrightarrow>
     (if map_of cs ''direction'' = Some (JStr ''Buy'') then cell_ask c > cell_bid c
      else if map_of cs ''direction'' = Some (JStr ''Sell'') then cell_bid c > cell_ask c
      else True)"

definition isTargetLocation :: "jobj \<Rightarrow> candle \<Rightarrow> cell \<Rightarrow> bool" where
  "isTargetLocation cs k c \<longleftrightarrow>
     (let isGreenBody = c_close k \<ge> c_open k;
          highBody = (if isGreenBody then c_close k else c_open k);
          lowBody = (if isGreenBody then c_open k else c_close k)
      in if map_of cs ''location'' = Some (JStr ''Body'') then cell_price c \<le> highBody \<and> cell_price c \<ge> lowBody
         else if map_of cs ''location'' = Some (JStr ''Wick'') then cell_price c > highBody \<or> cell_price c < lowBody
         else True)"

definition matchesClusterSearch ::
  "bool \<Rightarrow> jobj option \<Rightarrow> candle list \<Rightarrow> candle \<Rightarrow> cell \<Rightarrow> bool" where
  "matchesClusterSearch enabled cs candles k c \<longleftrightarrow>
     enabled \<and> isTargetMode (maxCellVolume candles) (maxCellDelta candles) (old_settings cs) c \<and>
     isTargetDirection (old_settings cs) c \<and> isTargetLocation (old_settings cs) k c"

text \<open>The cell with the highest volume among the visible cells of a candle, or among all its cells.\<close>

definition largest_cell :: "cell list \<Rightarrow> cell" where
  "largest_cell cells = foldl (\<lambda>m c. if cell_volume c > cell_volume m then c else m) (hd cells) cells"

definition activePocCell :: "number \<Rightarrow> number \<Rightarrow> candle \<Rightarrow> cell option" where
  "activePocCell lo hi c =
     (let visible = filter (\<lambda>cl. cell_price cl \<ge> lo \<and> cell_price cl \<le> hi) (c_cells c)
      in if visible \<noteq> [] then Some (largest_cell visible)
         else if c_cells c \<noteq> [] then Some (largest_cell (c_cells c)) else None)"

definition activePocPrice :: "number \<Rightarrow> number \<Rightarrow> candle \<Rightarrow> number" where
  "activePocPrice lo hi c = (case activePocCell lo hi c of Some cl \<Rightarrow> cell_price cl | None \<Rightarrow> c_pocPrice c)"

section \<open>Lemmas\<close>

lemma item_path_None: "item_path s v col i = None \<longleftrightarrow> ci_shape i = JStr ''circle'' \<and> ci_size i < 0"
  by (simp add: item_path_def drawShape_def Let_def)

lemma paint_items_None: "paint_items s v col is = None \<longleftrightarrow> (\<exists>i \<in> set is. item_path s v col i = None)"
  by (induction "is") (auto split: option.splits)

lemma paint_items_Some: "paint_items s v col is = Some ps \<Longrightarrow> map Some ps = map (item_path s v col) is"
  by (induction "is" arbitrary: ps) (auto split: option.splits)

lemma pdist_bounds: "pdist px py x y \<le> r \<Longrightarrow> \<bar>px - x\<bar> \<le> r \<and> \<bar>py - y\<bar> \<le> r"
proof -
  have "\<bar>px - x\<bar> \<le> pdist px py x y" "\<bar>py - y\<bar> \<le> pdist px py x y"
    by (simp_all add: pdist_def real_le_rsqrt power2_eq_square)
  then show "pdist px py x y \<le> r \<Longrightarrow> \<bar>px - x\<bar> \<le> r \<and> \<bar>py - y\<bar> \<le> r" by linarith
qed

lemma rhombus_bounds:
  assumes "0 \<le> r" "covers (Poly_path [(x, y - r), (x + r, y), (x, y + r), (x - r, y)]) px py"
  shows "\<bar>px - x\<bar> \<le> r \<and> \<bar>py - y\<bar> \<le> r"
proof -
  have "0 < r * (py - (y - r) - (px - x))" "0 < r * (- (py - y) - (px - (x + r)))"
    "0 < r * (- (py - (y + r)) + (px - x))" "0 < r * (py - y + (px - (x - r)))"
    using assms(2) by (simp_all add: right_of_def algebra_simps)
  then show ?thesis using assms(1) by (simp add: zero_less_mult_iff) linarith
qed

text \<open>What a shape covers lies in the square around its center.\<close>

lemma shape_in_square:
  assumes "drawShape kind x y r = Some p" "covers p px py" "0 \<le> r"
  shows "\<bar>px - x\<bar> \<le> r \<and> \<bar>py - y\<bar> \<le> r"
proof -
  consider "p = Arc_path x y r" | "p = Rect_path (x - r) (y - r) (r * 2) (r * 2)"
    | "p = Poly_path [(x, y - r), (x + r, y), (x, y + r), (x - r, y)]" | "p = No_path"
    using assms(1) by (auto simp: drawShape_def split: if_splits)
  then show ?thesis
    using assms(2,3) pdist_bounds rhombus_bounds by cases (simp_all add: min_def max_def abs_le_iff)
qed

lemma square_in_reach:
  assumes "\<bar>px - x\<bar> \<le> r" "\<bar>py - y\<bar> \<le> r" "r \<le> 19"
  shows "pdist px py x y \<le> max 12 (r + 8)"
proof -
  have r: "0 \<le> r" using assms(1) by linarith
  have "(px - x)\<^sup>2 \<le> r\<^sup>2" "(py - y)\<^sup>2 \<le> r\<^sup>2" using assms(1,2) r abs_le_square_iff [of _ r] by simp_all
  moreover have "(r + 8)\<^sup>2 - (r\<^sup>2 + r\<^sup>2) = (19 - r) * (r + 3) + 7" by (simp add: power2_eq_square algebra_simps)
  moreover have "0 \<le> (19 - r) * (r + 3)" using r assms(3) by simp
  ultimately have "(px - x) * (px - x) + (py - y) * (py - y) \<le> (r + 8)\<^sup>2" by (simp add: power2_eq_square)
  then have "pdist px py x y \<le> r + 8" using r unfolding pdist_def by (intro real_le_lsqrt) simp_all
  then show ?thesis by simp
qed

lemma match_size_between:
  assumes "m \<in> set (hover_matches cs c)"
  defines "fs \<equiv> if cm_large m then large_filter cs else med_filter cs"
  shows "min (fs_minSize fs) (fs_maxSize fs) \<le> cm_size m \<and> cm_size m \<le> max (fs_minSize fs) (fs_maxSize fs)"
proof -
  obtain i ap where m: "m \<in> set (match_at ap (cm_large m) fs c (sort_desc cell_price (c_cells c)) i)"
    using match_of_filter [OF assms(1)] by (auto simp: fs_def)
  note ok = match_at_ok [OF this]
  define t where "t = (if fs_range fs > 0 then min 1 ((cm_sumVolume m - fs_minVolume fs) / fs_range fs) else 0)"
  have t: "0 \<le> t" "t \<le> 1" using ok by (simp_all add: t_def)
  have "cm_size m = (1 - t) * fs_minSize fs + t * fs_maxSize fs"
    using ok by (simp add: match_size_def Let_def t_def [symmetric] algebra_simps)
  moreover have "min a b \<le> (1 - t) * a + t * b \<and> (1 - t) * a + t * b \<le> max a b" for a b :: number
    using t mult_left_mono [of a b t] mult_left_mono [of b a t] mult_left_mono [of a b "1 - t"] mult_left_mono [of b a "1 - t"]
    by (cases "a \<le> b") (simp_all add: algebra_simps min_def max_def)
  ultimately show ?thesis by simp
qed

lemma paint_clusters_None:
  "paint_clusters True s v cs candles col = None \<longleftrightarrow>
   (\<exists>m \<in> set (hover_matches cs (candles ! col)). ci_shape (draw_item cs m) = JStr ''circle'' \<and> cm_size m < 0)"
  by (simp add: paint_clusters_def paint_items_None item_path_None draw_hover) (simp add: draw_item_def)

lemma foldl_largest:
  "foldl (\<lambda>m c. if cell_volume c > cell_volume m then c else m) a cells \<in> insert a (set cells) \<and>
   (\<forall>q \<in> insert a (set cells). cell_volume q \<le> cell_volume (foldl (\<lambda>m c. if cell_volume c > cell_volume m then c else m) a cells))"
proof (induction cells arbitrary: a)
  case (Cons c cells)
  show ?case using Cons [of "if cell_volume c > cell_volume a then c else a"] by (auto split: if_splits)
qed simp

lemma largest_cell_max:
  "cells \<noteq> [] \<Longrightarrow> largest_cell cells \<in> set cells \<and> (\<forall>q \<in> set cells. cell_volume q \<le> cell_volume (largest_cell cells))"
  using foldl_largest [of "hd cells" cells] by (auto simp: largest_cell_def)

lemma scan_cells_ge: "m \<le> foldl (\<lambda>m c. scan_max f m (c_cells c)) m candles"
proof (induction candles arbitrary: m)
  case (Cons c candles)
  show ?case using Cons [of "scan_max f m (c_cells c)"] scan_max_ge_init [of m f "c_cells c"] by simp
qed simp

lemma scale_maxima_positive: "1 \<le> maxCellVolume candles" "1 \<le> maxCellDelta candles"
  by (simp_all add: maxCellVolume_def maxCellDelta_def scan_cells_ge)

section \<open>Properties\<close>

text \<open>
  What is painted can be hovered: wherever the cursor is inside a shape that the cluster search paints for a column in
  reach, of whatever kind the shape is, the hover test finds a shape, as long as the sizes do
  not exceed 38 pixels.
\<close>

theorem painted_shape_is_hovered:
  fixes x y :: number and s :: scene and v :: view
  defines "colIdx \<equiv> \<lfloor>((x + v_visibleScrollLeft v) - margin_left) / (v_candleWidth v + spacing (v_candleWidth v))\<rfloor>"
  assumes "0 \<le> colIdx" "colIdx < int (length candles)" "\<bar>int col - colIdx\<bar> \<le> 1" "col < length candles"
    and i: "i \<in> set (itemsToDraw cs (candles ! col))" "0 \<le> ci_size i" "ci_size i \<le> 38"
    and p: "item_path s v col i = Some p" "covers p x y"
  shows "foundCS s v True cs candles x y \<noteq> None"
proof -
  obtain m where m: "m \<in> set (hover_matches cs (candles ! col))" "i = draw_item cs m" using i(1) by (auto simp: draw_hover)
  let ?c = "shape_center s v col (ci_price i)"
  have "\<bar>x - fst ?c\<bar> \<le> ci_size i / 2 \<and> \<bar>y - snd ?c\<bar> \<le> ci_size i / 2"
    using p i(2) by (intro shape_in_square) (simp_all add: item_path_def Let_def)
  then have "pdist x y (fst ?c) (snd ?c) \<le> max 12 (ci_size i / 2 + 8)" using i(3) by (intro square_in_reach) simp_all
  then have "hits_match s v x y col m" using m(2) by (simp add: hits_match_def Let_def draw_item_def)
  then show ?thesis using assms(2-5) m(1) unfolding colIdx_def by (intro hover_in_reach [of x v candles col m cs s])
qed

text \<open>
  Beyond that size it fails: the corner of a painted square of 40 pixels or more is outside the area that hovers it.
\<close>

theorem square_corner_not_hovered:
  fixes s :: scene and v :: view and col :: nat
  assumes "ci_shape (draw_item cs m) = JStr ''square''" and large: "40 \<le> cm_size m"
  defines "c \<equiv> shape_center s v col (cm_price m)" and "r \<equiv> cm_size m / 2"
  shows "\<exists>p. item_path s v col (draw_item cs m) = Some p \<and> covers p (fst c - r) (snd c - r) \<and>
             \<not> hits_match s v (fst c - r) (snd c - r) col m"
proof -
  have d: "ci_price (draw_item cs m) = cm_price m" "ci_size (draw_item cs m) = cm_size m" by (simp_all add: draw_item_def)
  have path: "item_path s v col (draw_item cs m) = Some (Rect_path (fst c - r) (snd c - r) (r * 2) (r * 2))"
    using assms(1) by (simp add: item_path_def drawShape_def Let_def d c_def r_def)
  have r20: "20 \<le> r" using large by (simp add: r_def)
  then have "0 \<le> (r - 20) * (r + 4)" by simp
  then have "(r + 8)\<^sup>2 < r * r + r * r" by (simp add: power2_eq_square algebra_simps)
  then have "r + 8 < sqrt (r * r + r * r)" using r20 by (intro real_less_rsqrt)
  then have "\<not> hits_match s v (fst c - r) (snd c - r) col m"
    using r20 by (simp add: hits_match_def Let_def pdist_def c_def [symmetric] r_def)
  then show ?thesis using path r20 by (auto simp: min_def max_def)
qed


text \<open>
  The lines lie between the panels: the first where the chart ends, the second strictly between the delta and the CVD panel, and
  the strip of the time axis starts exactly where the last panel ends.
\<close>

theorem panel_lines_between_panels:
  assumes "pn_delta p" "pn_cvd p"
  shows "\<exists>y1 y2 y3. panel_lines p v n = [Line 0 y1 (scrollWidth n (v_candleWidth v) (v_clientWidth v)) y1,
                                    Line 0 y2 (scrollWidth n (v_candleWidth v) (v_clientWidth v)) y2] \<and>
           time_strip p v = [Fill_rect 0 y3 (viewportWidth v) margin_bottom Plain, Line 0 y3 (viewportWidth v) y3] \<and>
           y1 = margin_top + chartHeight p \<and> y1 < deltaTopY p \<and>
           deltaTopY p + pn_deltaPanelHeight p < y2 \<and> y2 < cvdTopY p \<and>
           y3 = cvdTopY p + pn_cvdPanelHeight p"
  using assms
  by (auto simp: panel_lines_def time_strip_def Let_def totalSvgHeight_def deltaTopY_def cvdTopY_def panelGap_def
      deltaHeightTotal_def cvdHeightTotal_def)

text \<open>The observer never gives the chart a size of 100 pixels or less.\<close>

theorem resized_stays_large:
  assumes "100 < pn_containerHeight (sc_panels (fst sv))" "100 < v_clientWidth (snd sv)"
  shows "100 < pn_containerHeight (sc_panels (fst (resized client content sv))) \<and>
         100 < v_clientWidth (snd (resized client content sv)) \<and> 100 < viewportWidth (snd (resized client content sv))"
  using assms by (auto simp: resized_def observed_def viewportWidth_def or_else_def Let_def)

text \<open>In every palette and theme a rising and a falling candle differ in the color of the body, of the border and of the wick.\<close>

theorem candle_colors_tell_direction:
  assumes "c_open c \<le> c_close c" "c_close d < c_open d"
  shows "cc_fill (candle_palette pal isLight c) \<noteq> cc_fill (candle_palette pal isLight d) \<and>
         cc_border (candle_palette pal isLight c) \<noteq> cc_border (candle_palette pal isLight d) \<and>
         cc_wick (candle_palette pal isLight c) \<noteq> cc_wick (candle_palette pal isLight d)"
  using assms by (simp add: candle_palette_def bull_colors_def bear_colors_def Let_def)

text \<open>
  The old filter splits the cells by their location: with the location \<open>Any\<close> it selects a cell exactly when it selects it with
  one of \<open>Body\<close> and \<open>Wick\<close>, and never with both.
\<close>

definition at_location :: "string \<Rightarrow> jobj \<Rightarrow> jobj" where
  "at_location l cs = AList.update ''location'' (JStr l) cs"

theorem old_filter_splits_locations:
  "matchesClusterSearch en (Some (at_location ''Any'' cs)) candles k c \<longleftrightarrow>
   (matchesClusterSearch en (Some (at_location ''Body'' cs)) candles k c \<noteq>
    matchesClusterSearch en (Some (at_location ''Wick'' cs)) candles k c)"
  by (auto simp: matchesClusterSearch_def old_settings_def at_location_def isTargetMode_def isTargetDirection_def
      isTargetLocation_def sensFactor_def update_conv' Let_def)

text \<open>Raising the sensitivity of the old filter never loses a cell.\<close>

theorem old_filter_sensitivity_monotone:
  assumes "num_or 4 (map_of cs ''sensitivity'') \<le> t" "matchesClusterSearch en (Some cs) candles k c"
  shows "matchesClusterSearch en (Some (AList.update ''sensitivity'' (JNum t) cs)) candles k c"
proof -
  let ?cs = "AList.update ''sensitivity'' (JNum t) cs"
  have "sensFactor ?cs \<le> sensFactor cs" using assms(1) by (simp add: sensFactor_def num_or_def update_conv')
  then have "maxCellVolume candles * sensFactor ?cs \<le> maxCellVolume candles * sensFactor cs"
    "maxCellDelta candles * sensFactor ?cs \<le> maxCellDelta candles * sensFactor cs"
    using scale_maxima_positive [of candles] by (simp_all add: mult_left_mono)
  moreover have "map_of ?cs ''mode'' = map_of cs ''mode''" "isTargetDirection ?cs c = isTargetDirection cs c"
    "isTargetLocation ?cs k c = isTargetLocation cs k c"
    by (simp_all add: update_conv' isTargetDirection_def isTargetLocation_def)
  ultimately show ?thesis
    using assms(2) by (auto simp: matchesClusterSearch_def old_settings_def isTargetMode_def split: if_splits)
qed

text \<open>
  The cell of the point of control is a visible cell where there is one, otherwise a cell of the candle, and no cell that
  competes with it has more volume.
\<close>

theorem active_poc_is_largest:
  assumes "activePocCell lo hi c = Some p"
  defines "visible \<equiv> {q \<in> set (c_cells c). lo \<le> cell_price q \<and> cell_price q \<le> hi}"
  shows "p \<in> (if visible = {} then set (c_cells c) else visible) \<and>
         (\<forall>q \<in> (if visible = {} then set (c_cells c) else visible). cell_volume q \<le> cell_volume p)"
proof -
  let ?xs = "filter (\<lambda>cl. cell_price cl \<ge> lo \<and> cell_price cl \<le> hi) (c_cells c)"
  have s: "set ?xs = visible" by (auto simp: visible_def)
  then have e: "visible = {} \<longleftrightarrow> ?xs = []" by (metis set_empty)
  show ?thesis
  proof (cases "?xs = []")
    case True
    then have "c_cells c \<noteq> []" "p = largest_cell (c_cells c)"
      using assms(1) by (simp_all add: activePocCell_def Let_def split: if_splits)
    then show ?thesis using largest_cell_max [of "c_cells c"] True e by simp
  next
    case False
    then have "p = largest_cell ?xs" using assms(1) by (simp add: activePocCell_def Let_def)
    moreover have "visible \<noteq> {}" using False e by simp
    ultimately show ?thesis using largest_cell_max [OF False] unfolding s by simp
  qed
qed

text \<open>
  The form of the settings lets this happen: it takes any whole number as a size, so that after two negative sizes have been entered for
  the medium filter with its circles, the painting ends at the first candle with a medium match.
\<close>

theorem entered_negative_sizes_end_painting:
  fixes fa fb :: "number option" and a b :: int and ta tb :: string
  assumes neg: "a < 0" "b < 0" and circle: "str_prop_or ''circle'' (map_of cs ''csMedShape'') = JStr ''circle''"
  defines "cs' \<equiv> cluster_input (''csMedMaxSize'', Typed fb (Some b) tb) (cluster_input (''csMedMinSize'', Typed fa (Some a) ta) cs)"
  assumes m: "m \<in> set (hover_matches cs' (candles ! col))" "\<not> cm_large m"
  shows "paint_clusters True s v cs' candles col = None"
proof -
  have "cs' = spread (spread cs [(''csMedMinSize'', JNum (of_int a))]) [(''csMedMaxSize'', JNum (of_int b))]"
    using neg by (simp add: cs'_def cluster_input_def form_fields_def med_fields_def field_defs volume_input_def or_nan_def or_else_def)
  then have k: "map_of cs' ''csMedMinSize'' = Some (JNum (of_int a))" "map_of cs' ''csMedMaxSize'' = Some (JNum (of_int b))"
    "map_of cs' ''csMedShape'' = map_of cs ''csMedShape''"
    by (simp_all add: map_of_spread)
  then have "fs_minSize (med_filter cs') = of_int a" "fs_maxSize (med_filter cs') = of_int b"
    by (simp_all add: med_filter_def num_or_def Let_def)
  then have "cm_size m < 0" using match_size_between [OF m(1)] m(2) neg by auto
  moreover have "ci_shape (draw_item cs' m) = JStr ''circle''" using circle k m(2) by (simp add: draw_item_def)
  ultimately show ?thesis using m(1) paint_clusters_None by blast
qed

section \<open>Witnesses\<close>

lemma match1_item: "draw_item [] match1 \<in> set (itemsToDraw [] candle1)" "ci_price (draw_item [] match1) = 5"
  "ci_size (draw_item [] match1) = 6" "ci_shape (draw_item [] match1) = JStr ''circle''"
  by (simp_all add: draw_hover matches1) (simp_all add: draw_item_def match1_def str_prop_or_def)

theorem painted_shape_is_hovered_witness: "foundCS scene0 view0 True [] [candle1] 86 271 \<noteq> None"
proof -
  have "shape_center scene0 view0 0 5 = (85, 270)"
    by (simp add: shape_center_def column_x_def margin_defs) (simp add: view0_def)
  then have "item_path scene0 view0 0 (draw_item [] match1) = Some (Arc_path 85 270 3)"
    by (simp add: item_path_def drawShape_def match1_item Let_def)
  moreover have "covers (Arc_path 85 270 3) 86 271"
    by (simp add: pdist_def) (rule real_le_lsqrt, simp_all)
  moreover have "\<lfloor>((86 + v_visibleScrollLeft view0) - margin_left) / (v_candleWidth view0 + spacing (v_candleWidth view0))\<rfloor> = 0"
    by (simp add: view0_def margin_defs floor_eq_iff)
  ultimately show ?thesis
    using painted_shape_is_hovered [of 86 view0 "[candle1]" 0 "draw_item [] match1" "[]" scene0 "Arc_path 85 270 3" 271] match1_item
    by simp
qed

theorem square_corner_not_hovered_witness:
  "\<not> hits_match scene0 view0 65 250 0 (match1\<lparr>cm_size := 40\<rparr>)"
proof -
  have c: "shape_center scene0 view0 0 5 = (85, 270)"
    by (simp add: shape_center_def column_x_def margin_defs) (simp add: view0_def)
  have "ci_shape (draw_item [(''csMedShape'', JStr ''square'')] (match1\<lparr>cm_size := 40\<rparr>)) = JStr ''square''"
    by (simp add: draw_item_def match1_def str_prop_or_def)
  from square_corner_not_hovered [OF this, of scene0 view0 0] show ?thesis by (auto simp: match1_def c)
qed


theorem panel_lines_between_panels_witness:
  "\<exists>y1 y2 y3. panel_lines \<lparr>pn_containerHeight = 800, pn_delta = True, pn_cvd = True, pn_deltaPanelHeight = 120,
       pn_cvdPanelHeight = 120\<rparr> view0 1 = [Line 0 y1 (scrollWidth 1 50 (v_clientWidth view0)) y1,
                                           Line 0 y2 (scrollWidth 1 50 (v_clientWidth view0)) y2] \<and> y1 < y2 \<and> y2 < y3"
  using panel_lines_between_panels [of "\<lparr>pn_containerHeight = 800, pn_delta = True, pn_cvd = True, pn_deltaPanelHeight = 120,
       pn_cvdPanelHeight = 120\<rparr>" view0 1]
  by (auto simp: view0_def deltaTopY_def cvdTopY_def)

theorem resized_stays_large_witness:
  "100 < v_clientWidth (snd (resized (90, 0) (0, 0) (scene0\<lparr>sc_panels := (sc_panels scene0)\<lparr>pn_containerHeight := 550\<rparr>\<rparr>,
     view0\<lparr>v_clientWidth := 800\<rparr>)))"
  using resized_stays_large [of "(scene0\<lparr>sc_panels := (sc_panels scene0)\<lparr>pn_containerHeight := 550\<rparr>\<rparr>, view0\<lparr>v_clientWidth := 800\<rparr>)"
    "(90, 0)" "(0, 0)"] by simp

theorem candle_colors_tell_direction_witness:
  "cc_fill (candle_palette ''alternative'' True candle0) \<noteq>
   cc_fill (candle_palette ''alternative'' True (candle0\<lparr>c_close := 4\<rparr>))"
  using candle_colors_tell_direction [of candle0 "candle0\<lparr>c_close := 4\<rparr>" "''alternative''" True] by (simp add: candle0_def)

theorem old_filter_sensitivity_monotone_witness:
  "matchesClusterSearch True (Some (AList.update ''sensitivity'' (JNum 10) [])) [candle1] candle1 (cell_at 5 200)"
proof -
  have "maxCellVolume [candle1] = 200" by (simp add: maxCellVolume_def candle1_def cell_at_def)
  then have "matchesClusterSearch True (Some []) [candle1] candle1 (cell_at 5 200)"
    by (simp add: matchesClusterSearch_def old_settings_def isTargetMode_def isTargetDirection_def isTargetLocation_def
        sensFactor_def num_or_def cell_at_def Let_def)
  then show ?thesis by (intro old_filter_sensitivity_monotone) (simp_all add: num_or_def)
qed

theorem active_poc_is_largest_witness: "activePocCell 0 10 candle0 = Some (cell_at 5 3) \<and> 1 \<le> cell_volume (cell_at 5 3)"
proof -
  have p: "activePocCell 0 10 candle0 = Some (cell_at 5 3)"
    by (simp add: activePocCell_def candle0_def cell_at_def largest_cell_def Let_def)
  have "{q \<in> set (c_cells candle0). 0 \<le> cell_price q \<and> cell_price q \<le> 10} = {cell_at 6 1, cell_at 5 3}"
    by (auto simp: candle0_def cell_at_def)
  then show ?thesis using active_poc_is_largest [OF p] p by (simp add: cell_at_def)
qed

theorem entered_negative_sizes_end_painting_witness:
  "paint_clusters True scene0 view0
     (cluster_input (''csMedMaxSize'', Typed (Some (- 1)) (Some (- 1)) ''-1'')
        (cluster_input (''csMedMinSize'', Typed (Some (- 5)) (Some (- 5)) ''-5'') [])) [candle1] 0 = None"
proof -
  let ?cs = "cluster_input (''csMedMaxSize'', Typed (Some (- 1)) (Some (- 1)) ''-1'')
        (cluster_input (''csMedMinSize'', Typed (Some (- 5)) (Some (- 5)) ''-5'') [])"
  have k: "map_of ?cs = [''csMedMinSize'' \<mapsto> JNum (- 5), ''csMedMaxSize'' \<mapsto> JNum (- 1)]"
    by (simp add: cluster_input_def form_fields_def med_fields_def field_defs volume_input_def or_nan_def or_else_def)
  have med: "med_filter ?cs = \<lparr>fs_enabled = True, fs_mergeLevels = 1, fs_imbalancePercent = 60, fs_minDelta = 0,
      fs_location = JStr ''any'', fs_minVolume = 100, fs_maxVolume = Some 500, fs_minSize = - 5, fs_maxSize = - 1,
      fs_colorBid = JStr ''#ef4444'', fs_colorAsk = JStr ''#10b981'', fs_range = 400\<rparr>"
    by (simp add: med_filter_def k num_or_def not_false_def str_prop_or_def Let_def)
  have "match1\<lparr>cm_size := - 4\<rparr> \<in> set (match_at hover_ask False (med_filter ?cs) candle1 [cell_at 5 200] 0)"
    by (simp add: match_at_def med K_of_def cell_at_def hover_ask_def location_ok_def match_size_def match1_def Let_def)
  moreover have "sort_desc cell_price (c_cells candle1) = [cell_at 5 200]"
    by (simp add: candle1_def candle0_def sort_desc_def)
  ultimately have "match1\<lparr>cm_size := - 4\<rparr> \<in> set (hover_matches ?cs candle1)"
    by (simp add: hover_matches_def filter_matches_def K_of_def med Let_def)
  then show ?thesis
    using entered_negative_sizes_end_painting [of "- 5" "- 1" "[]" "match1\<lparr>cm_size := - 4\<rparr>" "Some (- 1)" "''-1''" "Some (- 5)"
        "''-5''" "[candle1]" 0 scene0 view0]
    by (simp add: str_prop_or_def match1_def)
qed

end
