(* ===== verification/SideBars.thy ===== *)
theory SideBars
  imports FootprintPaint
begin

text \<open>
  Three components of the terminal that no other file imports: the scanner of pairs
  (\<open>frontend-chart/src/components/SidebarPairs.tsx\<close>) with its flashing prices, the depth of the order book
  (\<open>components/OrderBook.tsx\<close>) and the tape of trades (\<open>components/TimeAndSales.tsx\<close>).

  How the browser prints is a parameter: \<open>loc d\<close> is \<open>toLocaleString\<close> with at least \<open>d\<close> decimals, \<open>whole\<close> the same with no
  decimals, \<open>str\<close> turns a number into a string, and \<open>clock\<close> is \<open>toLocaleTimeString\<close>.
\<close>

section \<open>Flashing prices\<close>

datatype flash = Flash_up | Flash_down

text \<open>
  The state of the scanner: the prices it remembers, the flashes, whether the timer that ends the flashes runs, and whether the
  effect is due, because the pairs or the remembered prices are another object than at its last run.
\<close>

record scanner =
  sc_previousPrices :: "string \<rightharpoonup> number"
  sc_flashStates :: "string \<rightharpoonup> flash"
  sc_timer :: bool
  sc_due :: bool

definition scanner_init :: scanner where
  "scanner_init = \<lparr>sc_previousPrices = Map.empty, sc_flashStates = Map.empty, sc_timer = False, sc_due = True\<rparr>"

definition price_changed :: "(string \<rightharpoonup> number) \<Rightarrow> crypto_pair \<Rightarrow> bool" where
  "price_changed prev p \<longleftrightarrow> (case prev (pair_symbol p) of None \<Rightarrow> False | Some old \<Rightarrow> old \<noteq> pair_price p)"

definition flash_of :: "(string \<rightharpoonup> number) \<Rightarrow> crypto_pair \<Rightarrow> flash" where
  "flash_of prev p = (if pair_price p > the (prev (pair_symbol p)) then Flash_up else Flash_down)"

definition newFlashes :: "(string \<rightharpoonup> number) \<Rightarrow> crypto_pair list \<Rightarrow> string \<rightharpoonup> flash" where
  "newFlashes prev pairs =
     foldl (\<lambda>m p. if price_changed prev p then m(pair_symbol p \<mapsto> flash_of prev p) else m) Map.empty pairs"

definition currentPrices :: "crypto_pair list \<Rightarrow> string \<rightharpoonup> number" where
  "currentPrices pairs = foldl (\<lambda>m p. m(pair_symbol p \<mapsto> pair_price p)) Map.empty pairs"

text \<open>
  One run of the effect. The clean-up of the run before it stops the timer. Both branches store the current
  prices in a new object, so that the effect is due again.
\<close>

definition flash_effect :: "crypto_pair list \<Rightarrow> scanner \<Rightarrow> scanner" where
  "flash_effect pairs s =
     (if \<exists>p \<in> set pairs. price_changed (sc_previousPrices s) p
      then s\<lparr>sc_flashStates := sc_flashStates s ++ newFlashes (sc_previousPrices s) pairs,
             sc_previousPrices := currentPrices pairs, sc_timer := True, sc_due := True\<rparr>
      else s\<lparr>sc_previousPrices := currentPrices pairs, sc_timer := False, sc_due := True\<rparr>)"

text \<open>
  The life of the scanner: new pairs come in, an effect that is due runs, and the timer ends the flashes after five
  seconds, by which time an effect that was due has run.
\<close>

inductive scanner_step :: "crypto_pair list \<times> scanner \<Rightarrow> crypto_pair list \<times> scanner \<Rightarrow> bool" where
  new_pairs: "scanner_step (ps, s) (ps', s\<lparr>sc_due := True\<rparr>)"
| effect: "sc_due s \<Longrightarrow> scanner_step (ps, s) (ps, flash_effect ps s)"
| timer: "\<not> sc_due s \<Longrightarrow> sc_timer s \<Longrightarrow> scanner_step (ps, s) (ps, s\<lparr>sc_flashStates := Map.empty, sc_timer := False\<rparr>)"

section \<open>Rows of the scanner\<close>

definition formatVolume :: "(number \<Rightarrow> string) \<Rightarrow> number \<Rightarrow> string" where
  "formatVolume loc vol =
     (if vol \<ge> 1000000000 then fixed_text 2 (vol / 1000000000) @ ''B''
      else if vol \<ge> 1000000 then fixed_text 1 (vol / 1000000) @ ''M'' else loc vol)"

datatype row_frame = Frame_active | Frame_up | Frame_down | Frame_plain

record scanner_row =
  sr_frame :: row_frame
  sr_change :: string
  sr_rising :: bool
  sr_price :: string
  sr_price_tone :: row_frame
  sr_volume :: string
  sr_delta :: string
  sr_delta_up :: bool

definition scanner_row ::
  "(nat \<Rightarrow> number \<Rightarrow> string) \<Rightarrow> (number \<Rightarrow> string) \<Rightarrow> scanner \<Rightarrow> crypto_pair \<Rightarrow> crypto_pair \<Rightarrow> scanner_row" where
  "scanner_row loc str s activePair p =
     (let active = pair_symbol p = pair_symbol activePair; f = sc_flashStates s (pair_symbol p);
          fl = (case f of Some Flash_up \<Rightarrow> Frame_up | Some Flash_down \<Rightarrow> Frame_down | None \<Rightarrow> Frame_plain)
      in \<lparr>sr_frame = (if active then Frame_active else fl),
          sr_change = (if pair_change24h p \<ge> 0 then ''+'' else []) @ str (pair_change24h p) @ ''%'',
          sr_rising = (pair_change24h p \<ge> 0),
          sr_price = CHR ''$'' # loc (if pair_priceStep p < 1 / 10 then 4 else 2) (pair_price p),
          sr_price_tone = (if fl \<noteq> Frame_plain then fl else if active then Frame_active else Frame_plain),
          sr_volume = formatVolume (loc 0) (pair_volume24h p),
          sr_delta = (if pair_delta24h p \<ge> 0 then ''+'' else []) @ fixed_text 1 (pair_delta24h p / 1000) @ ''M'',
          sr_delta_up = (pair_delta24h p \<ge> 0)\<rparr>)"

section \<open>Depth of the order book\<close>

definition bidRatio :: "order_book \<Rightarrow> number" where
  "bidRatio ob =
     (let sumBids = sum_by row_amount (ob_bids ob); total = sumBids + sum_by row_amount (ob_asks ob)
      in if total > 0 then (sumBids / total) * 100 else 50)"

definition askRatio :: "order_book \<Rightarrow> number" where
  "askRatio ob = 100 - bidRatio ob"

definition isActiveFormat :: "crypto_pair \<Rightarrow> bool" where
  "isActiveFormat p \<longleftrightarrow>
     str_includes (pair_symbol p) ''SOL'' \<or> str_includes (pair_symbol p) ''BNB'' \<or> pair_priceStep p < 1 / 10"

definition isHeavy :: "order_book_row \<Rightarrow> bool" where
  "isHeavy r \<longleftrightarrow> row_amount r > 15"

record depth_row =
  dr_heavy :: bool
  dr_width :: number
  dr_price :: string
  dr_size :: string
  dr_total :: string

text \<open>A row: whether it is marked as a wall, the width of its bar in percent, its price, its size and its total.\<close>

definition depth_row :: "(nat \<Rightarrow> number \<Rightarrow> string) \<Rightarrow> crypto_pair \<Rightarrow> order_book_row \<Rightarrow> depth_row" where
  "depth_row loc p r =
     \<lparr>dr_heavy = isHeavy r, dr_width = row_percentage r, dr_price = loc (if pair_priceStep p < 1 / 10 then 3 else 1) (row_price r),
      dr_size = fixed_text (if isActiveFormat p then 3 else 1) (row_amount r),
      dr_total = fixed_text (if isActiveFormat p then 2 else 1) (row_total r)\<rparr>"

definition depth_columns ::
  "(nat \<Rightarrow> number \<Rightarrow> string) \<Rightarrow> crypto_pair \<Rightarrow> order_book \<Rightarrow> depth_row list \<times> depth_row list" where
  "depth_columns loc p ob = (map (depth_row loc p) (ob_bids ob), map (depth_row loc p) (ob_asks ob))"

section \<open>Tape of trades\<close>

definition whaleThreshold :: "crypto_pair \<Rightarrow> number" where
  "whaleThreshold p =
     (if str_includes (pair_symbol p) ''BTC'' then 5 / 2 else if str_includes (pair_symbol p) ''ETH'' then 15 else 50)"

definition filteredTrades :: "number \<Rightarrow> live_trade list \<Rightarrow> live_trade list" where
  "filteredTrades minSizeFilter trades = filter (\<lambda>t. tr_amount t \<ge> minSizeFilter) trades"

definition whaleAlerts :: "crypto_pair \<Rightarrow> live_trade list \<Rightarrow> live_trade list" where
  "whaleAlerts p trades = filter (\<lambda>t. tr_amount t \<ge> whaleThreshold p) trades"

text \<open>The milliseconds behind the time of a trade, for a time stamp that is a natural number.\<close>

definition milliseconds :: "nat \<Rightarrow> string" where
  "milliseconds timestamp = CHR ''.'' # pad 3 (timestamp mod 1000)"

record tape_row =
  tp_time :: string
  tp_price :: string
  tp_size :: string
  tp_buy :: bool
  tp_whale :: bool

definition tape_row :: "(nat \<Rightarrow> number \<Rightarrow> string) \<Rightarrow> (number \<Rightarrow> string) \<Rightarrow> crypto_pair \<Rightarrow> live_trade \<Rightarrow> tape_row" where
  "tape_row loc clock p t =
     \<lparr>tp_time = clock (tr_timestamp t) @ milliseconds (nat \<lfloor>tr_timestamp t\<rfloor>),
      tp_price = CHR ''$'' # loc (if pair_priceStep p < 1 / 10 then 3 else 1) (tr_price t),
      tp_size = fixed_text 4 (tr_amount t), tp_buy = (tr_side t = Buy_side), tp_whale = tr_isWhale t\<rparr>"

text \<open>An empty tape shows a message of its own.\<close>

definition tape ::
  "(nat \<Rightarrow> number \<Rightarrow> string) \<Rightarrow> (number \<Rightarrow> string) \<Rightarrow> crypto_pair \<Rightarrow> number \<Rightarrow> live_trade list \<Rightarrow> tape_row list option" where
  "tape loc clock p minSizeFilter trades =
     (if filteredTrades minSizeFilter trades = [] then None
      else Some (map (tape_row loc clock p) (filteredTrades minSizeFilter trades)))"

record whale_card =
  wc_time :: string
  wc_kind :: string
  wc_amount :: string
  wc_rate :: string
  wc_value :: string

definition equivalentValue :: "live_trade \<Rightarrow> number" where
  "equivalentValue t = tr_amount t * tr_price t"

definition whale_card ::
  "(nat \<Rightarrow> number \<Rightarrow> string) \<Rightarrow> (number \<Rightarrow> string) \<Rightarrow> (number \<Rightarrow> string) \<Rightarrow> crypto_pair \<Rightarrow> live_trade \<Rightarrow> whale_card" where
  "whale_card loc whole clock p t =
     \<lparr>wc_time = clock (tr_timestamp t),
      wc_kind = (if tr_side t = Buy_side then ''Aggressive Buying Block'' else ''Aggressive Selling Absorption''),
      wc_amount = fixed_text 1 (tr_amount t) @ '' '' @ before_slash (pair_symbol p),
      wc_rate = ''Fill Rate: $'' @ loc 0 (tr_price t),
      wc_value = ''Value: $'' @ whole (equivalentValue t) @ '' USDT''\<rparr>"

section \<open>Lemmas\<close>

lemma foldl_update:
  "foldl (\<lambda>m x. if P x then m(k x \<mapsto> f x) else m) m xs = m ++ map_of (rev (map (\<lambda>x. (k x, f x)) (filter P xs)))"
  by (induction xs arbitrary: m) (auto simp: map_add_def fun_eq_iff split: option.splits)

lemma currentPrices_map_of: "currentPrices ps = map_of (rev (map (\<lambda>p. (pair_symbol p, pair_price p)) ps))"
  using foldl_update [of "\<lambda>_. True" pair_symbol pair_price Map.empty ps] by (simp add: currentPrices_def)

lemma newFlashes_map_of:
  "newFlashes prev ps = map_of (rev (map (\<lambda>p. (pair_symbol p, flash_of prev p)) (filter (price_changed prev) ps)))"
  by (simp add: newFlashes_def foldl_update)

lemma currentPrices_at:
  "distinct (map pair_symbol ps) \<Longrightarrow> p \<in> set ps \<Longrightarrow> currentPrices ps (pair_symbol p) = Some (pair_price p)"
  by (auto simp: currentPrices_map_of rev_map [symmetric] o_def intro!: map_of_is_SomeI)

lemma newFlashes_at:
  "distinct (map pair_symbol ps) \<Longrightarrow> p \<in> set ps \<Longrightarrow> price_changed prev p \<Longrightarrow>
   newFlashes prev ps (pair_symbol p) = Some (flash_of prev p)"
  by (auto simp: newFlashes_map_of rev_map [symmetric] o_def distinct_map_filter intro!: map_of_is_SomeI)

lemma effect_due [simp]: "sc_due (flash_effect ps s)"
  by (simp add: flash_effect_def)

lemma effect_due_update: "(flash_effect ps s)\<lparr>sc_due := True\<rparr> = flash_effect ps s"
  by (simp add: flash_effect_def)

lemma effect_keeps_flashes: "sy \<in> dom (sc_flashStates s) \<Longrightarrow> sy \<in> dom (sc_flashStates (flash_effect ps s))"
  by (simp add: flash_effect_def)

lemma scanner_always_due: "scanner_step\<^sup>*\<^sup>* st st' \<Longrightarrow> sc_due (snd st) \<Longrightarrow> sc_due (snd st')"
  by (induction rule: rtranclp_induct) (auto elim: scanner_step.cases)

section \<open>Properties\<close>

text \<open>
  A price that has changed flashes in the direction of its change, and the effect remembers the new price.
\<close>

theorem flash_shows_direction:
  assumes "distinct (map pair_symbol ps)" "p \<in> set ps" "sc_previousPrices s (pair_symbol p) = Some old" "old \<noteq> pair_price p"
  shows "sc_flashStates (flash_effect ps s) (pair_symbol p) = Some (if pair_price p > old then Flash_up else Flash_down) \<and>
         sc_previousPrices (flash_effect ps s) (pair_symbol p) = Some (pair_price p) \<and> sc_timer (flash_effect ps s)"
proof -
  have c: "price_changed (sc_previousPrices s) p" using assms(3,4) by (simp add: price_changed_def)
  have "newFlashes (sc_previousPrices s) ps (pair_symbol p) = Some (if pair_price p > old then Flash_up else Flash_down)"
    using newFlashes_at [OF assms(1,2) c] assms(3) by (simp add: flash_of_def)
  moreover have "\<exists>q \<in> set ps. price_changed (sc_previousPrices s) q" using c assms(2) by blast
  ultimately show ?thesis using currentPrices_at [OF assms(1,2)] by (simp add: flash_effect_def)
qed

text \<open>
  The run that follows at once stops the timer that was to end the flashes, and changes nothing else.
\<close>

theorem second_run_stops_timer:
  assumes "distinct (map pair_symbol ps)"
  shows "flash_effect ps (flash_effect ps s) = (flash_effect ps s)\<lparr>sc_timer := False\<rparr>"
proof -
  have "sc_previousPrices (flash_effect ps s) = currentPrices ps" by (simp add: flash_effect_def)
  moreover have "\<not> price_changed (currentPrices ps) p" if "p \<in> set ps" for p
    using currentPrices_at [OF assms that] by (simp add: price_changed_def)
  ultimately show ?thesis by (auto simp: flash_effect_def)
qed

text \<open>A flash never ends: once a pair flashes, it flashes, in one direction or the other, in every later state.\<close>

theorem flash_never_ends:
  assumes start: "scanner_step\<^sup>*\<^sup>* (ps0, scanner_init) (ps, s)" and later: "scanner_step\<^sup>*\<^sup>* (ps, s) (ps', s')"
    and flashing: "sc_flashStates s sy \<noteq> None"
  shows "sc_flashStates s' sy \<noteq> None"
proof -
  have due: "sc_due s" using scanner_always_due [OF start] by (simp add: scanner_init_def)
  from later have "sc_due (snd (ps', s')) \<and> sy \<in> dom (sc_flashStates (snd (ps', s')))"
  proof (induction rule: rtranclp_induct)
    case base
    then show ?case using due flashing by auto
  next
    case (step st st')
    from step(2,3) show ?case
      by cases (simp_all add: effect_keeps_flashes del: domIff)
  qed
  then show ?thesis by auto
qed

text \<open>
  The two shares of the order book are percentages that add up to the whole bar, and the bids have the larger one exactly when
  more is bid than asked.
\<close>

theorem book_shares_add_up:
  assumes "\<And>r. r \<in> set (ob_bids ob) \<Longrightarrow> 0 \<le> row_amount r" "\<And>r. r \<in> set (ob_asks ob) \<Longrightarrow> 0 \<le> row_amount r"
  shows "bidRatio ob + askRatio ob = 100 \<and> 0 \<le> bidRatio ob \<and> bidRatio ob \<le> 100 \<and>
         (bidRatio ob > askRatio ob \<longleftrightarrow> sum_by row_amount (ob_bids ob) > sum_by row_amount (ob_asks ob))"
proof -
  have "0 \<le> sum_list (map row_amount (ob_bids ob))" "0 \<le> sum_list (map row_amount (ob_asks ob))"
    using assms by (simp_all add: sum_list_map_nonneg)
  then show ?thesis by (auto simp: bidRatio_def askRatio_def Let_def field_simps)
qed

text \<open>
  The alerts ignore the filter of the tape: with a filter up to the threshold every alert is in the tape too, while an alert
  smaller than the filter is shown as an alert and missing in the tape.
\<close>

theorem alerts_against_tape:
  "(m \<le> whaleThreshold p \<longrightarrow> set (whaleAlerts p ts) \<subseteq> set (filteredTrades m ts)) \<and>
   (\<forall>t \<in> set ts. whaleThreshold p \<le> tr_amount t \<and> tr_amount t < m \<longrightarrow>
      t \<in> set (whaleAlerts p ts) \<and> t \<notin> set (filteredTrades m ts))"
  by (auto simp: whaleAlerts_def filteredTrades_def)

text \<open>Just below a billion the volume of the day reads 1000 millions.\<close>

theorem volume_reads_1000M:
  assumes "999950000 \<le> vol" "vol < 1000000000"
  shows "formatVolume loc vol = ''1000.0M''"
proof -
  have digits: "char_of (49 :: nat) = CHR ''1''" "char_of (48 :: nat) = CHR ''0''" by code_simp+
  have "\<lfloor>vol / 1000000 * 10 ^ 1 + 1 / 2\<rfloor> = 10000" using assms by (simp add: floor_eq_iff)
  then have "fixed_digits 1 (vol / 1000000) = ''1000.0''"
    unfolding fixed_digits_def by (simp add: Let_def show_nat.simps digit_char_def pad_def digits)
  then show ?thesis using assms by (simp add: formatVolume_def fixed_text_def)
qed

text \<open>The milliseconds always take three digits, which read as the rest of the time stamp.\<close>

theorem milliseconds_three_digits:
  "length (milliseconds t) = 4 \<and> digits_val (tl (milliseconds t)) = t mod 1000"
  using length_pad [of "t mod 1000" 3] by (simp add: milliseconds_def)

section \<open>Witnesses\<close>

definition pair0 :: "number \<Rightarrow> crypto_pair" where
  "pair0 price = \<lparr>pair_symbol = ''BTC/USDT'', pair_name = ''Bitcoin'', pair_price = price, pair_change24h = 0, pair_volume24h = 0,
                  pair_delta24h = 0, pair_priceStep = 1\<rparr>"

definition scanner0 :: scanner where
  "scanner0 = flash_effect [pair0 2] (flash_effect [pair0 1] scanner_init)"

theorem flash_shows_direction_witness: "sc_flashStates scanner0 ''BTC/USDT'' = Some Flash_up"
  using flash_shows_direction [of "[pair0 2]" "pair0 2" "flash_effect [pair0 1] scanner_init" 1]
  by (simp add: scanner0_def pair0_def flash_effect_def scanner_init_def price_changed_def currentPrices_def)

theorem second_run_stops_timer_witness: "\<not> sc_timer (flash_effect [pair0 2] scanner0)"
  using second_run_stops_timer [of "[pair0 2]"] by (simp add: scanner0_def)

theorem flash_never_ends_witness: "sc_flashStates (flash_effect [pair0 2] scanner0) ''BTC/USDT'' \<noteq> None"
proof -
  have "scanner_step ([pair0 1], scanner_init) ([pair0 1], flash_effect [pair0 1] scanner_init)"
    by (rule effect) (simp add: scanner_init_def)
  moreover have "scanner_step ([pair0 1], flash_effect [pair0 1] scanner_init) ([pair0 2], flash_effect [pair0 1] scanner_init)"
    using new_pairs [of "[pair0 1]" "flash_effect [pair0 1] scanner_init" "[pair0 2]"] by (simp only: effect_due_update)
  ultimately have start: "scanner_step\<^sup>*\<^sup>* ([pair0 1], scanner_init) ([pair0 2], flash_effect [pair0 1] scanner_init)"
    by (rule rtranclp.rtrancl_into_rtrancl [OF r_into_rtranclp])
  have s1: "scanner_step ([pair0 2], flash_effect [pair0 1] scanner_init) ([pair0 2], scanner0)"
    unfolding scanner0_def by (rule effect) simp
  have s2: "scanner_step ([pair0 2], scanner0) ([pair0 2], flash_effect [pair0 2] scanner0)"
    by (rule effect) (simp add: scanner0_def)
  have "sc_flashStates scanner0 ''BTC/USDT'' \<noteq> None"
    by (simp add: scanner0_def pair0_def flash_effect_def scanner_init_def price_changed_def currentPrices_def newFlashes_def)
  then show ?thesis
    using flash_never_ends [OF rtranclp.rtrancl_into_rtrancl [OF start s1] r_into_rtranclp, OF s2] by simp
qed

theorem book_shares_add_up_witness: "bidRatio EMPTY_ORDER_BOOK + askRatio EMPTY_ORDER_BOOK = 100"
  using book_shares_add_up [of EMPTY_ORDER_BOOK] by (simp add: EMPTY_ORDER_BOOK_def)

theorem volume_reads_1000M_witness: "formatVolume (\<lambda>_. []) 999960000 = ''1000.0M''"
  by (rule volume_reads_1000M) simp_all

end
