(* ===== verification/Spec2Isabelle.thy ===== *)
theory Spec2Isabelle
  imports JsPrelude JsJson ChartTypes StorageLib TierLimits AuthStubs CandleMap WsClient ChartFeed
    MarketData DomTrading Viewport Drawing Profiles ClusterSearch AppState
    IndicatorDialog JsDate UserProfile AdminPanel FootprintPaint DrawingPaint LiveSeries WsRecovery
    TerminalMenus ChartOverlay DomLadder IndicatorForm ChartFrame SideBars
begin

text \<open>
  A verification development for the footprint-chart terminal, the React and TypeScript program under
  frontend-chart/src.

  The program and its parts.
  The application (App.tsx) shows two charts of exchange data side by side. Each chart has a setting (pair, market,
  interval, compression); its candles are loaded over REST (lib/api.ts), extended into the past on demand,
  and kept current by a WebSocket client that both charts share (lib/wsClient.ts). Exchange data can also
  be aggregated in the browser (lib/marketData.ts). The chart component (components/ClusterChart.tsx)
  projects candles to the canvas and lets the user zoom, pan and scroll; the order-book side bar
  (components/DOMSidebar.tsx) holds a trading simulator. The plan limits (lib/tierLimits.ts) bound how many candles a
  chart keeps, and depend on the user that the sign-in stubs (auth/stubs.ts, components/Header.tsx) put into
  the browser storage (lib/storage.ts). Around the charts the application keeps its own settings, and has a dialog for the
  indicators (components/IndicatorsModal.tsx), a profile page with a checkout
  (components/UserProfile.tsx), and a panel for administrators (components/AdminPanel.tsx).

  The theories, in the order of their imports.
  JsPrelude: JavaScript numbers, rounding, array and string operations, with the lemmas the components share.
  JsJson: JSON values as the storage holds them.
  ChartTypes: the interfaces of types.ts as records, and the empty values of data/stubs.ts.
  StorageLib: lib/storage.ts over a store that may refuse a write; the contract of a key-value store is the
  locale kv_store, interpreted on these functions.
  TierLimits: lib/tierLimits.ts; the group of a user and the limits of a group.
  AuthStubs: auth/stubs.ts and the form handlers of components/Header.tsx.
  CandleMap: the mapping of backend candles, once in lib/api.ts and once in lib/wsClient.ts, with the
  point of control and the value area.
  WsClient: lib/wsClient.ts as a state machine over its sockets, its reconnect timer, its active
  subscriptions and callbacks; ws_step has one rule per call and per event.
  ChartFeed: the data effects of App.tsx. A feed is one chart's candles, buffered live candle and outstanding
  requests, and feed_step its life between two changes of setting; charts is the pair of
  feeds with the shared client, and charts_step its effects in any order.
  MarketData: lib/marketData.ts; candles from trades, synthetic cells from klines, and the depth ladder.
  DomTrading: the simulator of components/DOMSidebar.tsx, with dom_step over all its handlers.
  DomLadder: what that side bar shows, the rows of the ladder with bars and pending orders, the timer that centers it and the gauge,
  and how the simulator is saved and loaded.
  Viewport: the geometry of components/ClusterChart.tsx; the locale axis states what a projection
  and its inverse promise and is interpreted on the price and on the time axis.
  Drawing: the drawing tools of components/ClusterChart.tsx in its mouse and keyboard handlers; board_step has one
  rule per handler, and a drawing is a record anchored to prices and to scrolled pixels.
  Profiles: session and range volume profiles with their value area, the scales of the sub-panels, the cumulative delta, and
  the modules under indicators/.
  ClusterSearch: the two cluster filters, each once for drawing and once for hovering, and what the mouse hovers.
  FootprintPaint and DrawingPaint: the canvas effect of components/ClusterChart.tsx, as the lists of shapes it paints for
  candles, cells, sub-panels, labels and drawings.
  ChartOverlay: what surrounds the canvas, the price scale with its labels, wheel and drags, the values and buttons of the
  sub-panels, the tooltip of the cluster search and the counter of frames.
  AppState: the settings App.tsx keeps and stores: theme, saved pairs, favorites, splitter, the two charts' settings
  with the effects that follow a change, the role of the user, and the indicators.
  TerminalMenus: the ticker menu, intervals and compression levels of the bar above the charts, the pages, the workspace
  menu of the charts with the layouts, and the account menu and sign-in window of the header.
  IndicatorDialog: the draft, the order and the accordion of components/IndicatorsModal.tsx, its window, and
  how App.tsx saves and reloads what it applies.
  IndicatorForm: the inputs of that dialog for each indicator, what they show and write, against the settings the charts read.
  ChartFrame: the canvas with the lines between its panels, the colors of the candles, and the shapes of the cluster search with
  the points they cover, against the hover test and against what the form accepts as their size.
  SideBars: three components that no file imports, the scanner of pairs with its flashing prices (scanner_step), the depth of the order book and
  the tape of trades with its alerts.
  JsDate and UserProfile: ISO dates, and the form, plan, checkout and remaining days of components/UserProfile.tsx.
  AdminPanel: the requests, histories and graphs of components/AdminPanel.tsx and its history job; job_step has one rule
  per call and per event of the event source.
  LiveSeries: what the live feed promises, a map of the newest candles by time, and that ChartFeed implements it.
  WsRecovery: that a client which lost its connection comes back.

  Groups of lemmas.
  Each theory proves first how its operations act on the parts of the state they do not concern, then one lemma
  per operation for its invariant, collected for its step relation, and then the properties: the
  agreement of client and server on subscriptions, strict chronological order of a chart, conservation of volume
  through every aggregation, matching of limit orders, inverse projections and bounds of all
  zoom paths, drawings that follow the mouse and can be grabbed wherever they are painted, the limits of the indicator
  dialog, the agreement of what is shown (forms, labels, menus) with what is in force, and what the paintings never leave.
  Properties that state an undesired behaviour (a starved chart, mixed histories, a profit paid twice) say so in their text.

  Conventions.
  A JavaScript number is a real number: rounding errors of doubles are not modelled, while every explicit rounding of the
  program (toFixed, Math.floor, Math.round) is. Missing values are options; what is undefined, null or absent
  in the source is distinguished only where the code does. Loops over arrays are folds; the only loop whose end
  depends on a parameter, the chunk loop of the tick aggregation, is a partial_function whose result None means
  that it does not return, and the property about it says exactly when it returns. No fuel is used. Where a loop ends for a
  reason other than the structure of a list (the growth of a value area, the splitting of days into years), the
  function has a termination proof with a measure.
  An effect of React that depends on part of the state runs after every change of that part, queued updates are applied
  in order, and timers, event sources and requests in flight are parts of the state whose firing is a step of its own.
  A painting is a list of shapes with the coordinates and opacities the code computes; a constant color, font, width or
  dash is left out.
  The responses of REST calls and of the exchange, the messages on the socket, the current time, JSON text
  decoding and generated identifiers are parameters or arguments of the operations that receive them.

  Not modelled.
  The markup and style of all components, constant colors, static texts (i18n/header.ts,
  components/RoadmapModal.tsx, components/icons.tsx), and the Go backend, whose observable effects are inputs here.
\<close>

end
